theory Spec2Isabelle
  imports Complex_Main
begin

section \<open>Data model (models/schemas.py, models/artifacts.py)\<close>

text \<open>
  Every pydantic model of the repository is a record.  Python's unbounded \<open>int\<close> is
  \<open>int\<close>, \<open>str\<close> is \<open>string\<close>, an \<open>Optional\<close> field is an \<open>option\<close>,
  a \<open>Literal\<close> or \<open>Enum\<close> is a datatype.  A \<open>datetime\<close> is the number of
  microseconds since the epoch.  Field names are the source's, prefixed where two models
  share a name or the name is an Isabelle keyword.
\<close>

type_synonym datetime = int

record GeneratorInput =
  grade :: int
  topic :: string

record Explanation =
  explanation_text :: string
  explanation_grade :: int

record MCQ =
  question :: string
  options :: "string list"
  correct_index :: int

record TeacherNotes =
  learning_objective :: string
  common_misconceptions :: "string list"

record GeneratorOutput =
  explanation :: Explanation
  mcqs :: "MCQ list"
  teacher_notes :: TeacherNotes

record ReviewScore =
  age_appropriateness :: int
  correctness :: int
  clarity :: int
  coverage :: int

datatype severity = critical | major | minor

record ReviewFeedback =
  field :: string
  issue :: string
  severity :: severity
  suggestion :: "string option"

record ReviewerOutput =
  scores :: ReviewScore
  pass_decision :: bool
  feedback :: "ReviewFeedback list"
  summary :: string

record RefinerInput =
  original_input :: GeneratorInput
  current_content :: GeneratorOutput
  refiner_feedback :: "ReviewFeedback list"
  attempt_number :: int

datatype DifficultyLevel = EASY | MEDIUM | HARD

datatype BloomsLevel =
  REMEMBERING | UNDERSTANDING | APPLYING | ANALYZING | EVALUATING | CREATING

datatype ContentType = EXPLANATION | QUIZ | EXERCISE | EXAMPLE

record TaggerOutput =
  subject :: string
  tag_topic :: string
  tag_grade :: int
  difficulty :: DifficultyLevel
  content_type :: "ContentType list"
  blooms_level :: BloomsLevel
  tag_keywords :: "string list"

record AttemptRecord =
  attempt :: int
  draft :: GeneratorOutput
  review :: ReviewerOutput
  refined :: "GeneratorOutput option"
  timestamp :: datetime

datatype status = approved | rejected

record FinalResult =
  status :: status
  content :: "GeneratorOutput option"
  tags :: "TaggerOutput option"
  rejection_reason :: "string option"

record Timestamps =
  started_at :: datetime
  finished_at :: "datetime option"
  duration_seconds :: "rat option"

record RunArtifact =
  run_id :: string
  user_id :: "string option"
  input :: GeneratorInput
  attempts :: "AttemptRecord list"
  final :: "FinalResult option"
  timestamps :: Timestamps
  metadata :: "(string \<times> string) list"

section \<open>Exceptions (agents/base.py)\<close>

text \<open>
  An exception is a value.  \<open>AgentError message agent_name recoverable\<close> is the
  repository's own class; the other constructors are the \<open>Exception\<close> subclasses the
  code can meet, each carrying its \<open>str(e)\<close>.  \<open>str\<close> of an \<open>AgentError\<close> is
  what its constructor hands to \<open>super().__init__\<close>.
\<close>

datatype exn =
    AgentError string string bool
  | JSONDecodeError string
  | ValidationError string
  | OtherError string

fun exn_str :: "exn \<Rightarrow> string" where
  "exn_str (AgentError message agent_name recoverable) = ''['' @ agent_name @ ''] '' @ message"
| "exn_str (JSONDecodeError s) = s"
| "exn_str (ValidationError s) = s"
| "exn_str (OtherError s) = s"

fun is_AgentError :: "exn \<Rightarrow> bool" where
  "is_AgentError (AgentError message agent_name recoverable) = True"
| "is_AgentError e = False"

section \<open>Python string helpers\<close>

text \<open>\<open>sep.join(xs)\<close>.\<close>

fun join :: "string \<Rightarrow> string list \<Rightarrow> string" where
  "join sep [] = []"
| "join sep [x] = x"
| "join sep (x # y # ys) = x @ sep @ join sep (y # ys)"

text \<open>\<open>str(n)\<close> for an integer, as an f-string renders it.\<close>

definition digit_char :: "nat \<Rightarrow> char" where
  "digit_char d = ''0123456789'' ! d"

fun str_nat :: "nat \<Rightarrow> string" where
  "str_nat n = (if n < 10 then [digit_char n] else str_nat (n div 10) @ [digit_char (n mod 10)])"

declare str_nat.simps [simp del]

definition str_int :: "int \<Rightarrow> string" where
  "str_int i = (if i < 0 then CHR ''-'' # str_nat (nat (- i)) else str_nat (nat i))"

section \<open>Rejection-reason summary (agents/orchestrator.py, \<open>_summarize_feedback\<close>)\<close>

definition format_feedback :: "ReviewFeedback \<Rightarrow> string" where
  "format_feedback f = field f @ '': '' @ issue f"

text \<open>
  \<open>not review\<close> holds for \<open>None\<close> only (a pydantic model is always truthy);
  \<open>not review.feedback\<close> holds for the empty list.
\<close>

definition summarize_feedback :: "ReviewerOutput option \<Rightarrow> string" where
  "summarize_feedback final_review =
     (case final_review of
        None \<Rightarrow> ''No specific feedback available''
      | Some r \<Rightarrow>
          if feedback r = [] then ''No specific feedback available''
          else
            let critical_items = filter (\<lambda>f. severity f = critical) (feedback r) in
            if critical_items \<noteq> [] then join ''; '' (map format_feedback (take 3 critical_items))
            else join ''; '' (map format_feedback (take 3 (feedback r))))"

section \<open>The orchestrator (agents/orchestrator.py)\<close>

text \<open>
  The four agents call a language model, so the orchestrator is modelled over a world
  \<open>'w\<close> that every collaborator call reads and changes: a call returns its result, or
  the exception it raised, and the next world.
\<close>

subsection \<open>The tagger as \<open>_tag\<close> calls it (agents/tagger.py)\<close>

text \<open>
  \<open>TaggerAgent._build_user_prompt\<close> subscripts its argument: it expects the
  \<open>dict\<close> with the keys \<open>grade\<close>, \<open>topic\<close> and \<open>content\<close> that
  \<open>TaggerAgent.tag\<close> builds.  Its first statement evaluates \<open>input_data["content"]\<close>,
  which on a pydantic model raises \<open>TypeError\<close>.  \<open>dumps\<close> is
  \<open>json.dumps(content.model_dump(), indent=2)\<close>.
\<close>

datatype tagger_input =
    TaggerDict int string GeneratorOutput
  | TaggerModel GeneratorInput

definition not_subscriptable :: "string \<Rightarrow> exn" where
  "not_subscriptable cls =
     OtherError ([CHR 0x27] @ cls @ [CHR 0x27] @ '' object is not subscriptable'')"

definition TaggerAgent_build_user_prompt ::
  "(GeneratorOutput \<Rightarrow> string) \<Rightarrow> tagger_input \<Rightarrow> exn + string" where
  "TaggerAgent_build_user_prompt dumps input_data =
     (case input_data of
        TaggerModel m \<Rightarrow> Inl (not_subscriptable ''GeneratorInput'')
      | TaggerDict g t c \<Rightarrow>
          Inr (''Classify the following educational content:'' @ [CHR 0x0A, CHR 0x0A]
               @ ''ORIGINAL REQUEST:'' @ [CHR 0x0A]
               @ ''- Grade: '' @ str_int g @ [CHR 0x0A]
               @ ''- Topic: '' @ t @ [CHR 0x0A, CHR 0x0A]
               @ ''CONTENT:'' @ [CHR 0x0A] @ dumps c @ [CHR 0x0A, CHR 0x0A]
               @ ''Provide accurate classification tags.''))"

text \<open>
  \<open>self.tagger.run(input_data, content)\<close>: \<open>TaggerAgent\<close> inherits \<open>run\<close> from
  \<open>BaseAgent\<close>, whose parameters are \<open>(input_data, max_retries)\<close>, so the
  \<open>GeneratorInput\<close> is bound to \<open>input_data\<close> and the draft to \<open>max_retries\<close>.
  \<open>run\<close> builds its two prompts before its loop, and the user prompt raises.  With a
  user prompt in hand, \<open>range(max_retries + 1)\<close> would add \<open>1\<close> to a
  \<open>GeneratorOutput\<close>, a \<open>TypeError\<close> as well.  No call to the language model is
  made, so the world is unchanged.
\<close>

definition TaggerAgent_run ::
  "(GeneratorOutput \<Rightarrow> string) \<Rightarrow> GeneratorInput \<Rightarrow> GeneratorOutput \<Rightarrow> 'w
     \<Rightarrow> (exn + TaggerOutput) \<times> 'w" where
  "TaggerAgent_run dumps input_data max_retries w =
     (case TaggerAgent_build_user_prompt dumps (TaggerModel input_data) of
        Inl e \<Rightarrow> (Inl e, w)
      | Inr user_prompt \<Rightarrow>
          (Inl (OtherError (''unsupported operand type(s) for +: '' @ [CHR 0x27]
                  @ ''GeneratorOutput'' @ [CHR 0x27] @ '' and '' @ [CHR 0x27] @ ''int''
                  @ [CHR 0x27])), w))"

text \<open>
  \<open>self.tagger\<close> is the \<open>TaggerAgent\<close> that \<open>Orchestrator.__init__\<close> builds, or,
  in tests/test_orchestration.py, one whose \<open>run\<close> is replaced by a mock
  (\<open>patch.object(TaggerAgent, 'run')\<close>), which takes the two arguments as they come.
\<close>

datatype 'w tagger =
    TaggerAgent "GeneratorOutput \<Rightarrow> string"
  | Patched "GeneratorInput \<Rightarrow> GeneratorOutput \<Rightarrow> 'w \<Rightarrow> (exn + TaggerOutput) \<times> 'w"

subsection \<open>The orchestrator's state and steps\<close>

text \<open>
  The record holds what \<open>Orchestrator.run\<close> calls: the bound methods
  \<open>generator.run\<close>, \<open>reviewer.review\<close> and \<open>refiner.run\<close> (the seam the tests
  patch), the tagger, \<open>max_refinements\<close>, the two library functions
  \<open>datetime.utcnow\<close> and \<open>uuid.uuid4\<close>, and the version of the installed pydantic
  (major and minor number), which its error messages quote.
\<close>

record 'w Orchestrator =
  generator_run :: "GeneratorInput \<Rightarrow> 'w \<Rightarrow> (exn + GeneratorOutput) \<times> 'w"
  reviewer_review :: "GeneratorInput \<Rightarrow> GeneratorOutput \<Rightarrow> 'w \<Rightarrow> (exn + ReviewerOutput) \<times> 'w"
  refiner_run :: "RefinerInput \<Rightarrow> 'w \<Rightarrow> (exn + GeneratorOutput) \<times> 'w"
  tagger :: "'w tagger"
  max_refinements :: int
  utcnow :: "'w \<Rightarrow> datetime \<times> 'w"
  uuid4 :: "'w \<Rightarrow> string \<times> 'w"
  pydantic_version :: string

definition tagger_run ::
  "'w Orchestrator \<Rightarrow> GeneratorInput \<Rightarrow> GeneratorOutput \<Rightarrow> 'w
     \<Rightarrow> (exn + TaggerOutput) \<times> 'w" where
  "tagger_run orch input_data c w =
     (case tagger orch of
        TaggerAgent dumps \<Rightarrow> TaggerAgent_run dumps input_data c w
      | Patched f \<Rightarrow> f input_data c w)"

text \<open>
  Every collaborator call is recorded with its arguments and its outcome, as a mock
  records its calls; the record is the model's only addition to the program state.
\<close>

datatype call =
    GeneratorRun GeneratorInput "exn + GeneratorOutput"
  | ReviewerReview GeneratorInput GeneratorOutput "exn + ReviewerOutput"
  | RefinerRun RefinerInput "exn + GeneratorOutput"
  | TaggerRun GeneratorInput GeneratorOutput "exn + TaggerOutput"

record 'w pipeline_state =
  artifact :: RunArtifact
  world :: 'w
  calls :: "call list"

definition generate_step ::
  "'w Orchestrator \<Rightarrow> GeneratorInput \<Rightarrow> 'w pipeline_state
     \<Rightarrow> (exn + GeneratorOutput) \<times> 'w pipeline_state" where
  "generate_step orch input_data s =
     (case generator_run orch input_data (world s) of
        (r, w) \<Rightarrow> (r, s\<lparr>world := w, calls := calls s @ [GeneratorRun input_data r]\<rparr>))"

definition review_step ::
  "'w Orchestrator \<Rightarrow> GeneratorInput \<Rightarrow> GeneratorOutput \<Rightarrow> 'w pipeline_state
     \<Rightarrow> (exn + ReviewerOutput) \<times> 'w pipeline_state" where
  "review_step orch input_data c s =
     (case reviewer_review orch input_data c (world s) of
        (r, w) \<Rightarrow> (r, s\<lparr>world := w, calls := calls s @ [ReviewerReview input_data c r]\<rparr>))"

text \<open>
  \<open>RefinerInput(...)\<close>: the schema's \<open>Field(..., ge=1, le=2)\<close> on
  \<open>attempt_number\<close> is the one constraint that can fail here (the other arguments are
  model instances already).  The exception is pydantic's \<open>ValidationError\<close>; its
  message is rendered as pydantic 2 renders it: the count and the model, the field, the
  complaint with the type of the error and the input, and the line that links to the
  documentation of the installed version \<open>v\<close>.
\<close>

definition RefinerInput_error :: "string \<Rightarrow> int \<Rightarrow> exn" where
  "RefinerInput_error v n =
     ValidationError
       (''1 validation error for RefinerInput'' @ [CHR 0x0A] @ ''attempt_number'' @ [CHR 0x0A]
        @ (if n < 1
           then ''  Input should be greater than or equal to 1 [type=greater_than_equal''
           else ''  Input should be less than or equal to 2 [type=less_than_equal'')
        @ '', input_value='' @ str_int n @ '', input_type=int]'' @ [CHR 0x0A]
        @ ''    For further information visit https://errors.pydantic.dev/'' @ v @ ''/v/''
        @ (if n < 1 then ''greater_than_equal'' else ''less_than_equal''))"

definition new_RefinerInput ::
  "string \<Rightarrow> GeneratorInput \<Rightarrow> GeneratorOutput \<Rightarrow> ReviewFeedback list \<Rightarrow> int
     \<Rightarrow> exn + RefinerInput" where
  "new_RefinerInput v input_data c fb n =
     (if 1 \<le> n \<and> n \<le> 2
      then Inr \<lparr>original_input = input_data, current_content = c, refiner_feedback = fb,
                attempt_number = n\<rparr>
      else Inl (RefinerInput_error v n))"

definition refine_step ::
  "'w Orchestrator \<Rightarrow> GeneratorInput \<Rightarrow> GeneratorOutput \<Rightarrow> ReviewerOutput \<Rightarrow> int
     \<Rightarrow> 'w pipeline_state \<Rightarrow> (exn + GeneratorOutput) \<times> 'w pipeline_state" where
  "refine_step orch input_data c rv n s =
     (case new_RefinerInput (pydantic_version orch) input_data c (feedback rv) n of
        Inl e \<Rightarrow> (Inl e, s)
      | Inr refiner_input \<Rightarrow>
          (case refiner_run orch refiner_input (world s) of
             (r, w) \<Rightarrow> (r, s\<lparr>world := w, calls := calls s @ [RefinerRun refiner_input r]\<rparr>)))"

definition tag_step ::
  "'w Orchestrator \<Rightarrow> GeneratorInput \<Rightarrow> GeneratorOutput \<Rightarrow> 'w pipeline_state
     \<Rightarrow> (exn + TaggerOutput) \<times> 'w pipeline_state" where
  "tag_step orch input_data c s =
     (case tagger_run orch input_data c (world s) of
        (r, w) \<Rightarrow> (r, s\<lparr>world := w, calls := calls s @ [TaggerRun input_data c r]\<rparr>))"

text \<open>
  \<open>AttemptRecord(attempt=..., draft=..., review=..., refined=None)\<close>: the
  \<open>timestamp\<close> default reads the clock.
\<close>

definition new_AttemptRecord ::
  "'w Orchestrator \<Rightarrow> int \<Rightarrow> GeneratorOutput \<Rightarrow> ReviewerOutput \<Rightarrow> 'w pipeline_state
     \<Rightarrow> AttemptRecord \<times> 'w pipeline_state" where
  "new_AttemptRecord orch n c rv s =
     (case utcnow orch (world s) of
        (t, w) \<Rightarrow>
          (\<lparr>attempt = n, draft = c, review = rv, refined = None, timestamp = t\<rparr>,
           s\<lparr>world := w\<rparr>))"

definition append_attempt :: "AttemptRecord \<Rightarrow> 'w pipeline_state \<Rightarrow> 'w pipeline_state" where
  "append_attempt a s = s\<lparr>artifact := (artifact s)\<lparr>attempts := attempts (artifact s) @ [a]\<rparr>\<rparr>"

definition set_final :: "FinalResult \<Rightarrow> 'w pipeline_state \<Rightarrow> 'w pipeline_state" where
  "set_final f s = s\<lparr>artifact := (artifact s)\<lparr>final := Some f\<rparr>\<rparr>"

text \<open>
  One iteration of the review loop ends in one of three ways: an exception leaves the
  \<open>try\<close> block, a \<open>break\<close> leaves the loop with \<open>final_content\<close> and
  \<open>final_review\<close>, or the loop goes on with the refined draft.
\<close>

datatype iteration =
    Raise exn
  | Break "GeneratorOutput option" "ReviewerOutput option"
  | Continue GeneratorOutput

text \<open>The body of the \<open>while\<close> loop, at \<open>attempt_number = n\<close>.\<close>

definition loop_body ::
  "'w Orchestrator \<Rightarrow> GeneratorInput \<Rightarrow> int \<Rightarrow> GeneratorOutput \<Rightarrow> 'w pipeline_state
     \<Rightarrow> iteration \<times> 'w pipeline_state" where
  "loop_body orch input_data n current s =
     (case review_step orch input_data current s of
        (Inl e, s1) \<Rightarrow> (Raise e, s1)
      | (Inr rv, s1) \<Rightarrow>
          (case new_AttemptRecord orch n current rv s1 of
             (a, s2) \<Rightarrow>
               if pass_decision rv then
                 (Break (Some current) (Some rv), append_attempt a s2)
               else if n > max_refinements orch then
                 (Break None (Some rv), append_attempt a s2)
               else
                 (case refine_step orch input_data current rv n s2 of
                    (Inl e, s3) \<Rightarrow> (Raise e, s3)
                  | (Inr refined_content, s3) \<Rightarrow>
                      (Continue refined_content,
                       append_attempt (a\<lparr>refined := Some refined_content\<rparr>) s3))))"

text \<open>
  The review loop, \<open>while attempt_number <= self.max_refinements + 1\<close>, entered with
  \<open>attempt_number = n\<close>.  It returns \<open>(final_content, final_review)\<close>, or the
  exception that left it.
\<close>

function review_loop ::
  "'w Orchestrator \<Rightarrow> GeneratorInput \<Rightarrow> int \<Rightarrow> GeneratorOutput \<Rightarrow> 'w pipeline_state
     \<Rightarrow> (exn + GeneratorOutput option \<times> ReviewerOutput option) \<times> 'w pipeline_state" where
  "review_loop orch input_data n current s =
     (if n \<le> max_refinements orch + 1 then
        (case loop_body orch input_data n current s of
           (Raise e, s') \<Rightarrow> (Inl e, s')
         | (Break final_content final_review, s') \<Rightarrow> (Inr (final_content, final_review), s')
         | (Continue refined_content, s') \<Rightarrow>
             review_loop orch input_data (n + 1) refined_content s')
      else (Inr (None, None), s))"
  by pat_completeness auto
termination
  by (relation "measure (\<lambda>(orch, input_data, n, current, s). nat (max_refinements orch + 2 - n))")
     auto

declare review_loop.simps [simp del]

text \<open>The two \<open>except\<close> clauses of \<open>run\<close>.\<close>

definition handle_exn :: "exn \<Rightarrow> FinalResult" where
  "handle_exn e =
     \<lparr>status = rejected, content = None, tags = None,
      rejection_reason =
        Some ((if is_AgentError e then ''Pipeline error: '' else ''Unexpected error: '')
              @ exn_str e)\<rparr>"

definition failed_review_reason :: "RunArtifact \<Rightarrow> ReviewerOutput option \<Rightarrow> string" where
  "failed_review_reason art final_review =
     ''Failed review after '' @ str_int (int (length (attempts art))) @ '' attempts. ''
       @ ''Final issues: '' @ summarize_feedback final_review"

text \<open>The body of the \<open>try\<close> block.\<close>

definition run_body ::
  "'w Orchestrator \<Rightarrow> GeneratorInput \<Rightarrow> 'w pipeline_state \<Rightarrow> (exn + unit) \<times> 'w pipeline_state" where
  "run_body orch input_data s =
     (case generate_step orch input_data s of
        (Inl e, s1) \<Rightarrow> (Inl e, s1)
      | (Inr current, s1) \<Rightarrow>
          (case review_loop orch input_data 1 current s1 of
             (Inl e, s2) \<Rightarrow> (Inl e, s2)
           | (Inr (final_content, final_review), s2) \<Rightarrow>
               (case final_content of
                  Some c \<Rightarrow>
                    (case tag_step orch input_data c s2 of
                       (Inl e, s3) \<Rightarrow> (Inl e, s3)
                     | (Inr tg, s3) \<Rightarrow>
                         (Inr (),
                          set_final \<lparr>status = approved, content = Some c, tags = Some tg,
                                     rejection_reason = None\<rparr> s3))
                | None \<Rightarrow>
                    (Inr (),
                     set_final \<lparr>status = rejected, content = None, tags = None,
                                rejection_reason =
                                  Some (failed_review_reason (artifact s2) final_review)\<rparr> s2))))"

text \<open>The \<open>finally\<close> block: \<open>total_seconds()\<close> of the difference of two datetimes.\<close>

definition finalize :: "'w Orchestrator \<Rightarrow> 'w pipeline_state \<Rightarrow> 'w pipeline_state" where
  "finalize orch s =
     (case utcnow orch (world s) of
        (t, w) \<Rightarrow>
          s\<lparr>world := w,
            artifact := (artifact s)\<lparr>timestamps := (timestamps (artifact s))
              \<lparr>finished_at := Some t,
               duration_seconds :=
                 Some (of_int (t - started_at (timestamps (artifact s))) / 1000000)\<rparr>\<rparr>\<rparr>)"

text \<open>
  The state in which the \<open>try\<close> block is entered: \<open>RunArtifact(...)\<close> reads
  the clock for \<open>started_at\<close> while its arguments are evaluated, then draws the
  \<open>run_id\<close>.
\<close>

definition initial_state ::
  "'w Orchestrator \<Rightarrow> GeneratorInput \<Rightarrow> string option \<Rightarrow> 'w \<Rightarrow> 'w pipeline_state" where
  "initial_state orch input_data uid w =
     (case utcnow orch w of
        (t0, w1) \<Rightarrow>
          (case uuid4 orch w1 of
             (rid, w2) \<Rightarrow>
               \<lparr>artifact =
                  \<lparr>run_id = rid, user_id = uid, input = input_data, attempts = [],
                   final = None,
                   timestamps = \<lparr>started_at = t0, finished_at = None,
                                  duration_seconds = None\<rparr>,
                   metadata = []\<rparr>,
                world = w2, calls = []\<rparr>))"

text \<open>
  \<open>Orchestrator.run\<close>: the \<open>try\<close> block, its two \<open>except\<close> clauses and the
  \<open>finally\<close> block.  The returned state holds the artifact \<open>run\<close> returns, the
  world after the run and the calls made.
\<close>

definition run ::
  "'w Orchestrator \<Rightarrow> GeneratorInput \<Rightarrow> string option \<Rightarrow> 'w \<Rightarrow> 'w pipeline_state" where
  "run orch input_data uid w =
     (case run_body orch input_data (initial_state orch input_data uid w) of
        (Inl e, s) \<Rightarrow> finalize orch (set_final (handle_exn e) s)
      | (Inr u, s) \<Rightarrow> finalize orch s)"

section \<open>The stage agent (agents/base.py)\<close>

text \<open>
  An agent is its name, its model identifier, its two prompt builders, its client and its
  output schema.  \<open>create\<close> is \<open>client.chat.completions.create(...)\<close> followed by
  \<open>response.choices[0].message.content\<close> (a string, or \<open>None\<close>): both sit in the
  same \<open>try\<close>.  \<open>json_loads\<close> and \<open>output_schema\<close> are \<open>json.loads\<close> and
  the pydantic constructor \<open>self.output_schema(**parsed)\<close>; each returns a value or
  the exception it raises.  A prompt builder can raise as well (a \<open>dict\<close> lookup on an
  argument).
\<close>

record ('i, 'j, 'o, 'w) BaseAgent =
  name :: string
  model_name :: string
  build_system_prompt :: string
  build_user_prompt :: "'i \<Rightarrow> exn + string"
  create :: "string \<Rightarrow> string \<Rightarrow> string \<Rightarrow> 'w \<Rightarrow> (exn + string option) \<times> 'w"
  json_loads :: "string \<Rightarrow> exn + 'j"
  output_schema :: "'j \<Rightarrow> exn + 'o"

text \<open>\<open>_call_llm\<close>: every exception of the call becomes a recoverable \<open>AgentError\<close>.\<close>

definition call_llm ::
  "('i, 'j, 'o, 'w, 'z) BaseAgent_scheme \<Rightarrow> string \<Rightarrow> string \<Rightarrow> 'w
     \<Rightarrow> (exn + string option) \<times> 'w" where
  "call_llm agent system_prompt user_prompt w =
     (case create agent (model_name agent) system_prompt user_prompt w of
        (Inl e, w') \<Rightarrow> (Inl (AgentError (''LLM call failed: '' @ exn_str e) (name agent) True), w')
      | (Inr raw_response, w') \<Rightarrow> (Inr raw_response, w'))"

text \<open>
  The two \<open>except\<close> clauses of \<open>_parse_and_validate\<close> select by class; any other
  exception passes through unchanged.
\<close>

fun parse_error :: "string \<Rightarrow> exn \<Rightarrow> exn" where
  "parse_error agent_name (JSONDecodeError m) =
     AgentError (''Invalid JSON response: '' @ m) agent_name True"
| "parse_error agent_name (ValidationError m) =
     AgentError (''Schema validation failed: '' @ m) agent_name True"
| "parse_error agent_name e = e"

text \<open>
  \<open>_parse_and_validate\<close>.  \<open>json.loads(None)\<close> raises a \<open>TypeError\<close>, which
  neither clause catches.
\<close>

definition parse_and_validate ::
  "('i, 'j, 'o, 'w, 'z) BaseAgent_scheme \<Rightarrow> string option \<Rightarrow> exn + 'o" where
  "parse_and_validate agent raw_response =
     (case raw_response of
        None \<Rightarrow> Inl (OtherError ''the JSON object must be str, bytes or bytearray, not NoneType'')
      | Some raw \<Rightarrow>
          (case json_loads agent raw of
             Inl e \<Rightarrow> Inl (parse_error (name agent) e)
           | Inr parsed \<Rightarrow>
               (case output_schema agent parsed of
                  Inl e \<Rightarrow> Inl (parse_error (name agent) e)
                | Inr result \<Rightarrow> Inr result)))"

text \<open>The body of the \<open>try\<close> in \<open>run\<close>: one attempt.\<close>

definition attempt_once ::
  "('i, 'j, 'o, 'w, 'z) BaseAgent_scheme \<Rightarrow> string \<Rightarrow> string \<Rightarrow> 'w \<Rightarrow> (exn + 'o) \<times> 'w" where
  "attempt_once agent system_prompt user_prompt w =
     (case call_llm agent system_prompt user_prompt w of
        (Inl e, w') \<Rightarrow> (Inl e, w')
      | (Inr raw_response, w') \<Rightarrow> (parse_and_validate agent raw_response, w'))"

text \<open>
  The \<open>raise\<close> after the loop.  \<open>last_error\<close> is still \<open>None\<close> when the loop body
  never ran, and \<open>None.message\<close> is an \<open>AttributeError\<close>.
\<close>

fun exn_message :: "exn \<Rightarrow> string" where
  "exn_message (AgentError message agent_name recoverable) = message"
| "exn_message e = exn_str e"

definition retries_exhausted ::
  "('i, 'j, 'o, 'w, 'z) BaseAgent_scheme \<Rightarrow> int \<Rightarrow> exn option \<Rightarrow> exn" where
  "retries_exhausted agent max_retries last_error =
     (case last_error of
        None \<Rightarrow> OtherError ([CHR 0x27] @ ''NoneType'' @ [CHR 0x27]
                   @ '' object has no attribute '' @ [CHR 0x27] @ ''message'' @ [CHR 0x27])
      | Some e \<Rightarrow>
          AgentError (''Failed after '' @ str_int (max_retries + 1) @ '' attempts. Last error: ''
                        @ exn_message e)
            (name agent) False)"

text \<open>
  \<open>for attempt in range(max_retries + 1)\<close>, from loop index \<open>k\<close> on.  Only an
  \<open>AgentError\<close> is caught; it ends the loop when it is not recoverable or the index has
  reached \<open>max_retries\<close>.
\<close>

function run_attempts ::
  "('i, 'j, 'o, 'w, 'z) BaseAgent_scheme \<Rightarrow> string \<Rightarrow> string \<Rightarrow> int \<Rightarrow> int \<Rightarrow> exn option
     \<Rightarrow> 'w \<Rightarrow> (exn + 'o) \<times> 'w" where
  "run_attempts agent system_prompt user_prompt max_retries k last_error w =
     (if k < max_retries + 1 then
        (case attempt_once agent system_prompt user_prompt w of
           (Inr result, w') \<Rightarrow> (Inr result, w')
         | (Inl e, w') \<Rightarrow>
             (case e of
                AgentError message agent_name recoverable \<Rightarrow>
                  if \<not> recoverable \<or> k \<ge> max_retries
                  then (Inl (retries_exhausted agent max_retries (Some e)), w')
                  else run_attempts agent system_prompt user_prompt max_retries (k + 1) (Some e) w'
              | _ \<Rightarrow> (Inl e, w')))
      else (Inl (retries_exhausted agent max_retries last_error), w))"
  by pat_completeness auto
termination
  by (relation "measure (\<lambda>(agent, system_prompt, user_prompt, max_retries, k, last_error, w).
        nat (max_retries + 1 - k))") auto

declare run_attempts.simps [simp del]

text \<open>\<open>BaseAgent.run\<close>.\<close>

definition BaseAgent_run ::
  "('i, 'j, 'o, 'w, 'z) BaseAgent_scheme \<Rightarrow> 'i \<Rightarrow> int \<Rightarrow> 'w \<Rightarrow> (exn + 'o) \<times> 'w" where
  "BaseAgent_run agent input_data max_retries w =
     (case build_user_prompt agent input_data of
        Inl e \<Rightarrow> (Inl e, w)
      | Inr user_prompt \<Rightarrow>
          run_attempts agent (build_system_prompt agent) user_prompt max_retries 0 None w)"

text \<open>
  The world after the first \<open>k\<close> attempts of a run, and the outcome the attempt with
  loop index \<open>k\<close> has when it is made.
\<close>

fun world_after ::
  "('i, 'j, 'o, 'w, 'z) BaseAgent_scheme \<Rightarrow> string \<Rightarrow> string \<Rightarrow> nat \<Rightarrow> 'w \<Rightarrow> 'w" where
  "world_after agent system_prompt user_prompt 0 w = w"
| "world_after agent system_prompt user_prompt (Suc k) w =
     world_after agent system_prompt user_prompt k
       (snd (attempt_once agent system_prompt user_prompt w))"

definition outcome ::
  "('i, 'j, 'o, 'w, 'z) BaseAgent_scheme \<Rightarrow> string \<Rightarrow> string \<Rightarrow> nat \<Rightarrow> 'w \<Rightarrow> exn + 'o" where
  "outcome agent system_prompt user_prompt k w =
     fst (attempt_once agent system_prompt user_prompt
            (world_after agent system_prompt user_prompt k w))"

text \<open>A recoverable failure: the \<open>AgentError\<close> of this agent with \<open>recoverable=True\<close>.\<close>

fun recoverable_failure :: "string \<Rightarrow> exn + 'o \<Rightarrow> bool" where
  "recoverable_failure agent_name (Inl (AgentError message a recoverable)) =
     (a = agent_name \<and> recoverable)"
| "recoverable_failure agent_name r = False"

section \<open>The reviewer (agents/reviewer.py, config.py)\<close>

text \<open>
  \<open>PASS_THRESHOLDS\<close> is a \<open>dict\<close> read in insertion order by \<open>.items()\<close>: an
  association list.  A Python \<open>float\<close> that is a quotient of small integers is the
  rational it denotes.
\<close>

definition PASS_THRESHOLDS :: "(string \<times> int) list" where
  "PASS_THRESHOLDS =
     [(''age_appropriateness'', 4), (''correctness'', 5), (''clarity'', 4), (''coverage'', 3)]"

definition MIN_AVERAGE_SCORE :: rat where
  "MIN_AVERAGE_SCORE = 4"

definition MAX_GENERATION_RETRIES :: int where
  "MAX_GENERATION_RETRIES = 1"

definition MAX_REFINEMENT_ATTEMPTS :: int where
  "MAX_REFINEMENT_ATTEMPTS = 2"

text \<open>
  The reviewer is a stage agent with \<open>thresholds\<close> and \<open>min_average\<close>.
  \<open>float_repr\<close> is Python's rendering of a \<open>float\<close> in an f-string (\<open>4.0\<close> is
  rendered \<open>4.0\<close>), a function of the language the model takes as given.
\<close>

record ('i, 'j, 'o, 'w) ReviewerAgent = "('i, 'j, 'o, 'w) BaseAgent" +
  thresholds :: "(string \<times> int) list"
  min_average :: rat
  float_repr :: "rat \<Rightarrow> string"

text \<open>The \<open>dict\<close> the reviewer and the tagger build for \<open>BaseAgent.run\<close>.\<close>

record ContentRequest =
  request_grade :: int
  request_topic :: string
  request_content :: GeneratorOutput

text \<open>\<open>getattr(scores, criterion)\<close>: an unknown name raises \<open>AttributeError\<close>.\<close>

definition getattr_score :: "ReviewScore \<Rightarrow> string \<Rightarrow> exn + int" where
  "getattr_score sc criterion =
     (if criterion = ''age_appropriateness'' then Inr (age_appropriateness sc)
      else if criterion = ''correctness'' then Inr (correctness sc)
      else if criterion = ''clarity'' then Inr (clarity sc)
      else if criterion = ''coverage'' then Inr (coverage sc)
      else Inl (OtherError ([CHR 0x27] @ ''ReviewScore'' @ [CHR 0x27]
                  @ '' object has no attribute '' @ [CHR 0x27] @ criterion @ [CHR 0x27])))"

definition threshold_reason :: "string \<Rightarrow> int \<Rightarrow> int \<Rightarrow> string" where
  "threshold_reason criterion score threshold =
     criterion @ '' ('' @ str_int score @ '') below threshold ('' @ str_int threshold @ '')''"

text \<open>
  The loop over \<open>self.thresholds.items()\<close>, with its two variables \<open>should_pass\<close>
  and \<open>reasons\<close>.
\<close>

fun check_thresholds ::
  "ReviewScore \<Rightarrow> (string \<times> int) list \<Rightarrow> bool \<Rightarrow> string list \<Rightarrow> exn + bool \<times> string list" where
  "check_thresholds sc [] should_pass reasons = Inr (should_pass, reasons)"
| "check_thresholds sc ((criterion, threshold) # rest) should_pass reasons =
     (case getattr_score sc criterion of
        Inl e \<Rightarrow> Inl e
      | Inr score \<Rightarrow>
          if score < threshold
          then check_thresholds sc rest False
                 (reasons @ [threshold_reason criterion score threshold])
          else check_thresholds sc rest should_pass reasons)"

text \<open>
  \<open>f"{x:.1f}"\<close>: the decimal with one fractional digit nearest to the value, a tie
  going to the even digit.
\<close>

definition round_half_even :: "rat \<Rightarrow> int" where
  "round_half_even x =
     (let f = \<lfloor>x\<rfloor>; d = x - of_int f in
      if d < 1 / 2 then f else if 1 / 2 < d then f + 1 else if even f then f else f + 1)"

definition format_1f :: "rat \<Rightarrow> string" where
  "format_1f x =
     (let t = round_half_even (\<bar>x\<bar> * 10) in
      (if x < 0 then ''-'' else '''') @ str_int (t div 10) @ ''.'' @ str_int (t mod 10))"

definition avg_score :: "ReviewScore \<Rightarrow> rat" where
  "avg_score sc =
     of_int (age_appropriateness sc + correctness sc + clarity sc + coverage sc) / 4"

definition average_reason :: "('i, 'j, 'o, 'w, 'z) ReviewerAgent_scheme \<Rightarrow> rat \<Rightarrow> string" where
  "average_reason agent avg =
     ''Average score ('' @ format_1f avg @ '') below minimum (''
       @ float_repr agent (min_average agent) @ '')''"

text \<open>\<open>_validate_pass_decision\<close>.\<close>

definition validate_pass_decision ::
  "('i, 'j, 'o, 'w, 'z) ReviewerAgent_scheme \<Rightarrow> ReviewerOutput \<Rightarrow> exn + ReviewerOutput" where
  "validate_pass_decision agent result =
     (case check_thresholds (scores result) (thresholds agent) True [] of
        Inl e \<Rightarrow> Inl e
      | Inr (should_pass0, reasons0) \<Rightarrow>
          let avg = avg_score (scores result);
              should_pass = (if avg < min_average agent then False else should_pass0);
              reasons = (if avg < min_average agent
                         then reasons0 @ [average_reason agent avg] else reasons0)
          in if pass_decision result \<noteq> should_pass
             then Inr \<lparr>scores = scores result, pass_decision = should_pass,
                       feedback = feedback result,
                       summary = summary result @ '' [Auto-corrected: ''
                                   @ join ''; '' reasons @ '']''\<rparr>
             else Inr result)"

text \<open>\<open>ReviewerAgent.review\<close>: \<open>super().run(input_data, max_retries=1)\<close>, then the check.\<close>

definition ReviewerAgent_review ::
  "(ContentRequest, 'j, ReviewerOutput, 'w, 'z) ReviewerAgent_scheme \<Rightarrow> GeneratorInput
     \<Rightarrow> GeneratorOutput \<Rightarrow> 'w \<Rightarrow> (exn + ReviewerOutput) \<times> 'w" where
  "ReviewerAgent_review agent original c w =
     (case BaseAgent_run agent
             \<lparr>request_grade = grade original, request_topic = topic original,
              request_content = c\<rparr> 1 w of
        (Inl e, w') \<Rightarrow> (Inl e, w')
      | (Inr result, w') \<Rightarrow> (validate_pass_decision agent result, w'))"

section \<open>Reading the record of calls\<close>

text \<open>
  The outcomes of the reviewer calls, the inputs of the refiner calls, the tagger calls
  and the exceptions raised by collaborator calls, each in the order of the calls.
\<close>

fun reviews_of_call :: "call \<Rightarrow> (exn + ReviewerOutput) list" where
  "reviews_of_call (ReviewerReview i c r) = [r]"
| "reviews_of_call other = []"

definition review_results :: "call list \<Rightarrow> (exn + ReviewerOutput) list" where
  "review_results cs = concat (map reviews_of_call cs)"

fun refiner_inputs_of_call :: "call \<Rightarrow> RefinerInput list" where
  "refiner_inputs_of_call (RefinerRun ri r) = [ri]"
| "refiner_inputs_of_call other = []"

definition refiner_inputs :: "call list \<Rightarrow> RefinerInput list" where
  "refiner_inputs cs = concat (map refiner_inputs_of_call cs)"

fun tagger_calls_of_call ::
  "call \<Rightarrow> (GeneratorInput \<times> GeneratorOutput \<times> (exn + TaggerOutput)) list" where
  "tagger_calls_of_call (TaggerRun i c r) = [(i, c, r)]"
| "tagger_calls_of_call other = []"

definition tagger_calls ::
  "call list \<Rightarrow> (GeneratorInput \<times> GeneratorOutput \<times> (exn + TaggerOutput)) list" where
  "tagger_calls cs = concat (map tagger_calls_of_call cs)"

fun raised_of_result :: "exn + 'a \<Rightarrow> exn list" where
  "raised_of_result (Inl e) = [e]"
| "raised_of_result (Inr v) = []"

fun raised_of_call :: "call \<Rightarrow> exn list" where
  "raised_of_call (GeneratorRun i r) = raised_of_result r"
| "raised_of_call (ReviewerReview i c r) = raised_of_result r"
| "raised_of_call (RefinerRun ri r) = raised_of_result r"
| "raised_of_call (TaggerRun i c r) = raised_of_result r"

definition raised :: "call list \<Rightarrow> exn list" where
  "raised cs = concat (map raised_of_call cs)"

text \<open>A review that was returned and passes; a review that was returned and fails.\<close>

fun passing_review :: "exn + ReviewerOutput \<Rightarrow> bool" where
  "passing_review (Inr r) = pass_decision r"
| "passing_review (Inl e) = False"

fun failing_review :: "exn + ReviewerOutput \<Rightarrow> bool" where
  "failing_review (Inr r) = (\<not> pass_decision r)"
| "failing_review (Inl e) = False"

text \<open>
  Each record's refined draft is the draft of the record after it.
\<close>

fun chained :: "AttemptRecord list \<Rightarrow> bool" where
  "chained [] = True"
| "chained [a] = True"
| "chained (a # b # rest) = (refined a = Some (draft b) \<and> chained (b # rest))"

text \<open>
  What holds of the attempt records at every point of a run: a record has a refined draft
  exactly when its review failed and its attempt number is within the ceiling, the records
  are chained, and every refined draft is what the refiner returned for that record.
\<close>

definition attempts_inv ::
  "'w Orchestrator \<Rightarrow> GeneratorInput \<Rightarrow> AttemptRecord list \<Rightarrow> call list \<Rightarrow> bool" where
  "attempts_inv orch inp A cs =
     ((\<forall>a\<in>set A. (refined a \<noteq> None)
          = (\<not> pass_decision (review a) \<and> attempt a \<le> max_refinements orch))
      \<and> chained A
      \<and> (\<forall>a\<in>set A. \<forall>d. refined a = Some d \<longrightarrow>
            RefinerRun \<lparr>original_input = inp, current_content = draft a,
                        refiner_feedback = feedback (review a), attempt_number = attempt a\<rparr>
              (Inr d) \<in> set cs))"

section \<open>The artifact repository (storage/repository.py)\<close>

subsection \<open>JSON values and documents\<close>

text \<open>
  What \<open>json.loads\<close> returns: \<open>None\<close>, a \<open>bool\<close>, an \<open>int\<close>, a \<open>float\<close>
  (a rational here, as everywhere in this theory), a \<open>str\<close>, a \<open>list\<close> or a \<open>dict\<close>
  with string keys.  A \<open>dict\<close> is an association list with one entry per key.
\<close>

datatype json =
    JNull
  | JBool bool
  | JInt int
  | JFloat rat
  | JStr string
  | JArr "json list"
  | JObj "(string \<times> json) list"

type_synonym document = "(string \<times> json) list"

definition dict_get :: "document \<Rightarrow> string \<Rightarrow> json option" where
  "dict_get d k = map_of d k"

text \<open>\<open>d[k] = v\<close>: an existing key keeps its place, a new key goes last.\<close>

fun dict_set :: "string \<Rightarrow> json \<Rightarrow> document \<Rightarrow> document" where
  "dict_set k v [] = [(k, v)]"
| "dict_set k v (e # d) = (if fst e = k then (k, v) # d else e # dict_set k v d)"

text \<open>\<open>d.update(other)\<close>.\<close>

definition dict_update :: "document \<Rightarrow> document \<Rightarrow> document" where
  "dict_update d other = foldl (\<lambda>acc e. dict_set (fst e) (snd e) acc) d other"

subsection \<open>The TinyDB table\<close>

text \<open>
  The table \<open>artifacts\<close> is the list of its documents in the order of their document
  ids, which is the order \<open>search\<close> returns them in.  \<open>Query().run_id == v\<close> holds of a
  document that has the key \<open>run_id\<close> with a value equal to \<open>v\<close>. \<open>update(fields, cond)\<close>
  calls \<open>doc.update(fields)\<close> on every document that satisfies \<open>cond\<close>, and
  \<open>insert\<close> gives the new document the next id.
\<close>

record ArtifactRepository =
  artifacts :: "document list"

definition run_id_is :: "string \<Rightarrow> document \<Rightarrow> bool" where
  "run_id_is v d = (dict_get d ''run_id'' = Some (JStr v))"

definition table_search :: "(document \<Rightarrow> bool) \<Rightarrow> document list \<Rightarrow> document list" where
  "table_search cond table = filter cond table"

definition table_update ::
  "document \<Rightarrow> (document \<Rightarrow> bool) \<Rightarrow> document list \<Rightarrow> document list" where
  "table_update other cond table =
     map (\<lambda>d. if cond d then dict_update d other else d) table"

definition table_insert :: "document \<Rightarrow> document list \<Rightarrow> document list" where
  "table_insert d table = table @ [d]"

subsection \<open>Serialization: \<open>json.loads(artifact.model_dump_json())\<close>\<close>

text \<open>
  The two library functions that turn a \<open>datetime\<close> into its ISO 8601 text and back are
  parameters, together with the two default factories of the models (\<open>datetime.utcnow\<close>
  for \<open>AttemptRecord.timestamp\<close>, \<open>uuid.uuid4\<close> for \<open>RunArtifact.run_id\<close>), here
  with the value each would return.
\<close>

record pydantic_env =
  isoformat :: "datetime \<Rightarrow> string"
  fromisoformat :: "string \<Rightarrow> datetime option"
  default_timestamp :: datetime
  default_run_id :: string

text \<open>
  A model is dumped field by field under the field's name (\<open>by_alias\<close> is off, so
  \<open>pass_decision\<close> and not \<open>pass\<close>), \<open>None\<close> as \<open>null\<close>, an \<open>Enum\<close> or
  \<open>Literal\<close> as its string value.
\<close>

definition dump_optional :: "('a \<Rightarrow> json) \<Rightarrow> 'a option \<Rightarrow> json" where
  "dump_optional f x = (case x of None \<Rightarrow> JNull | Some v \<Rightarrow> f v)"

definition dump_GeneratorInput :: "GeneratorInput \<Rightarrow> json" where
  "dump_GeneratorInput x = JObj [(''grade'', JInt (grade x)), (''topic'', JStr (topic x))]"

definition dump_Explanation :: "Explanation \<Rightarrow> json" where
  "dump_Explanation x =
     JObj [(''text'', JStr (explanation_text x)), (''grade'', JInt (explanation_grade x))]"

definition dump_MCQ :: "MCQ \<Rightarrow> json" where
  "dump_MCQ x =
     JObj [(''question'', JStr (question x)), (''options'', JArr (map JStr (options x))),
           (''correct_index'', JInt (correct_index x))]"

definition dump_TeacherNotes :: "TeacherNotes \<Rightarrow> json" where
  "dump_TeacherNotes x =
     JObj [(''learning_objective'', JStr (learning_objective x)),
           (''common_misconceptions'', JArr (map JStr (common_misconceptions x)))]"

definition dump_GeneratorOutput :: "GeneratorOutput \<Rightarrow> json" where
  "dump_GeneratorOutput x =
     JObj [(''explanation'', dump_Explanation (explanation x)),
           (''mcqs'', JArr (map dump_MCQ (mcqs x))),
           (''teacher_notes'', dump_TeacherNotes (teacher_notes x))]"

definition dump_ReviewScore :: "ReviewScore \<Rightarrow> json" where
  "dump_ReviewScore x =
     JObj [(''age_appropriateness'', JInt (age_appropriateness x)),
           (''correctness'', JInt (correctness x)),
           (''clarity'', JInt (clarity x)),
           (''coverage'', JInt (coverage x))]"

fun severity_value :: "severity \<Rightarrow> string" where
  "severity_value critical = ''critical''"
| "severity_value major = ''major''"
| "severity_value minor = ''minor''"

definition dump_ReviewFeedback :: "ReviewFeedback \<Rightarrow> json" where
  "dump_ReviewFeedback x =
     JObj [(''field'', JStr (field x)), (''issue'', JStr (issue x)),
           (''severity'', JStr (severity_value (severity x))),
           (''suggestion'', dump_optional JStr (suggestion x))]"

definition dump_ReviewerOutput :: "ReviewerOutput \<Rightarrow> json" where
  "dump_ReviewerOutput x =
     JObj [(''scores'', dump_ReviewScore (scores x)),
           (''pass_decision'', JBool (pass_decision x)),
           (''feedback'', JArr (map dump_ReviewFeedback (feedback x))),
           (''summary'', JStr (summary x))]"

fun DifficultyLevel_value :: "DifficultyLevel \<Rightarrow> string" where
  "DifficultyLevel_value EASY = ''Easy''"
| "DifficultyLevel_value MEDIUM = ''Medium''"
| "DifficultyLevel_value HARD = ''Hard''"

fun BloomsLevel_value :: "BloomsLevel \<Rightarrow> string" where
  "BloomsLevel_value REMEMBERING = ''Remembering''"
| "BloomsLevel_value UNDERSTANDING = ''Understanding''"
| "BloomsLevel_value APPLYING = ''Applying''"
| "BloomsLevel_value ANALYZING = ''Analyzing''"
| "BloomsLevel_value EVALUATING = ''Evaluating''"
| "BloomsLevel_value CREATING = ''Creating''"

fun ContentType_value :: "ContentType \<Rightarrow> string" where
  "ContentType_value EXPLANATION = ''Explanation''"
| "ContentType_value QUIZ = ''Quiz''"
| "ContentType_value EXERCISE = ''Exercise''"
| "ContentType_value EXAMPLE = ''Example''"

definition dump_TaggerOutput :: "TaggerOutput \<Rightarrow> json" where
  "dump_TaggerOutput x =
     JObj [(''subject'', JStr (subject x)), (''topic'', JStr (tag_topic x)),
           (''grade'', JInt (tag_grade x)),
           (''difficulty'', JStr (DifficultyLevel_value (difficulty x))),
           (''content_type'', JArr (map (\<lambda>c. JStr (ContentType_value c)) (content_type x))),
           (''blooms_level'', JStr (BloomsLevel_value (blooms_level x))),
           (''keywords'', JArr (map JStr (tag_keywords x)))]"

definition dump_datetime :: "pydantic_env \<Rightarrow> datetime \<Rightarrow> json" where
  "dump_datetime env t = JStr (isoformat env t)"

definition dump_AttemptRecord :: "pydantic_env \<Rightarrow> AttemptRecord \<Rightarrow> json" where
  "dump_AttemptRecord env x =
     JObj [(''attempt'', JInt (attempt x)),
           (''draft'', dump_GeneratorOutput (draft x)),
           (''review'', dump_ReviewerOutput (review x)),
           (''refined'', dump_optional dump_GeneratorOutput (refined x)),
           (''timestamp'', dump_datetime env (timestamp x))]"

fun status_value :: "status \<Rightarrow> string" where
  "status_value approved = ''approved''"
| "status_value rejected = ''rejected''"

definition dump_FinalResult :: "FinalResult \<Rightarrow> json" where
  "dump_FinalResult x =
     JObj [(''status'', JStr (status_value (status x))),
           (''content'', dump_optional dump_GeneratorOutput (content x)),
           (''tags'', dump_optional dump_TaggerOutput (tags x)),
           (''rejection_reason'', dump_optional JStr (rejection_reason x))]"

definition dump_Timestamps :: "pydantic_env \<Rightarrow> Timestamps \<Rightarrow> json" where
  "dump_Timestamps env x =
     JObj [(''started_at'', dump_datetime env (started_at x)),
           (''finished_at'', dump_optional (dump_datetime env) (finished_at x)),
           (''duration_seconds'', dump_optional JFloat (duration_seconds x))]"

definition dump_metadata :: "(string \<times> string) list \<Rightarrow> json" where
  "dump_metadata m = JObj (map (\<lambda>e. (fst e, JStr (snd e))) m)"

definition model_dump :: "pydantic_env \<Rightarrow> RunArtifact \<Rightarrow> document" where
  "model_dump env x =
     [(''run_id'', JStr (run_id x)),
      (''user_id'', dump_optional JStr (user_id x)),
      (''input'', dump_GeneratorInput (input x)),
      (''attempts'', JArr (map (dump_AttemptRecord env) (attempts x))),
      (''final'', dump_optional dump_FinalResult (final x)),
      (''timestamps'', dump_Timestamps env (timestamps x)),
      (''metadata'', dump_metadata (metadata x))]"

subsection \<open>Validation: \<open>RunArtifact(**doc)\<close>\<close>

text \<open>
  The constraints each model declares on its own fields (\<open>ge\<close>, \<open>le\<close>,
  \<open>min_length\<close>, \<open>max_length\<close> and the validator of \<open>MCQ.options\<close>), and
  \<open>valid_\<close>: an object all of whose parts meet them, which is what a constructor returns.
  \<open>s.strip()\<close> is empty when every character of \<open>s\<close> is white space.
\<close>

definition is_space :: "char \<Rightarrow> bool" where
  "is_space c = (of_char c \<in> set [9, 10, 11, 12, 13, 28, 29, 30, 31, 32, 133, 160 :: nat])"

definition in_range :: "int \<Rightarrow> int \<Rightarrow> int \<Rightarrow> bool" where
  "in_range lo hi n = (lo \<le> n \<and> n \<le> hi)"

definition GeneratorInput_constraints :: "GeneratorInput \<Rightarrow> bool" where
  "GeneratorInput_constraints x =
     (in_range 1 12 (grade x) \<and> 3 \<le> length (topic x) \<and> length (topic x) \<le> 200)"

definition Explanation_constraints :: "Explanation \<Rightarrow> bool" where
  "Explanation_constraints x =
     (50 \<le> length (explanation_text x) \<and> in_range 1 12 (explanation_grade x))"

definition validate_options :: "string list \<Rightarrow> bool" where
  "validate_options v = (length v = 4 \<and> \<not> list_ex (\<lambda>opt. list_all is_space opt) v)"

definition MCQ_constraints :: "MCQ \<Rightarrow> bool" where
  "MCQ_constraints x =
     (10 \<le> length (question x) \<and> 4 \<le> length (options x) \<and> length (options x) \<le> 4
      \<and> validate_options (options x) \<and> in_range 0 3 (correct_index x))"

definition TeacherNotes_constraints :: "TeacherNotes \<Rightarrow> bool" where
  "TeacherNotes_constraints x =
     (20 \<le> length (learning_objective x) \<and> 1 \<le> length (common_misconceptions x))"

definition GeneratorOutput_constraints :: "GeneratorOutput \<Rightarrow> bool" where
  "GeneratorOutput_constraints x = (3 \<le> length (mcqs x) \<and> length (mcqs x) \<le> 5)"

definition ReviewScore_constraints :: "ReviewScore \<Rightarrow> bool" where
  "ReviewScore_constraints x =
     (in_range 1 5 (age_appropriateness x) \<and> in_range 1 5 (correctness x)
      \<and> in_range 1 5 (clarity x) \<and> in_range 1 5 (coverage x))"

definition TaggerOutput_constraints :: "TaggerOutput \<Rightarrow> bool" where
  "TaggerOutput_constraints x = (in_range 1 12 (tag_grade x) \<and> 1 \<le> length (content_type x))"

definition AttemptRecord_constraints :: "AttemptRecord \<Rightarrow> bool" where
  "AttemptRecord_constraints x = (1 \<le> attempt x)"

definition valid_GeneratorOutput :: "GeneratorOutput \<Rightarrow> bool" where
  "valid_GeneratorOutput x =
     (Explanation_constraints (explanation x) \<and> list_all MCQ_constraints (mcqs x)
      \<and> TeacherNotes_constraints (teacher_notes x) \<and> GeneratorOutput_constraints x)"

definition valid_ReviewerOutput :: "ReviewerOutput \<Rightarrow> bool" where
  "valid_ReviewerOutput x = ReviewScore_constraints (scores x)"

definition valid_optional :: "('a \<Rightarrow> bool) \<Rightarrow> 'a option \<Rightarrow> bool" where
  "valid_optional p x = (case x of None \<Rightarrow> True | Some v \<Rightarrow> p v)"

definition valid_AttemptRecord :: "AttemptRecord \<Rightarrow> bool" where
  "valid_AttemptRecord x =
     (AttemptRecord_constraints x \<and> valid_GeneratorOutput (draft x)
      \<and> valid_ReviewerOutput (review x) \<and> valid_optional valid_GeneratorOutput (refined x))"

definition valid_FinalResult :: "FinalResult \<Rightarrow> bool" where
  "valid_FinalResult x =
     (valid_optional valid_GeneratorOutput (content x)
      \<and> valid_optional TaggerOutput_constraints (tags x))"

definition valid_RunArtifact :: "RunArtifact \<Rightarrow> bool" where
  "valid_RunArtifact x =
     (GeneratorInput_constraints (input x) \<and> list_all valid_AttemptRecord (attempts x)
      \<and> valid_optional valid_FinalResult (final x))"

text \<open>
  Validation reads a document field by field.  A value of the wrong JSON type, a missing
  required field and a violated constraint raise \<open>ValidationError\<close>; of its message only
  the name of the model or field at fault is kept.  Keys that name no field are ignored.
  The coercions of pydantic's lax mode that a dumped document never needs (a digit string
  for an \<open>int\<close>, a number for a \<open>datetime\<close>) are rejected here; an \<open>int\<close> is accepted
  for a \<open>float\<close>.
\<close>

definition and_then :: "exn + 'a \<Rightarrow> ('a \<Rightarrow> exn + 'b) \<Rightarrow> exn + 'b" where
  "and_then m f = (case m of Inl e \<Rightarrow> Inl e | Inr x \<Rightarrow> f x)"

definition invalid :: "string \<Rightarrow> exn + 'a" where
  "invalid what = Inl (ValidationError what)"

definition constrained :: "('a \<Rightarrow> bool) \<Rightarrow> string \<Rightarrow> 'a \<Rightarrow> exn + 'a" where
  "constrained p what x = (if p x then Inr x else invalid what)"

definition as_str :: "json \<Rightarrow> exn + string" where
  "as_str j = (case j of JStr s \<Rightarrow> Inr s | _ \<Rightarrow> invalid ''string_type'')"

definition as_int :: "json \<Rightarrow> exn + int" where
  "as_int j = (case j of JInt i \<Rightarrow> Inr i | _ \<Rightarrow> invalid ''int_type'')"

definition as_bool :: "json \<Rightarrow> exn + bool" where
  "as_bool j = (case j of JBool b \<Rightarrow> Inr b | _ \<Rightarrow> invalid ''bool_type'')"

definition as_float :: "json \<Rightarrow> exn + rat" where
  "as_float j = (case j of JFloat r \<Rightarrow> Inr r | JInt i \<Rightarrow> Inr (of_int i)
                 | _ \<Rightarrow> invalid ''float_type'')"

definition as_dict :: "json \<Rightarrow> exn + document" where
  "as_dict j = (case j of JObj d \<Rightarrow> Inr d | _ \<Rightarrow> invalid ''model_type'')"

definition as_datetime :: "pydantic_env \<Rightarrow> json \<Rightarrow> exn + datetime" where
  "as_datetime env j =
     (case j of
        JStr s \<Rightarrow> (case fromisoformat env s of Some t \<Rightarrow> Inr t
                   | None \<Rightarrow> invalid ''datetime_from_date_parsing'')
      | _ \<Rightarrow> invalid ''datetime_type'')"

definition as_enum :: "(string \<times> 'a) list \<Rightarrow> json \<Rightarrow> exn + 'a" where
  "as_enum values j =
     (case j of
        JStr s \<Rightarrow> (case map_of values s of Some v \<Rightarrow> Inr v | None \<Rightarrow> invalid ''enum'')
      | _ \<Rightarrow> invalid ''enum'')"

fun each :: "('a \<Rightarrow> exn + 'b) \<Rightarrow> 'a list \<Rightarrow> exn + 'b list" where
  "each f [] = Inr []"
| "each f (x # xs) = and_then (f x) (\<lambda>y. and_then (each f xs) (\<lambda>ys. Inr (y # ys)))"

definition as_list :: "(json \<Rightarrow> exn + 'a) \<Rightarrow> json \<Rightarrow> exn + 'a list" where
  "as_list f j = (case j of JArr xs \<Rightarrow> each f xs | _ \<Rightarrow> invalid ''list_type'')"

definition nullable :: "(json \<Rightarrow> exn + 'a) \<Rightarrow> json \<Rightarrow> exn + 'a option" where
  "nullable f j = (case j of JNull \<Rightarrow> Inr None | _ \<Rightarrow> and_then (f j) (\<lambda>v. Inr (Some v)))"

text \<open>A field declared with \<open>...\<close> is required; one with a default takes it when absent.\<close>

definition required :: "document \<Rightarrow> string \<Rightarrow> (json \<Rightarrow> exn + 'a) \<Rightarrow> exn + 'a" where
  "required d k f = (case dict_get d k of None \<Rightarrow> invalid (''missing: '' @ k) | Some j \<Rightarrow> f j)"

definition defaulted :: "document \<Rightarrow> string \<Rightarrow> 'a \<Rightarrow> (json \<Rightarrow> exn + 'a) \<Rightarrow> exn + 'a" where
  "defaulted d k v f = (case dict_get d k of None \<Rightarrow> Inr v | Some j \<Rightarrow> f j)"

definition load_GeneratorInput :: "json \<Rightarrow> exn + GeneratorInput" where
  "load_GeneratorInput j =
     and_then (as_dict j) (\<lambda>d.
     and_then (required d ''grade'' as_int) (\<lambda>g.
     and_then (required d ''topic'' as_str) (\<lambda>t.
     constrained GeneratorInput_constraints ''GeneratorInput'' \<lparr>grade = g, topic = t\<rparr>)))"

definition load_Explanation :: "json \<Rightarrow> exn + Explanation" where
  "load_Explanation j =
     and_then (as_dict j) (\<lambda>d.
     and_then (required d ''text'' as_str) (\<lambda>t.
     and_then (required d ''grade'' as_int) (\<lambda>g.
     constrained Explanation_constraints ''Explanation''
       \<lparr>explanation_text = t, explanation_grade = g\<rparr>)))"

definition load_MCQ :: "json \<Rightarrow> exn + MCQ" where
  "load_MCQ j =
     and_then (as_dict j) (\<lambda>d.
     and_then (required d ''question'' as_str) (\<lambda>q.
     and_then (required d ''options'' (as_list as_str)) (\<lambda>os.
     and_then (required d ''correct_index'' as_int) (\<lambda>i.
     constrained MCQ_constraints ''MCQ''
       \<lparr>question = q, options = os, correct_index = i\<rparr>))))"

definition load_TeacherNotes :: "json \<Rightarrow> exn + TeacherNotes" where
  "load_TeacherNotes j =
     and_then (as_dict j) (\<lambda>d.
     and_then (required d ''learning_objective'' as_str) (\<lambda>l.
     and_then (required d ''common_misconceptions'' (as_list as_str)) (\<lambda>ms.
     constrained TeacherNotes_constraints ''TeacherNotes''
       \<lparr>learning_objective = l, common_misconceptions = ms\<rparr>)))"

definition load_GeneratorOutput :: "json \<Rightarrow> exn + GeneratorOutput" where
  "load_GeneratorOutput j =
     and_then (as_dict j) (\<lambda>d.
     and_then (required d ''explanation'' load_Explanation) (\<lambda>e.
     and_then (required d ''mcqs'' (as_list load_MCQ)) (\<lambda>qs.
     and_then (required d ''teacher_notes'' load_TeacherNotes) (\<lambda>n.
     constrained GeneratorOutput_constraints ''GeneratorOutput''
       \<lparr>explanation = e, mcqs = qs, teacher_notes = n\<rparr>))))"

definition load_ReviewScore :: "json \<Rightarrow> exn + ReviewScore" where
  "load_ReviewScore j =
     and_then (as_dict j) (\<lambda>d.
     and_then (required d ''age_appropriateness'' as_int) (\<lambda>a.
     and_then (required d ''correctness'' as_int) (\<lambda>c.
     and_then (required d ''clarity'' as_int) (\<lambda>l.
     and_then (required d ''coverage'' as_int) (\<lambda>v.
     constrained ReviewScore_constraints ''ReviewScore''
       \<lparr>age_appropriateness = a, correctness = c, clarity = l, coverage = v\<rparr>)))))"

definition load_ReviewFeedback :: "json \<Rightarrow> exn + ReviewFeedback" where
  "load_ReviewFeedback j =
     and_then (as_dict j) (\<lambda>d.
     and_then (required d ''field'' as_str) (\<lambda>f.
     and_then (required d ''issue'' as_str) (\<lambda>i.
     and_then (defaulted d ''severity'' major
        (as_enum [(''critical'', critical), (''major'', major), (''minor'', minor)])) (\<lambda>s.
     and_then (defaulted d ''suggestion'' None (nullable as_str)) (\<lambda>g.
     Inr \<lparr>field = f, issue = i, severity = s, suggestion = g\<rparr>)))))"

text \<open>
  \<open>pass_decision\<close> has the alias \<open>pass\<close> and the model sets \<open>populate_by_name\<close>: the
  alias is looked up first, then the name.
\<close>

definition load_ReviewerOutput :: "json \<Rightarrow> exn + ReviewerOutput" where
  "load_ReviewerOutput j =
     and_then (as_dict j) (\<lambda>d.
     and_then (required d ''scores'' load_ReviewScore) (\<lambda>s.
     and_then (case dict_get d ''pass'' of Some p \<Rightarrow> as_bool p
               | None \<Rightarrow> required d ''pass_decision'' as_bool) (\<lambda>p.
     and_then (defaulted d ''feedback'' [] (as_list load_ReviewFeedback)) (\<lambda>f.
     and_then (required d ''summary'' as_str) (\<lambda>m.
     Inr \<lparr>scores = s, pass_decision = p, feedback = f, summary = m\<rparr>)))))"

definition load_TaggerOutput :: "json \<Rightarrow> exn + TaggerOutput" where
  "load_TaggerOutput j =
     and_then (as_dict j) (\<lambda>d.
     and_then (required d ''subject'' as_str) (\<lambda>s.
     and_then (required d ''topic'' as_str) (\<lambda>t.
     and_then (required d ''grade'' as_int) (\<lambda>g.
     and_then (required d ''difficulty''
        (as_enum [(''Easy'', EASY), (''Medium'', MEDIUM), (''Hard'', HARD)])) (\<lambda>f.
     and_then (required d ''content_type''
        (as_list (as_enum [(''Explanation'', EXPLANATION), (''Quiz'', QUIZ),
                           (''Exercise'', EXERCISE), (''Example'', EXAMPLE)]))) (\<lambda>c.
     and_then (required d ''blooms_level''
        (as_enum [(''Remembering'', REMEMBERING), (''Understanding'', UNDERSTANDING),
                  (''Applying'', APPLYING), (''Analyzing'', ANALYZING),
                  (''Evaluating'', EVALUATING), (''Creating'', CREATING)])) (\<lambda>b.
     and_then (defaulted d ''keywords'' [] (as_list as_str)) (\<lambda>k.
     constrained TaggerOutput_constraints ''TaggerOutput''
       \<lparr>subject = s, tag_topic = t, tag_grade = g, difficulty = f, content_type = c,
        blooms_level = b, tag_keywords = k\<rparr>))))))))"

definition load_AttemptRecord :: "pydantic_env \<Rightarrow> json \<Rightarrow> exn + AttemptRecord" where
  "load_AttemptRecord env j =
     and_then (as_dict j) (\<lambda>d.
     and_then (required d ''attempt'' as_int) (\<lambda>a.
     and_then (required d ''draft'' load_GeneratorOutput) (\<lambda>c.
     and_then (required d ''review'' load_ReviewerOutput) (\<lambda>r.
     and_then (defaulted d ''refined'' None (nullable load_GeneratorOutput)) (\<lambda>f.
     and_then (defaulted d ''timestamp'' (default_timestamp env) (as_datetime env)) (\<lambda>t.
     constrained AttemptRecord_constraints ''AttemptRecord''
       \<lparr>attempt = a, draft = c, review = r, refined = f, timestamp = t\<rparr>))))))"

definition load_FinalResult :: "json \<Rightarrow> exn + FinalResult" where
  "load_FinalResult j =
     and_then (as_dict j) (\<lambda>d.
     and_then (required d ''status''
        (as_enum [(''approved'', approved), (''rejected'', rejected)])) (\<lambda>s.
     and_then (defaulted d ''content'' None (nullable load_GeneratorOutput)) (\<lambda>c.
     and_then (defaulted d ''tags'' None (nullable load_TaggerOutput)) (\<lambda>t.
     and_then (defaulted d ''rejection_reason'' None (nullable as_str)) (\<lambda>r.
     Inr \<lparr>status = s, content = c, tags = t, rejection_reason = r\<rparr>)))))"

definition load_Timestamps :: "pydantic_env \<Rightarrow> json \<Rightarrow> exn + Timestamps" where
  "load_Timestamps env j =
     and_then (as_dict j) (\<lambda>d.
     and_then (required d ''started_at'' (as_datetime env)) (\<lambda>s.
     and_then (defaulted d ''finished_at'' None (nullable (as_datetime env))) (\<lambda>f.
     and_then (defaulted d ''duration_seconds'' None (nullable as_float)) (\<lambda>u.
     Inr \<lparr>started_at = s, finished_at = f, duration_seconds = u\<rparr>))))"

definition load_metadata :: "json \<Rightarrow> exn + (string \<times> string) list" where
  "load_metadata j =
     and_then (as_dict j)
       (each (\<lambda>e. and_then (as_str (snd e)) (\<lambda>v. Inr (fst e, v))))"

definition RunArtifact_validate :: "pydantic_env \<Rightarrow> document \<Rightarrow> exn + RunArtifact" where
  "RunArtifact_validate env d =
     and_then (defaulted d ''run_id'' (default_run_id env) as_str) (\<lambda>r.
     and_then (defaulted d ''user_id'' None (nullable as_str)) (\<lambda>u.
     and_then (required d ''input'' load_GeneratorInput) (\<lambda>i.
     and_then (defaulted d ''attempts'' [] (as_list (load_AttemptRecord env))) (\<lambda>a.
     and_then (defaulted d ''final'' None (nullable load_FinalResult)) (\<lambda>f.
     and_then (required d ''timestamps'' (load_Timestamps env)) (\<lambda>t.
     and_then (defaulted d ''metadata'' [] load_metadata) (\<lambda>m.
     Inr \<lparr>run_id = r, user_id = u, input = i, attempts = a, final = f, timestamps = t,
          metadata = m\<rparr>)))))))"

subsection \<open>\<open>ArtifactRepository.save\<close> and \<open>ArtifactRepository.get\<close>\<close>

definition save ::
  "pydantic_env \<Rightarrow> ArtifactRepository \<Rightarrow> RunArtifact \<Rightarrow> string \<times> ArtifactRepository" where
  "save env repo art =
     (let data = model_dump env art;
          existing = table_search (run_id_is (run_id art)) (artifacts repo)
      in if existing \<noteq> []
         then (run_id art,
               repo\<lparr>artifacts := table_update data (run_id_is (run_id art)) (artifacts repo)\<rparr>)
         else (run_id art, repo\<lparr>artifacts := table_insert data (artifacts repo)\<rparr>))"

definition get ::
  "pydantic_env \<Rightarrow> ArtifactRepository \<Rightarrow> string \<Rightarrow> exn + RunArtifact option" where
  "get env repo rid =
     (let results = table_search (run_id_is rid) (artifacts repo)
      in if results = [] then Inr None
         else and_then (RunArtifact_validate env (hd results)) (\<lambda>a. Inr (Some a)))"

text \<open>The \<open>datetime\<close> values an artifact holds.\<close>

definition datetimes :: "RunArtifact \<Rightarrow> datetime list" where
  "datetimes x =
     started_at (timestamps x)
       # (case finished_at (timestamps x) of None \<Rightarrow> [] | Some t \<Rightarrow> [t])
       @ map timestamp (attempts x)"

section \<open>Concrete inputs\<close>

text \<open>
  A scripted world, as a mock with a \<open>side_effect\<close> list: each call takes the next
  scripted outcome, and an exhausted script raises \<open>StopIteration\<close>.
\<close>

definition scripted_create ::
  "string \<Rightarrow> string \<Rightarrow> string \<Rightarrow> (exn + string option) list
     \<Rightarrow> (exn + string option) \<times> (exn + string option) list" where
  "scripted_create m system_prompt user_prompt w =
     (case w of [] \<Rightarrow> (Inl (OtherError ''StopIteration''), []) | r # rs \<Rightarrow> (r, rs))"

text \<open>
  A small agent: the parser rejects the text \<open>not json\<close>, the schema rejects the
  document \<open>{}\<close>, the call of the schema raises \<open>TypeError\<close> on the array
  \<open>[1, 2]\<close> (\<open>**\<close> needs a mapping), and a valid document yields its length.
\<close>

definition demo_agent :: "(unit, string, nat, (exn + string option) list) BaseAgent" where
  "demo_agent =
     \<lparr>name = ''GeneratorAgent'', model_name = ''gpt-4o-mini'',
      build_system_prompt = ''system'', build_user_prompt = (\<lambda>u. Inr ''user''),
      create = scripted_create,
      json_loads = (\<lambda>raw. if raw = ''not json'' then Inl (JSONDecodeError ''Expecting value'')
                           else Inr raw),
      output_schema =
        (\<lambda>parsed. if parsed = ''{}'' then Inl (ValidationError ''Field required'')
                   else if parsed = ''[1, 2]''
                   then Inl (OtherError ''argument after ** must be a mapping, not list'')
                   else Inr (length parsed))\<rparr>"

text \<open>The fixtures of tests/conftest.py.\<close>

definition sample_generator_input :: GeneratorInput where
  "sample_generator_input = \<lparr>grade = 5, topic = ''Fractions as parts of a whole''\<rparr>"

definition sample_valid_generator_output :: GeneratorOutput where
  "sample_valid_generator_output =
     \<lparr>explanation =
        \<lparr>explanation_text = ''Fractions are a way to represent parts of a whole. When we divide something into equal parts, each part is a fraction. For example, if you cut a pizza into 4 equal slices, each slice is 1/4 (one-fourth) of the pizza. The top number (numerator) tells us how many parts we have, and the bottom number (denominator) tells us how many equal parts the whole is divided into.'',
         explanation_grade = 5\<rparr>,
      mcqs =
        [\<lparr>question = ''If a pizza is cut into 8 equal slices and you eat 3, what fraction of the pizza did you eat?'',
          options = [''1/8'', ''3/8'', ''5/8'', ''8/3''], correct_index = 1\<rparr>,
         \<lparr>question = ''What does the denominator in a fraction tell us?'',
          options = [''How many parts we have'',
                     ''How many equal parts the whole is divided into'',
                     ''The size of each part'', ''The total number''],
          correct_index = 1\<rparr>,
         \<lparr>question = ''Which fraction represents half of something?'',
          options = [''1/4'', ''1/3'', ''1/2'', ''2/1''], correct_index = 2\<rparr>],
      teacher_notes =
        \<lparr>learning_objective = ''Students will be able to identify and represent fractions as parts of a whole using visual models and numerical notation.'',
         common_misconceptions = [''Confusing numerator and denominator'',
                                  ''Thinking larger denominators mean larger fractions'']\<rparr>\<rparr>"

definition sample_passing_review :: ReviewerOutput where
  "sample_passing_review =
     \<lparr>scores = \<lparr>age_appropriateness = 5, correctness = 5, clarity = 5, coverage = 4\<rparr>,
      pass_decision = True,
      feedback = [\<lparr>field = ''explanation.text'', issue = ''Could include more visual examples'',
                   severity = minor, suggestion = Some ''Add diagram descriptions''\<rparr>],
      summary = ''Excellent content that meets all quality standards.''\<rparr>"

definition sample_failing_review :: ReviewerOutput where
  "sample_failing_review =
     \<lparr>scores = \<lparr>age_appropriateness = 3, correctness = 5, clarity = 3, coverage = 4\<rparr>,
      pass_decision = False,
      feedback = [\<lparr>field = ''explanation.text'', issue = ''Vocabulary too complex for Grade 5'',
                   severity = critical, suggestion = Some ''Simplify language''\<rparr>,
                  \<lparr>field = ''mcqs[0].question'', issue = ''Question is confusing'',
                   severity = major, suggestion = Some ''Rephrase more clearly''\<rparr>],
      summary = ''Content needs significant improvement in age appropriateness and clarity.''\<rparr>"

definition sample_tags :: TaggerOutput where
  "sample_tags =
     \<lparr>subject = ''Mathematics'', tag_topic = ''Fractions'', tag_grade = 5, difficulty = MEDIUM,
      content_type = [EXPLANATION, QUIZ], blooms_level = UNDERSTANDING,
      tag_keywords = [''fractions'', ''numerator'', ''denominator'', ''parts'', ''whole'']\<rparr>"

text \<open>
  A reviewer with the thresholds of config.py.  Its \<open>float_repr\<close> renders a
  non-negative number with one fractional digit, which is how Python prints \<open>4.0\<close>.
\<close>

definition repr_one_decimal :: "rat \<Rightarrow> string" where
  "repr_one_decimal x = str_int \<lfloor>x\<rfloor> @ ''.'' @ str_int \<lfloor>(x - of_int \<lfloor>x\<rfloor>) * 10\<rfloor>"

definition demo_reviewer ::
  "(ContentRequest, string, ReviewerOutput, (exn + string option) list) ReviewerAgent" where
  "demo_reviewer =
     \<lparr>name = ''ReviewerAgent'', model_name = ''gpt-4o-mini'',
      build_system_prompt = ''system'', build_user_prompt = (\<lambda>d. Inr ''user''),
      create = scripted_create,
      json_loads = (\<lambda>raw. if raw = ''not json'' then Inl (JSONDecodeError ''Expecting value'')
                           else Inr raw),
      output_schema = (\<lambda>parsed. if parsed = ''{}'' then Inl (ValidationError ''Field required'')
                                 else Inr (sample_failing_review\<lparr>pass_decision := True\<rparr>)),
      thresholds = PASS_THRESHOLDS, min_average = MIN_AVERAGE_SCORE,
      float_repr = repr_one_decimal\<rparr>"

text \<open>
  A scripted orchestrator, as the tests build one with mocks: every collaborator takes its
  next scripted outcome, the clock its next scripted reading (\<open>0\<close> once the script is
  exhausted), and every run gets the same identifier.
\<close>

record script_world =
  clock_script :: "datetime list"
  generator_script :: "(exn + GeneratorOutput) list"
  reviewer_script :: "(exn + ReviewerOutput) list"
  refiner_script :: "(exn + GeneratorOutput) list"
  tagger_script :: "(exn + TaggerOutput) list"

definition next_outcome :: "(exn + 'a) list \<Rightarrow> (exn + 'a) \<times> (exn + 'a) list" where
  "next_outcome xs =
     (case xs of [] \<Rightarrow> (Inl (OtherError ''StopIteration''), []) | x # rest \<Rightarrow> (x, rest))"

definition scripted_orchestrator :: "int \<Rightarrow> script_world Orchestrator" where
  "scripted_orchestrator limit =
     \<lparr>generator_run = (\<lambda>i w. case next_outcome (generator_script w) of
                               (r, rest) \<Rightarrow> (r, w\<lparr>generator_script := rest\<rparr>)),
      reviewer_review = (\<lambda>i c w. case next_outcome (reviewer_script w) of
                                   (r, rest) \<Rightarrow> (r, w\<lparr>reviewer_script := rest\<rparr>)),
      refiner_run = (\<lambda>ri w. case next_outcome (refiner_script w) of
                              (r, rest) \<Rightarrow> (r, w\<lparr>refiner_script := rest\<rparr>)),
      tagger = Patched (\<lambda>i c w. case next_outcome (tagger_script w) of
                                   (r, rest) \<Rightarrow> (r, w\<lparr>tagger_script := rest\<rparr>)),
      max_refinements = limit,
      utcnow = (\<lambda>w. case clock_script w of [] \<Rightarrow> (0, w)
                       | t # rest \<Rightarrow> (t, w\<lparr>clock_script := rest\<rparr>)),
      uuid4 = (\<lambda>w. (''run-1'', w)),
      pydantic_version = ''2.5''\<rparr>"

text \<open>
  The same orchestrator with \<open>TaggerAgent.run\<close> left as it is, which is the
  orchestrator \<open>Orchestrator.__init__\<close> builds.
\<close>

definition unpatched_orchestrator :: "int \<Rightarrow> script_world Orchestrator" where
  "unpatched_orchestrator limit =
     (scripted_orchestrator limit)\<lparr>tagger := TaggerAgent (\<lambda>c. ''{}'')\<rparr>"

text \<open>Scripted worlds: the scenarios of tests/test_orchestration.py and their variants.\<close>

definition base_world :: script_world where
  "base_world =
     \<lparr>clock_script = [10000000, 11000000, 12000000, 13000000, 14000000, 15000000],
      generator_script = [Inr sample_valid_generator_output],
      reviewer_script = [],
      refiner_script = [],
      tagger_script = [Inr sample_tags]\<rparr>"

definition world_pass_first :: script_world where
  "world_pass_first =
     base_world\<lparr>clock_script := [10000000, 11000000, 12500000],
                reviewer_script := [Inr sample_passing_review]\<rparr>"

definition world_clock_back :: script_world where
  "world_clock_back = world_pass_first\<lparr>clock_script := [10000000, 11000000, 5000000]\<rparr>"

definition tagger_failure :: exn where
  "tagger_failure =
     AgentError ''Failed after 2 attempts. Last error: LLM call failed: timeout''
       ''TaggerAgent'' False"

definition world_tagger_fails :: script_world where
  "world_tagger_fails = world_pass_first\<lparr>tagger_script := [Inl tagger_failure]\<rparr>"

definition generator_failure :: exn where
  "generator_failure =
     AgentError ''Failed after 2 attempts. Last error: Invalid JSON response: Expecting value''
       ''GeneratorAgent'' False"

definition world_generator_fails :: script_world where
  "world_generator_fails = base_world\<lparr>generator_script := [Inl generator_failure]\<rparr>"

definition world_always_failing :: script_world where
  "world_always_failing =
     base_world\<lparr>reviewer_script := [Inr sample_failing_review, Inr sample_failing_review,
                                    Inr sample_failing_review, Inr sample_failing_review],
                refiner_script := [Inr sample_valid_generator_output,
                                   Inr sample_valid_generator_output,
                                   Inr sample_valid_generator_output]\<rparr>"

definition world_fail_then_pass :: script_world where
  "world_fail_then_pass =
     base_world\<lparr>reviewer_script := [Inr sample_failing_review, Inr sample_passing_review],
                refiner_script := [Inr sample_valid_generator_output]\<rparr>"

text \<open>
  The ISO 8601 text of the instants the scripted clocks show, as \<open>isoformat\<close> prints
  them, and an environment that formats and parses exactly these.
\<close>

definition scripted_instants :: "(datetime \<times> string) list" where
  "scripted_instants =
     [(0, ''1970-01-01T00:00:00''), (5000000, ''1970-01-01T00:00:05''),
      (10000000, ''1970-01-01T00:00:10''), (11000000, ''1970-01-01T00:00:11''),
      (12000000, ''1970-01-01T00:00:12''), (12500000, ''1970-01-01T00:00:12.500000''),
      (13000000, ''1970-01-01T00:00:13''), (14000000, ''1970-01-01T00:00:14''),
      (15000000, ''1970-01-01T00:00:15'')]"

definition demo_env :: pydantic_env where
  "demo_env =
     \<lparr>isoformat = (\<lambda>t. case map_of scripted_instants t of Some s \<Rightarrow> s | None \<Rightarrow> []),
      fromisoformat = map_of (map (\<lambda>e. (snd e, fst e)) scripted_instants),
      default_timestamp = 0, default_run_id = ''run-0''\<rparr>"

text \<open>
  A table that already holds a document of another run and a stale document of the run
  \<open>run-1\<close>.
\<close>

definition demo_repository :: ArtifactRepository where
  "demo_repository =
     \<lparr>artifacts = [[(''run_id'', JStr ''run-0''), (''user_id'', JNull)],
                   [(''run_id'', JStr ''run-1''), (''user_id'', JStr ''u1''),
                    (''note'', JStr ''stale'')]]\<rparr>"

section \<open>The review loop: what one iteration does, and an induction rule\<close>

lemma review_results_simps [simp]:
  "review_results [] = []"
  "review_results (cs @ ds) = review_results cs @ review_results ds"
  "review_results (ReviewerReview i c r # cs) = r # review_results cs"
  "review_results (GeneratorRun i g # cs) = review_results cs"
  "review_results (RefinerRun ri g # cs) = review_results cs"
  "review_results (TaggerRun i c t # cs) = review_results cs"
  by (simp_all add: review_results_def)

lemma refiner_inputs_simps [simp]:
  "refiner_inputs [] = []"
  "refiner_inputs (cs @ ds) = refiner_inputs cs @ refiner_inputs ds"
  "refiner_inputs (RefinerRun ri g # cs) = ri # refiner_inputs cs"
  "refiner_inputs (GeneratorRun i g # cs) = refiner_inputs cs"
  "refiner_inputs (ReviewerReview i c r # cs) = refiner_inputs cs"
  "refiner_inputs (TaggerRun i c t # cs) = refiner_inputs cs"
  by (simp_all add: refiner_inputs_def)

lemma tagger_calls_simps [simp]:
  "tagger_calls [] = []"
  "tagger_calls (cs @ ds) = tagger_calls cs @ tagger_calls ds"
  "tagger_calls (TaggerRun i c t # cs) = (i, c, t) # tagger_calls cs"
  "tagger_calls (GeneratorRun i g # cs) = tagger_calls cs"
  "tagger_calls (ReviewerReview i c r # cs) = tagger_calls cs"
  "tagger_calls (RefinerRun ri g # cs) = tagger_calls cs"
  by (simp_all add: tagger_calls_def)

lemma raised_simps [simp]:
  "raised [] = []"
  "raised (cs @ ds) = raised cs @ raised ds"
  "raised (GeneratorRun i g # cs) = raised_of_result g @ raised cs"
  "raised (ReviewerReview i c r # cs) = raised_of_result r @ raised cs"
  "raised (RefinerRun ri g # cs) = raised_of_result g @ raised cs"
  "raised (TaggerRun i c t # cs) = raised_of_result t @ raised cs"
  by (simp_all add: raised_def)

lemma loop_body_cases:
  assumes "loop_body orch inp n c s = (it, s')"
  obtains
    (review_raises) e w1 where
      "it = Raise e"
      "artifact s' = artifact s"
      "world s' = w1"
      "calls s' = calls s @ [ReviewerReview inp c (Inl e)]"
  | (passes) rv t where
      "pass_decision rv"
      "it = Break (Some c) (Some rv)"
      "artifact s' = (artifact s)\<lparr>attempts := attempts (artifact s)
          @ [\<lparr>attempt = n, draft = c, review = rv, refined = None, timestamp = t\<rparr>]\<rparr>"
      "calls s' = calls s @ [ReviewerReview inp c (Inr rv)]"
  | (exhausted) rv t where
      "\<not> pass_decision rv" "n > max_refinements orch"
      "it = Break None (Some rv)"
      "artifact s' = (artifact s)\<lparr>attempts := attempts (artifact s)
          @ [\<lparr>attempt = n, draft = c, review = rv, refined = None, timestamp = t\<rparr>]\<rparr>"
      "calls s' = calls s @ [ReviewerReview inp c (Inr rv)]"
  | (invalid_input) rv where
      "\<not> pass_decision rv" "n \<le> max_refinements orch" "\<not> (1 \<le> n \<and> n \<le> 2)"
      "it = Raise (RefinerInput_error (pydantic_version orch) n)"
      "artifact s' = artifact s"
      "calls s' = calls s @ [ReviewerReview inp c (Inr rv)]"
  | (refine_raises) rv e where
      "\<not> pass_decision rv" "n \<le> max_refinements orch" "1 \<le> n" "n \<le> 2"
      "it = Raise e"
      "artifact s' = artifact s"
      "calls s' = calls s @ [ReviewerReview inp c (Inr rv),
          RefinerRun \<lparr>original_input = inp, current_content = c,
                      refiner_feedback = feedback rv, attempt_number = n\<rparr> (Inl e)]"
  | (refined) rv t rc where
      "\<not> pass_decision rv" "n \<le> max_refinements orch" "1 \<le> n" "n \<le> 2"
      "it = Continue rc"
      "artifact s' = (artifact s)\<lparr>attempts := attempts (artifact s)
          @ [\<lparr>attempt = n, draft = c, review = rv, refined = Some rc, timestamp = t\<rparr>]\<rparr>"
      "calls s' = calls s @ [ReviewerReview inp c (Inr rv),
          RefinerRun \<lparr>original_input = inp, current_content = c,
                      refiner_feedback = feedback rv, attempt_number = n\<rparr> (Inr rc)]"
  using assms
  unfolding loop_body_def review_step_def new_AttemptRecord_def refine_step_def
    new_RefinerInput_def append_attempt_def
  by (auto split: prod.splits sum.splits if_splits)

lemma review_loop_rule:
  assumes "review_loop orch inp n c s = (res, s')"
    and "I n c s"
    and "\<And>n c s rc s1. \<lbrakk>I n c s; n \<le> max_refinements orch + 1;
            loop_body orch inp n c s = (Continue rc, s1)\<rbrakk> \<Longrightarrow> I (n + 1) rc s1"
    and "\<And>n c s e s1. \<lbrakk>I n c s; n \<le> max_refinements orch + 1;
            loop_body orch inp n c s = (Raise e, s1)\<rbrakk> \<Longrightarrow> Q (Inl e) s1"
    and "\<And>n c s fc fr s1. \<lbrakk>I n c s; n \<le> max_refinements orch + 1;
            loop_body orch inp n c s = (Break fc fr, s1)\<rbrakk> \<Longrightarrow> Q (Inr (fc, fr)) s1"
    and "\<And>n c s. \<lbrakk>I n c s; \<not> n \<le> max_refinements orch + 1\<rbrakk> \<Longrightarrow> Q (Inr (None, None)) s"
  shows "Q res s'"
  using assms
proof (induction orch inp n c s rule: review_loop.induct)
  case (1 orch inp n c s)
  show ?case
  proof (cases "n \<le> max_refinements orch + 1")
    case False
    with "1.prems"(1) have "res = Inr (None, None)" "s' = s"
      by (simp_all add: review_loop.simps)
    with "1.prems"(2,6) False show ?thesis by simp
  next
    case True
    obtain it s1 where b: "loop_body orch inp n c s = (it, s1)"
      by (cases "loop_body orch inp n c s")
    show ?thesis
    proof (cases it)
      case (Raise e)
      with "1.prems"(1) True b have "res = Inl e" "s' = s1" by (simp_all add: review_loop.simps)
      with "1.prems"(2,4) True b Raise show ?thesis by simp
    next
      case (Break fc fr)
      with "1.prems"(1) True b have "res = Inr (fc, fr)" "s' = s1"
        by (simp_all add: review_loop.simps)
      with "1.prems"(2,5) True b Break show ?thesis by simp
    next
      case (Continue rc)
      with "1.prems"(1) True b have r: "review_loop orch inp (n + 1) rc s1 = (res, s')"
        by (simp add: review_loop.simps)
      have i: "I (n + 1) rc s1" using "1.prems"(2,3) True b Continue by simp
      show ?thesis
        by (rule "1.IH" [OF True b [symmetric] Continue r i "1.prems"(3,4,5,6)])
    qed
  qed
qed

lemma finalize_simps [simp]:
  "attempts (artifact (finalize orch s)) = attempts (artifact s)"
  "final (artifact (finalize orch s)) = final (artifact s)"
  "run_id (artifact (finalize orch s)) = run_id (artifact s)"
  "calls (finalize orch s) = calls s"
  "started_at (timestamps (artifact (finalize orch s))) = started_at (timestamps (artifact s))"
  "finished_at (timestamps (artifact (finalize orch s))) = Some (fst (utcnow orch (world s)))"
  "duration_seconds (timestamps (artifact (finalize orch s)))
     = Some (of_int (fst (utcnow orch (world s)) - started_at (timestamps (artifact s))) / 1000000)"
  by (simp_all add: finalize_def split: prod.splits)

lemma set_final_simps [simp]:
  "attempts (artifact (set_final f s)) = attempts (artifact s)"
  "final (artifact (set_final f s)) = Some f"
  "run_id (artifact (set_final f s)) = run_id (artifact s)"
  "timestamps (artifact (set_final f s)) = timestamps (artifact s)"
  "calls (set_final f s) = calls s"
  "world (set_final f s) = world s"
  by (simp_all add: set_final_def)

lemma loop_body_frame:
  assumes "loop_body orch inp n c s = (it, s')"
  shows "\<exists>as cs. artifact s' = (artifact s)\<lparr>attempts := attempts (artifact s) @ as\<rparr>
           \<and> calls s' = calls s @ cs"
  using assms
proof (cases rule: loop_body_cases)
  case (review_raises e w1)
  then show ?thesis
    by - (rule exI [where x = "[]"], rule exI [where x = "[ReviewerReview inp c (Inl e)]"], simp)
next
  case (passes rv t)
  then show ?thesis by blast
next
  case (exhausted rv t)
  then show ?thesis by blast
next
  case (invalid_input rv)
  then show ?thesis
    by - (rule exI [where x = "[]"], rule exI [where x = "[ReviewerReview inp c (Inr rv)]"], simp)
next
  case (refine_raises rv e)
  then show ?thesis
    by - (rule exI [where x = "[]"], rule exI, simp)
next
  case (refined rv t rc)
  then show ?thesis by blast
qed

lemma review_loop_frame:
  assumes "review_loop orch inp n c s = (res, s')"
  shows "\<exists>as cs. artifact s' = (artifact s)\<lparr>attempts := attempts (artifact s) @ as\<rparr>
           \<and> calls s' = calls s @ cs"
proof (rule review_loop_rule [OF assms,
    where I = "\<lambda>n c s1. \<exists>as cs. artifact s1 = (artifact s)\<lparr>attempts := attempts (artifact s) @ as\<rparr>
           \<and> calls s1 = calls s @ cs"
      and Q = "\<lambda>res s1. \<exists>as cs. artifact s1 = (artifact s)\<lparr>attempts := attempts (artifact s) @ as\<rparr>
           \<and> calls s1 = calls s @ cs"])
  show "\<exists>as cs. artifact s = (artifact s)\<lparr>attempts := attempts (artifact s) @ as\<rparr>
           \<and> calls s = calls s @ cs"
    by (intro exI [of _ "[]"]) simp
next
  fix n c s0 rc s1
  assume "\<exists>as cs. artifact s0 = (artifact s)\<lparr>attempts := attempts (artifact s) @ as\<rparr>
           \<and> calls s0 = calls s @ cs"
    and "loop_body orch inp n c s0 = (Continue rc, s1)"
  then show "\<exists>as cs. artifact s1 = (artifact s)\<lparr>attempts := attempts (artifact s) @ as\<rparr>
           \<and> calls s1 = calls s @ cs"
    by (auto dest!: loop_body_frame)
next
  fix n c s0 e s1
  assume "\<exists>as cs. artifact s0 = (artifact s)\<lparr>attempts := attempts (artifact s) @ as\<rparr>
           \<and> calls s0 = calls s @ cs"
    and "loop_body orch inp n c s0 = (Raise e, s1)"
  then show "\<exists>as cs. artifact s1 = (artifact s)\<lparr>attempts := attempts (artifact s) @ as\<rparr>
           \<and> calls s1 = calls s @ cs"
    by (auto dest!: loop_body_frame)
next
  fix n c s0 fc fr s1
  assume "\<exists>as cs. artifact s0 = (artifact s)\<lparr>attempts := attempts (artifact s) @ as\<rparr>
           \<and> calls s0 = calls s @ cs"
    and "loop_body orch inp n c s0 = (Break fc fr, s1)"
  then show "\<exists>as cs. artifact s1 = (artifact s)\<lparr>attempts := attempts (artifact s) @ as\<rparr>
           \<and> calls s1 = calls s @ cs"
    by (auto dest!: loop_body_frame)
qed

lemma run_cases:
  fixes orch :: "'w Orchestrator"
  defines "s0 uid inp t0 rid w2 \<equiv>
     \<lparr>artifact = \<lparr>run_id = rid, user_id = uid, input = inp, attempts = [], final = None,
                  timestamps = \<lparr>started_at = t0, finished_at = None, duration_seconds = None\<rparr>,
                  metadata = []\<rparr>,
      world = w2, calls = []\<rparr>"
  obtains
    (generator_raises) t0 w1 rid w2 e w3 where
      "utcnow orch w = (t0, w1)" "uuid4 orch w1 = (rid, w2)"
      "generator_run orch inp w2 = (Inl e, w3)"
      "fst (run_body orch inp (initial_state orch inp uid w)) = Inl e"
      "run orch inp uid w = finalize orch (set_final (handle_exn e)
          ((s0 uid inp t0 rid w2)\<lparr>world := w3, calls := [GeneratorRun inp (Inl e)]\<rparr>))"
  | (loop_raises) t0 w1 rid w2 c w3 e s2 where
      "utcnow orch w = (t0, w1)" "uuid4 orch w1 = (rid, w2)"
      "generator_run orch inp w2 = (Inr c, w3)"
      "review_loop orch inp 1 c
          ((s0 uid inp t0 rid w2)\<lparr>world := w3, calls := [GeneratorRun inp (Inr c)]\<rparr>) = (Inl e, s2)"
      "fst (run_body orch inp (initial_state orch inp uid w)) = Inl e"
      "run orch inp uid w = finalize orch (set_final (handle_exn e) s2)"
  | (review_failed) t0 w1 rid w2 c w3 fr s2 where
      "utcnow orch w = (t0, w1)" "uuid4 orch w1 = (rid, w2)"
      "generator_run orch inp w2 = (Inr c, w3)"
      "review_loop orch inp 1 c
          ((s0 uid inp t0 rid w2)\<lparr>world := w3, calls := [GeneratorRun inp (Inr c)]\<rparr>)
         = (Inr (None, fr), s2)"
      "fst (run_body orch inp (initial_state orch inp uid w)) = Inr ()"
      "run orch inp uid w = finalize orch
          (set_final \<lparr>status = rejected, content = None, tags = None,
                      rejection_reason = Some (failed_review_reason (artifact s2) fr)\<rparr> s2)"
  | (tagger_raises) t0 w1 rid w2 c w3 d fr s2 e w4 where
      "utcnow orch w = (t0, w1)" "uuid4 orch w1 = (rid, w2)"
      "generator_run orch inp w2 = (Inr c, w3)"
      "review_loop orch inp 1 c
          ((s0 uid inp t0 rid w2)\<lparr>world := w3, calls := [GeneratorRun inp (Inr c)]\<rparr>)
         = (Inr (Some d, fr), s2)"
      "tagger_run orch inp d (world s2) = (Inl e, w4)"
      "fst (run_body orch inp (initial_state orch inp uid w)) = Inl e"
      "run orch inp uid w = finalize orch (set_final (handle_exn e)
          (s2\<lparr>world := w4, calls := calls s2 @ [TaggerRun inp d (Inl e)]\<rparr>))"
  | (tagged) t0 w1 rid w2 c w3 d fr s2 tg w4 where
      "utcnow orch w = (t0, w1)" "uuid4 orch w1 = (rid, w2)"
      "generator_run orch inp w2 = (Inr c, w3)"
      "review_loop orch inp 1 c
          ((s0 uid inp t0 rid w2)\<lparr>world := w3, calls := [GeneratorRun inp (Inr c)]\<rparr>)
         = (Inr (Some d, fr), s2)"
      "tagger_run orch inp d (world s2) = (Inr tg, w4)"
      "fst (run_body orch inp (initial_state orch inp uid w)) = Inr ()"
      "run orch inp uid w = finalize orch
          (set_final \<lparr>status = approved, content = Some d, tags = Some tg,
                      rejection_reason = None\<rparr>
             (s2\<lparr>world := w4, calls := calls s2 @ [TaggerRun inp d (Inr tg)]\<rparr>))"
proof -
  obtain t0 w1 where a: "utcnow orch w = (t0, w1)" by (cases "utcnow orch w")
  obtain rid w2 where b: "uuid4 orch w1 = (rid, w2)" by (cases "uuid4 orch w1")
  obtain g w3 where c: "generator_run orch inp w2 = (g, w3)" by (cases "generator_run orch inp w2")
  show thesis
  proof (cases g)
    case (Inl e)
    show thesis
      by (rule generator_raises [OF a b c [unfolded Inl]])
         (simp_all add: run_def initial_state_def a b c Inl run_body_def generate_step_def s0_def)
  next
    case (Inr cur)
    let ?s1 = "(s0 uid inp t0 rid w2)\<lparr>world := w3, calls := [GeneratorRun inp (Inr cur)]\<rparr>"
    obtain res s2 where l: "review_loop orch inp 1 cur ?s1 = (res, s2)"
      by (cases "review_loop orch inp 1 cur ?s1")
    show thesis
    proof (cases res)
      case (Inl e)
      show thesis
        by (rule loop_raises [OF a b c [unfolded Inr] l [unfolded Inl]])
           (use l in \<open>simp_all add: run_def initial_state_def a b c Inr Inl run_body_def generate_step_def s0_def\<close>)
    next
      case r: (Inr p)
      obtain fc fr where p: "p = (fc, fr)" by (cases p)
      show thesis
      proof (cases fc)
        case None
        show thesis
          by (rule review_failed [OF a b c [unfolded Inr] l [unfolded r p None]])
             (use l in \<open>simp_all add: run_def initial_state_def a b c Inr r p None run_body_def generate_step_def s0_def\<close>)
      next
        case (Some d)
        obtain tr w4 where t: "tagger_run orch inp d (world s2) = (tr, w4)"
          by (cases "tagger_run orch inp d (world s2)")
        show thesis
        proof (cases tr)
          case e: (Inl e)
          show thesis
            by (rule tagger_raises [OF a b c [unfolded Inr] l [unfolded r p Some] t [unfolded e]])
               (use l t in \<open>simp_all add: run_def initial_state_def a b c Inr r p Some e run_body_def generate_step_def
                   tag_step_def s0_def\<close>)
        next
          case tg: (Inr tg)
          show thesis
            by (rule tagged [OF a b c [unfolded Inr] l [unfolded r p Some] t [unfolded tg]])
               (use l t in \<open>simp_all add: run_def initial_state_def a b c Inr r p Some tg run_body_def generate_step_def
                   tag_step_def s0_def\<close>)
        qed
      qed
    qed
  qed
qed

lemma run_started_at:
  "started_at (timestamps (artifact (run orch inp uid w))) = fst (utcnow orch w)"
proof (cases rule: run_cases [of orch w inp uid])
  case (generator_raises t0 w1 rid w2 e w3)
  then show ?thesis by simp
next
  case (loop_raises t0 w1 rid w2 c w3 e s2)
  from review_loop_frame [OF loop_raises(4)] loop_raises(1,6) show ?thesis by auto
next
  case (review_failed t0 w1 rid w2 c w3 fr s2)
  from review_loop_frame [OF review_failed(4)] review_failed(1,6) show ?thesis by auto
next
  case (tagger_raises t0 w1 rid w2 c w3 d fr s2 e w4)
  from review_loop_frame [OF tagger_raises(4)] tagger_raises(1,7) show ?thesis by auto
next
  case (tagged t0 w1 rid w2 c w3 d fr s2 tg w4)
  from review_loop_frame [OF tagged(4)] tagged(1,7) show ?thesis by auto
qed

lemma run_is_finalize:
  "\<exists>s. run orch inp uid w = finalize orch s
       \<and> started_at (timestamps (artifact s)) = fst (utcnow orch w)"
proof (cases rule: run_cases [of orch w inp uid])
  case (generator_raises t0 w1 rid w2 e w3)
  have "started_at (timestamps (artifact (set_final (handle_exn e)
          (\<lparr>artifact = \<lparr>run_id = rid, user_id = uid, input = inp, attempts = [], final = None,
                  timestamps = \<lparr>started_at = t0, finished_at = None, duration_seconds = None\<rparr>,
                  metadata = []\<rparr>,
      world = w2, calls = []\<rparr>\<lparr>world := w3, calls := [GeneratorRun inp (Inl e)]\<rparr>))))
      = fst (utcnow orch w)"
    using generator_raises(1) by simp
  with generator_raises(5) show ?thesis by blast
next
  case (loop_raises t0 w1 rid w2 c w3 e s2)
  from review_loop_frame [OF loop_raises(4)] loop_raises(1)
  have "started_at (timestamps (artifact (set_final (handle_exn e) s2))) = fst (utcnow orch w)"
    by auto
  with loop_raises(6) show ?thesis by blast
next
  case (review_failed t0 w1 rid w2 c w3 fr s2)
  from review_loop_frame [OF review_failed(4)] review_failed(1)
  have "started_at (timestamps (artifact (set_final \<lparr>status = rejected, content = None, tags = None,
                      rejection_reason = Some (failed_review_reason (artifact s2) fr)\<rparr> s2)))
          = fst (utcnow orch w)"
    by auto
  with review_failed(6) show ?thesis by blast
next
  case (tagger_raises t0 w1 rid w2 c w3 d fr s2 e w4)
  from review_loop_frame [OF tagger_raises(4)] tagger_raises(1)
  have "started_at (timestamps (artifact (set_final (handle_exn e)
          (s2\<lparr>world := w4, calls := calls s2 @ [TaggerRun inp d (Inl e)]\<rparr>)))) = fst (utcnow orch w)"
    by auto
  with tagger_raises(7) show ?thesis by blast
next
  case (tagged t0 w1 rid w2 c w3 d fr s2 tg w4)
  from review_loop_frame [OF tagged(4)] tagged(1)
  have "started_at (timestamps (artifact (set_final \<lparr>status = approved, content = Some d, tags = Some tg,
                      rejection_reason = None\<rparr>
             (s2\<lparr>world := w4, calls := calls s2 @ [TaggerRun inp d (Inr tg)]\<rparr>)))) = fst (utcnow orch w)"
    by auto
  with tagged(7) show ?thesis by blast
qed

text \<open>Evaluating a scripted run.\<close>

lemma sample_pass [simp]:
  "pass_decision sample_passing_review" "\<not> pass_decision sample_failing_review"
  by (simp_all add: sample_passing_review_def sample_failing_review_def)

lemmas run_eval =
  run_def initial_state_def run_body_def generate_step_def review_loop.simps loop_body_def
  review_step_def new_AttemptRecord_def append_attempt_def refine_step_def new_RefinerInput_def
  tag_step_def tagger_run_def TaggerAgent_run_def TaggerAgent_build_user_prompt_def
  set_final_def finalize_def scripted_orchestrator_def unpatched_orchestrator_def
  next_outcome_def

lemmas worlds =
  base_world_def world_pass_first_def world_clock_back_def world_tagger_fails_def
  world_generator_fails_def world_always_failing_def world_fail_then_pass_def

lemma list_ex_snoc [simp]: "list_ex P (xs @ [x]) = (list_ex P xs \<or> P x)"
  by (induction xs) auto

lemma review_loop_tagging:
  assumes "review_loop orch inp n c s = (res, s')"
    and "\<not> list_ex passing_review (review_results (calls s))"
    and "tagger_calls (calls s) = []"
  shows "tagger_calls (calls s') = []
     \<and> (\<forall>d fr. res = Inr (Some d, fr) \<longrightarrow>
           list_ex passing_review (review_results (calls s'))
           \<and> attempts (artifact s') \<noteq> []
           \<and> draft (last (attempts (artifact s'))) = d
           \<and> pass_decision (review (last (attempts (artifact s'))))
           \<and> fr = Some (review (last (attempts (artifact s')))))
     \<and> ((\<forall>d fr. res \<noteq> Inr (Some d, fr)) \<longrightarrow>
           \<not> list_ex passing_review (review_results (calls s')))"
proof (rule review_loop_rule [OF assms(1),
    where I = "\<lambda>n c s. \<not> list_ex passing_review (review_results (calls s))
                 \<and> tagger_calls (calls s) = []"
      and Q = "\<lambda>res s'. tagger_calls (calls s') = []
     \<and> (\<forall>d fr. res = Inr (Some d, fr) \<longrightarrow>
           list_ex passing_review (review_results (calls s'))
           \<and> attempts (artifact s') \<noteq> []
           \<and> draft (last (attempts (artifact s'))) = d
           \<and> pass_decision (review (last (attempts (artifact s'))))
           \<and> fr = Some (review (last (attempts (artifact s')))))
     \<and> ((\<forall>d fr. res \<noteq> Inr (Some d, fr)) \<longrightarrow>
           \<not> list_ex passing_review (review_results (calls s')))"])
  show "\<not> list_ex passing_review (review_results (calls s)) \<and> tagger_calls (calls s) = []"
    using assms(2,3) by simp
next
  fix n c s rc s1
  assume "\<not> list_ex passing_review (review_results (calls s)) \<and> tagger_calls (calls s) = []"
    and "loop_body orch inp n c s = (Continue rc, s1)"
  then show "\<not> list_ex passing_review (review_results (calls s1)) \<and> tagger_calls (calls s1) = []"
    by (auto elim!: loop_body_cases)
next
  fix n c s e s1
  assume "\<not> list_ex passing_review (review_results (calls s)) \<and> tagger_calls (calls s) = []"
    and "loop_body orch inp n c s = (Raise e, s1)"
  then show "tagger_calls (calls s1) = []
     \<and> (\<forall>d fr. Inl e = Inr (Some d, fr) \<longrightarrow>
           list_ex passing_review (review_results (calls s1))
           \<and> attempts (artifact s1) \<noteq> []
           \<and> draft (last (attempts (artifact s1))) = d
           \<and> pass_decision (review (last (attempts (artifact s1))))
           \<and> fr = Some (review (last (attempts (artifact s1)))))
     \<and> ((\<forall>d fr. Inl e \<noteq> Inr (Some d, fr)) \<longrightarrow>
           \<not> list_ex passing_review (review_results (calls s1)))"
    by (auto elim!: loop_body_cases)
next
  fix n c s fc fr s1
  assume "\<not> list_ex passing_review (review_results (calls s)) \<and> tagger_calls (calls s) = []"
    and "loop_body orch inp n c s = (Break fc fr, s1)"
  then show "tagger_calls (calls s1) = []
     \<and> (\<forall>d fr'. Inr (fc, fr) = Inr (Some d, fr') \<longrightarrow>
           list_ex passing_review (review_results (calls s1))
           \<and> attempts (artifact s1) \<noteq> []
           \<and> draft (last (attempts (artifact s1))) = d
           \<and> pass_decision (review (last (attempts (artifact s1))))
           \<and> fr' = Some (review (last (attempts (artifact s1)))))
     \<and> ((\<forall>d fr'. Inr (fc, fr) \<noteq> Inr (Some d, fr')) \<longrightarrow>
           \<not> list_ex passing_review (review_results (calls s1)))"
    by (auto elim!: loop_body_cases)
next
  fix n c s
  assume "\<not> list_ex passing_review (review_results (calls s)) \<and> tagger_calls (calls s) = []"
  then show "tagger_calls (calls s) = []
     \<and> (\<forall>d fr. Inr (None, None) = Inr (Some d, fr) \<longrightarrow>
           list_ex passing_review (review_results (calls s))
           \<and> attempts (artifact s) \<noteq> []
           \<and> draft (last (attempts (artifact s))) = d
           \<and> pass_decision (review (last (attempts (artifact s))))
           \<and> fr = Some (review (last (attempts (artifact s)))))
     \<and> ((\<forall>d fr. Inr (None, None) \<noteq> Inr (Some d, fr)) \<longrightarrow>
           \<not> list_ex passing_review (review_results (calls s)))"
    by simp
qed

lemma upto_snoc: "(1::int) \<le> n \<Longrightarrow> [1..n - 1] @ [n] = [1..n]"
  using upto_rec2 [of 1 n] by simp

lemma upto_snoc_Suc: "(0::int) \<le> m \<Longrightarrow> [1..m] @ [m + 1] = [1..m + 1]"
  using upto_rec2 [of 1 "m + 1"] by simp

lemma review_loop_all_fail:
  assumes "review_loop orch inp n c s = (res, s')"
    and "1 \<le> n" and "n = 1 \<or> n \<le> max_refinements orch + 1"
    and "int (length (review_results (calls s))) = n - 1"
    and "map attempt (attempts (artifact s)) = [1..n - 1]"
    and "list_all failing_review (review_results (calls s'))"
    and "int (length (review_results (calls s'))) = max_refinements orch + 1"
  shows "map attempt (attempts (artifact s')) = [1..max_refinements orch + 1]
     \<and> res = Inr (None, if attempts (artifact s') = [] then None
                          else Some (review (last (attempts (artifact s')))))"
proof -
  have "list_all failing_review (review_results (calls s'))
        \<and> int (length (review_results (calls s'))) = max_refinements orch + 1
      \<longrightarrow> map attempt (attempts (artifact s')) = [1..max_refinements orch + 1]
         \<and> res = Inr (None, if attempts (artifact s') = [] then None
                          else Some (review (last (attempts (artifact s')))))"
  proof (rule review_loop_rule [OF assms(1),
    where I = "\<lambda>n c s. 1 \<le> n \<and> (n = 1 \<or> n \<le> max_refinements orch + 1)
                 \<and> int (length (review_results (calls s))) = n - 1
                 \<and> map attempt (attempts (artifact s)) = [1..n - 1]"
      and Q = "\<lambda>res s'. list_all failing_review (review_results (calls s'))
        \<and> int (length (review_results (calls s'))) = max_refinements orch + 1
      \<longrightarrow> map attempt (attempts (artifact s')) = [1..max_refinements orch + 1]
         \<and> res = Inr (None, if attempts (artifact s') = [] then None
                          else Some (review (last (attempts (artifact s')))))"])
    show "1 \<le> n \<and> (n = 1 \<or> n \<le> max_refinements orch + 1)
                 \<and> int (length (review_results (calls s))) = n - 1
                 \<and> map attempt (attempts (artifact s)) = [1..n - 1]"
      using assms(2-5) by simp
  next
    fix n c s rc s1
    assume "1 \<le> n \<and> (n = 1 \<or> n \<le> max_refinements orch + 1)
                 \<and> int (length (review_results (calls s))) = n - 1
                 \<and> map attempt (attempts (artifact s)) = [1..n - 1]"
      and "loop_body orch inp n c s = (Continue rc, s1)"
    then show "1 \<le> n + 1 \<and> (n + 1 = 1 \<or> n + 1 \<le> max_refinements orch + 1)
                 \<and> int (length (review_results (calls s1))) = n + 1 - 1
                 \<and> map attempt (attempts (artifact s1)) = [1..n + 1 - 1]"
      by (auto elim!: loop_body_cases simp: upto_snoc)
  next
    fix n c s e s1
    assume "1 \<le> n \<and> (n = 1 \<or> n \<le> max_refinements orch + 1)
                 \<and> int (length (review_results (calls s))) = n - 1
                 \<and> map attempt (attempts (artifact s)) = [1..n - 1]"
      and "n \<le> max_refinements orch + 1"
      and "loop_body orch inp n c s = (Raise e, s1)"
    then show "list_all failing_review (review_results (calls s1))
        \<and> int (length (review_results (calls s1))) = max_refinements orch + 1
      \<longrightarrow> map attempt (attempts (artifact s1)) = [1..max_refinements orch + 1]
         \<and> Inl e = Inr (None, if attempts (artifact s1) = [] then None
                          else Some (review (last (attempts (artifact s1)))))"
      by (auto elim!: loop_body_cases)
  next
    fix n c s fc fr s1
    assume i: "1 \<le> n \<and> (n = 1 \<or> n \<le> max_refinements orch + 1)
                 \<and> int (length (review_results (calls s))) = n - 1
                 \<and> map attempt (attempts (artifact s)) = [1..n - 1]"
      and le: "n \<le> max_refinements orch + 1"
      and b: "loop_body orch inp n c s = (Break fc fr, s1)"
    from b show "list_all failing_review (review_results (calls s1))
        \<and> int (length (review_results (calls s1))) = max_refinements orch + 1
      \<longrightarrow> map attempt (attempts (artifact s1)) = [1..max_refinements orch + 1]
         \<and> Inr (fc, fr) = Inr (None, if attempts (artifact s1) = [] then None
                          else Some (review (last (attempts (artifact s1)))))"
    proof (cases rule: loop_body_cases)
      case (passes rv t)
      then show ?thesis by simp
    next
      case (exhausted rv t)
      with le have "n = max_refinements orch + 1" by simp
      with i exhausted show ?thesis by (simp add: upto_snoc_Suc)
    qed simp_all
  next
    fix n c s
    assume "1 \<le> n \<and> (n = 1 \<or> n \<le> max_refinements orch + 1)
                 \<and> int (length (review_results (calls s))) = n - 1
                 \<and> map attempt (attempts (artifact s)) = [1..n - 1]"
      and "\<not> n \<le> max_refinements orch + 1"
    then show "list_all failing_review (review_results (calls s))
        \<and> int (length (review_results (calls s))) = max_refinements orch + 1
      \<longrightarrow> map attempt (attempts (artifact s)) = [1..max_refinements orch + 1]
         \<and> Inr (None, None) = Inr (None, if attempts (artifact s) = [] then None
                          else Some (review (last (attempts (artifact s)))))"
      by auto
  qed
  with assms(6,7) show ?thesis by blast
qed

lemma run_tagging:
  fixes orch :: "'w Orchestrator"
  shows "(list_ex passing_review (review_results (calls (run orch inp uid w))) \<longrightarrow>
      (\<exists>t. tagger_calls (calls (run orch inp uid w))
             = [(inp, draft (last (attempts (artifact (run orch inp uid w)))), t)]
        \<and> attempts (artifact (run orch inp uid w)) \<noteq> []
        \<and> pass_decision (review (last (attempts (artifact (run orch inp uid w)))))
        \<and> (\<forall>tg. t = Inr tg \<longrightarrow>
              final (artifact (run orch inp uid w))
                = Some \<lparr>status = approved,
                        content = Some (draft (last (attempts (artifact (run orch inp uid w))))),
                        tags = Some tg, rejection_reason = None\<rparr>)
        \<and> (\<forall>e. t = Inl e \<longrightarrow>
              final (artifact (run orch inp uid w)) = Some (handle_exn e))))
   \<and> (\<not> list_ex passing_review (review_results (calls (run orch inp uid w))) \<longrightarrow>
        tagger_calls (calls (run orch inp uid w)) = []
        \<and> (\<exists>reason. final (artifact (run orch inp uid w))
              = Some \<lparr>status = rejected, content = None, tags = None,
                      rejection_reason = Some reason\<rparr>))"
proof (cases rule: run_cases [of orch w inp uid])
  case (generator_raises t0 w1 rid w2 e w3)
  then show ?thesis by (simp add: handle_exn_def)
next
  case (loop_raises t0 w1 rid w2 c w3 e s2)
  from review_loop_tagging [OF loop_raises(4)] loop_raises(6) show ?thesis
    by (simp add: handle_exn_def)
next
  case (review_failed t0 w1 rid w2 c w3 fr s2)
  from review_loop_tagging [OF review_failed(4)] review_failed(6) show ?thesis
    by simp
next
  case (tagger_raises t0 w1 rid w2 c w3 d fr s2 e w4)
  from review_loop_tagging [OF tagger_raises(4)] tagger_raises(7) show ?thesis
    by simp
next
  case (tagged t0 w1 rid w2 c w3 d fr s2 tg w4)
  from review_loop_tagging [OF tagged(4)] tagged(7) show ?thesis
    by simp
qed

section \<open>Threshold reconciliation in the reviewer\<close>

lemma check_thresholds_four:
  "check_thresholds sc
      [(''age_appropriateness'', t1), (''correctness'', t2), (''clarity'', t3), (''coverage'', t4)]
      True []
   = Inr (t1 \<le> age_appropriateness sc \<and> t2 \<le> correctness sc \<and> t3 \<le> clarity sc
            \<and> t4 \<le> coverage sc,
          (if age_appropriateness sc < t1
           then [threshold_reason ''age_appropriateness'' (age_appropriateness sc) t1] else [])
          @ (if correctness sc < t2
             then [threshold_reason ''correctness'' (correctness sc) t2] else [])
          @ (if clarity sc < t3 then [threshold_reason ''clarity'' (clarity sc) t3] else [])
          @ (if coverage sc < t4 then [threshold_reason ''coverage'' (coverage sc) t4] else []))"
  by (simp add: getattr_score_def not_less)

lemma validate_pass_decision_four:
  assumes "thresholds agent =
     [(''age_appropriateness'', t1), (''correctness'', t2), (''clarity'', t3), (''coverage'', t4)]"
  shows "validate_pass_decision agent r =
     (let should_pass =
            (t1 \<le> age_appropriateness (scores r) \<and> t2 \<le> correctness (scores r)
             \<and> t3 \<le> clarity (scores r) \<and> t4 \<le> coverage (scores r)
             \<and> min_average agent \<le> avg_score (scores r));
          reasons =
            (if age_appropriateness (scores r) < t1
             then [threshold_reason ''age_appropriateness'' (age_appropriateness (scores r)) t1]
             else [])
            @ (if correctness (scores r) < t2
               then [threshold_reason ''correctness'' (correctness (scores r)) t2] else [])
            @ (if clarity (scores r) < t3
               then [threshold_reason ''clarity'' (clarity (scores r)) t3] else [])
            @ (if coverage (scores r) < t4
               then [threshold_reason ''coverage'' (coverage (scores r)) t4] else [])
            @ (if avg_score (scores r) < min_average agent
               then [average_reason agent (avg_score (scores r))] else [])
      in if pass_decision r \<noteq> should_pass
         then Inr \<lparr>scores = scores r, pass_decision = should_pass, feedback = feedback r,
                   summary = summary r @ '' [Auto-corrected: '' @ join ''; '' reasons @ '']''\<rparr>
         else Inr r)"
  unfolding validate_pass_decision_def assms check_thresholds_four Let_def
  by (simp add: not_less del: check_thresholds.simps)


lemma validate_pass_decision_spec:
  assumes "thresholds agent =
     [(''age_appropriateness'', t1), (''correctness'', t2), (''clarity'', t3), (''coverage'', t4)]"
  shows "\<exists>res. validate_pass_decision agent r = Inr res
       \<and> pass_decision res
           = (t1 \<le> age_appropriateness (scores r) \<and> t2 \<le> correctness (scores r)
              \<and> t3 \<le> clarity (scores r) \<and> t4 \<le> coverage (scores r)
              \<and> min_average agent
                  \<le> of_int (age_appropriateness (scores r) + correctness (scores r)
                             + clarity (scores r) + coverage (scores r)) / 4)
       \<and> scores res = scores r
       \<and> feedback res = feedback r
       \<and> (pass_decision r = pass_decision res \<longrightarrow> res = r)
       \<and> (pass_decision r \<noteq> pass_decision res \<longrightarrow>
            summary res
              = summary r @ '' [Auto-corrected: ''
                @ join ''; ''
                    ((if age_appropriateness (scores r) < t1
                      then [threshold_reason ''age_appropriateness''
                              (age_appropriateness (scores r)) t1]
                      else [])
                     @ (if correctness (scores r) < t2
                        then [threshold_reason ''correctness'' (correctness (scores r)) t2]
                        else [])
                     @ (if clarity (scores r) < t3
                        then [threshold_reason ''clarity'' (clarity (scores r)) t3] else [])
                     @ (if coverage (scores r) < t4
                        then [threshold_reason ''coverage'' (coverage (scores r)) t4] else [])
                     @ (if avg_score (scores r) < min_average agent
                        then [average_reason agent (avg_score (scores r))] else []))
                @ '']'')"
proof -
  note v = validate_pass_decision_four [OF assms, of r, unfolded Let_def]
  show ?thesis
  proof (cases "pass_decision r =
           (t1 \<le> age_appropriateness (scores r) \<and> t2 \<le> correctness (scores r)
            \<and> t3 \<le> clarity (scores r) \<and> t4 \<le> coverage (scores r)
            \<and> min_average agent \<le> avg_score (scores r))")
    case True
    then have "validate_pass_decision agent r = Inr r" using v by simp
    with True show ?thesis by (auto simp: avg_score_def)
  next
    case False
    then have "validate_pass_decision agent r =
        Inr \<lparr>scores = scores r,
             pass_decision =
               (t1 \<le> age_appropriateness (scores r) \<and> t2 \<le> correctness (scores r)
                \<and> t3 \<le> clarity (scores r) \<and> t4 \<le> coverage (scores r)
                \<and> min_average agent \<le> avg_score (scores r)),
             feedback = feedback r,
             summary = summary r @ '' [Auto-corrected: ''
                @ join ''; ''
                    ((if age_appropriateness (scores r) < t1
                      then [threshold_reason ''age_appropriateness''
                              (age_appropriateness (scores r)) t1]
                      else [])
                     @ (if correctness (scores r) < t2
                        then [threshold_reason ''correctness'' (correctness (scores r)) t2]
                        else [])
                     @ (if clarity (scores r) < t3
                        then [threshold_reason ''clarity'' (clarity (scores r)) t3] else [])
                     @ (if coverage (scores r) < t4
                        then [threshold_reason ''coverage'' (coverage (scores r)) t4] else [])
                     @ (if avg_score (scores r) < min_average agent
                        then [average_reason agent (avg_score (scores r))] else []))
                @ '']''\<rparr>"
      using v by simp
    with False show ?thesis by (auto simp: avg_score_def)
  qed
qed

lemma ReviewerAgent_review_Inr:
  assumes "ReviewerAgent_review agent original c w = (Inr res, w')"
  obtains r where "validate_pass_decision agent r = Inr res"
  using assms unfolding ReviewerAgent_review_def
  by (auto split: prod.splits sum.splits)

text \<open>
  Claim C2.  With the four configured thresholds, \<open>_validate_pass_decision\<close> always
  returns a review whose pass decision is the recomputed one: true exactly when each of
  the four rubric scores meets its minimum and the unweighted mean of the four scores
  meets the minimum average.  Scores and feedback are those of the model's review.  When
  the model's decision agrees, the review is returned unchanged; when it disagrees, the
  summary is the model's summary followed by a note that lists, in order, every criterion
  below its threshold and then the average when it is below its minimum.  Every review
  that \<open>ReviewerAgent.review\<close> returns carries the decision recomputed from its own
  scores.
\<close>

theorem validate_pass_decision_recomputes:
  assumes "thresholds agent =
     [(''age_appropriateness'', t1), (''correctness'', t2), (''clarity'', t3), (''coverage'', t4)]"
  shows
    "(\<exists>res. validate_pass_decision agent r = Inr res
       \<and> pass_decision res
           = (t1 \<le> age_appropriateness (scores r) \<and> t2 \<le> correctness (scores r)
              \<and> t3 \<le> clarity (scores r) \<and> t4 \<le> coverage (scores r)
              \<and> min_average agent
                  \<le> of_int (age_appropriateness (scores r) + correctness (scores r)
                             + clarity (scores r) + coverage (scores r)) / 4)
       \<and> scores res = scores r
       \<and> feedback res = feedback r
       \<and> (pass_decision r = pass_decision res \<longrightarrow> res = r)
       \<and> (pass_decision r \<noteq> pass_decision res \<longrightarrow>
            summary res
              = summary r @ '' [Auto-corrected: ''
                @ join ''; ''
                    ((if age_appropriateness (scores r) < t1
                      then [threshold_reason ''age_appropriateness''
                              (age_appropriateness (scores r)) t1]
                      else [])
                     @ (if correctness (scores r) < t2
                        then [threshold_reason ''correctness'' (correctness (scores r)) t2]
                        else [])
                     @ (if clarity (scores r) < t3
                        then [threshold_reason ''clarity'' (clarity (scores r)) t3] else [])
                     @ (if coverage (scores r) < t4
                        then [threshold_reason ''coverage'' (coverage (scores r)) t4] else [])
                     @ (if avg_score (scores r) < min_average agent
                        then [average_reason agent (avg_score (scores r))] else []))
                @ '']''))
     \<and> (\<forall>original c w res w'.
           ReviewerAgent_review agent original c w = (Inr res, w') \<longrightarrow>
           pass_decision res
             = (t1 \<le> age_appropriateness (scores res) \<and> t2 \<le> correctness (scores res)
                \<and> t3 \<le> clarity (scores res) \<and> t4 \<le> coverage (scores res)
                \<and> min_average agent
                    \<le> of_int (age_appropriateness (scores res) + correctness (scores res)
                               + clarity (scores res) + coverage (scores res)) / 4))"
proof (intro conjI allI impI)
  show "\<exists>res. validate_pass_decision agent r = Inr res
       \<and> pass_decision res
           = (t1 \<le> age_appropriateness (scores r) \<and> t2 \<le> correctness (scores r)
              \<and> t3 \<le> clarity (scores r) \<and> t4 \<le> coverage (scores r)
              \<and> min_average agent
                  \<le> of_int (age_appropriateness (scores r) + correctness (scores r)
                             + clarity (scores r) + coverage (scores r)) / 4)
       \<and> scores res = scores r
       \<and> feedback res = feedback r
       \<and> (pass_decision r = pass_decision res \<longrightarrow> res = r)
       \<and> (pass_decision r \<noteq> pass_decision res \<longrightarrow>
            summary res
              = summary r @ '' [Auto-corrected: ''
                @ join ''; ''
                    ((if age_appropriateness (scores r) < t1
                      then [threshold_reason ''age_appropriateness''
                              (age_appropriateness (scores r)) t1]
                      else [])
                     @ (if correctness (scores r) < t2
                        then [threshold_reason ''correctness'' (correctness (scores r)) t2]
                        else [])
                     @ (if clarity (scores r) < t3
                        then [threshold_reason ''clarity'' (clarity (scores r)) t3] else [])
                     @ (if coverage (scores r) < t4
                        then [threshold_reason ''coverage'' (coverage (scores r)) t4] else [])
                     @ (if avg_score (scores r) < min_average agent
                        then [average_reason agent (avg_score (scores r))] else []))
                @ '']'')"
    by (rule validate_pass_decision_spec [OF assms])
next
  fix original c w res w'
  assume "ReviewerAgent_review agent original c w = (Inr res, w')"
  then obtain r0 where r0: "validate_pass_decision agent r0 = Inr res"
    by (rule ReviewerAgent_review_Inr)
  from validate_pass_decision_spec [OF assms, of r0] r0
  have "pass_decision res
           = (t1 \<le> age_appropriateness (scores r0) \<and> t2 \<le> correctness (scores r0)
              \<and> t3 \<le> clarity (scores r0) \<and> t4 \<le> coverage (scores r0)
              \<and> min_average agent
                  \<le> of_int (age_appropriateness (scores r0) + correctness (scores r0)
                             + clarity (scores r0) + coverage (scores r0)) / 4)"
    and "scores res = scores r0"
    by auto
  then show "pass_decision res
             = (t1 \<le> age_appropriateness (scores res) \<and> t2 \<le> correctness (scores res)
                \<and> t3 \<le> clarity (scores res) \<and> t4 \<le> coverage (scores res)
                \<and> min_average agent
                    \<le> of_int (age_appropriateness (scores res) + correctness (scores res)
                               + clarity (scores res) + coverage (scores res)) / 4)"
    by simp
qed

lemma rendered_numbers:
  "str_int 3 = ''3''" "str_int 4 = ''4''" "str_int 5 = ''5''"
  "format_1f (15 / 4) = ''3.8''" "repr_one_decimal 4 = ''4.0''"
  by code_simp+

theorem validate_pass_decision_recomputes_witness:
  "validate_pass_decision demo_reviewer (sample_failing_review\<lparr>pass_decision := True\<rparr>)
     = Inr (sample_failing_review\<lparr>summary := ''Content needs significant improvement in age appropriateness and clarity. [Auto-corrected: age_appropriateness (3) below threshold (4); clarity (3) below threshold (4); Average score (3.8) below minimum (4.0)]''\<rparr>)
   \<and> fst (ReviewerAgent_review demo_reviewer sample_generator_input
             sample_valid_generator_output [Inr (Some ''{...}'')])
     = Inr (sample_failing_review\<lparr>summary := ''Content needs significant improvement in age appropriateness and clarity. [Auto-corrected: age_appropriateness (3) below threshold (4); clarity (3) below threshold (4); Average score (3.8) below minimum (4.0)]''\<rparr>)"
proof -
  let ?r = "sample_failing_review\<lparr>pass_decision := True\<rparr>"
  have h: "thresholds demo_reviewer =
      [(''age_appropriateness'', 4), (''correctness'', 5), (''clarity'', 4), (''coverage'', 3)]"
    by (simp add: demo_reviewer_def PASS_THRESHOLDS_def)
  have m: "min_average demo_reviewer = 4" "float_repr demo_reviewer = repr_one_decimal"
    by (simp_all add: demo_reviewer_def MIN_AVERAGE_SCORE_def)
  from validate_pass_decision_recomputes [OF h, of ?r, THEN conjunct1]
  obtain res where R: "validate_pass_decision demo_reviewer ?r = Inr res
       \<and> pass_decision res
           = (4 \<le> age_appropriateness (scores ?r) \<and> 5 \<le> correctness (scores ?r)
              \<and> 4 \<le> clarity (scores ?r) \<and> 3 \<le> coverage (scores ?r)
              \<and> min_average demo_reviewer
                  \<le> of_int (age_appropriateness (scores ?r) + correctness (scores ?r)
                             + clarity (scores ?r) + coverage (scores ?r)) / 4)
       \<and> scores res = scores ?r
       \<and> feedback res = feedback ?r
       \<and> (pass_decision ?r = pass_decision res \<longrightarrow> res = ?r)
       \<and> (pass_decision ?r \<noteq> pass_decision res \<longrightarrow>
            summary res
              = summary ?r @ '' [Auto-corrected: ''
                @ join ''; ''
                    ((if age_appropriateness (scores ?r) < 4
                      then [threshold_reason ''age_appropriateness''
                              (age_appropriateness (scores ?r)) 4]
                      else [])
                     @ (if correctness (scores ?r) < 5
                        then [threshold_reason ''correctness'' (correctness (scores ?r)) 5]
                        else [])
                     @ (if clarity (scores ?r) < 4
                        then [threshold_reason ''clarity'' (clarity (scores ?r)) 4] else [])
                     @ (if coverage (scores ?r) < 3
                        then [threshold_reason ''coverage'' (coverage (scores ?r)) 3] else [])
                     @ (if avg_score (scores ?r) < min_average demo_reviewer
                        then [average_reason demo_reviewer (avg_score (scores ?r))] else []))
                @ '']'')" ..
  from R have res: "validate_pass_decision demo_reviewer ?r = Inr res" by (rule conjunct1)
  from R have p: "pass_decision res = False"
    by (simp add: sample_failing_review_def)
  from R have s: "scores res = scores sample_failing_review"
    and fb: "feedback res = feedback sample_failing_review"
    by simp_all
  from R p have sm: "summary res = ''Content needs significant improvement in age appropriateness and clarity. [Auto-corrected: age_appropriateness (3) below threshold (4); clarity (3) below threshold (4); Average score (3.8) below minimum (4.0)]''"
    by (simp add: m avg_score_def threshold_reason_def average_reason_def rendered_numbers
          sample_failing_review_def)
  from p s fb sm have e: "res = sample_failing_review\<lparr>summary := ''Content needs significant improvement in age appropriateness and clarity. [Auto-corrected: age_appropriateness (3) below threshold (4); clarity (3) below threshold (4); Average score (3.8) below minimum (4.0)]''\<rparr>"
    by (intro ReviewerOutput.equality) (simp_all add: sample_failing_review_def)
  have run: "BaseAgent_run demo_reviewer
       \<lparr>request_grade = grade sample_generator_input, request_topic = topic sample_generator_input,
        request_content = sample_valid_generator_output\<rparr> 1 [Inr (Some ''{...}'')]
     = (Inr ?r, [])"
    by (simp add: BaseAgent_run_def run_attempts.simps attempt_once_def call_llm_def
          parse_and_validate_def demo_reviewer_def scripted_create_def)
  show ?thesis
    using res e run by (simp add: ReviewerAgent_review_def)
qed

section \<open>The retry contract of a stage agent\<close>

lemma outcome_Suc: "outcome agent sp up (Suc i) w = outcome agent sp up i (snd (attempt_once agent sp up w))"
  by (simp add: outcome_def)

lemma recoverable_failureE:
  assumes "recoverable_failure nm r"
  obtains m where "r = Inl (AgentError m nm True)"
  using assms by (cases "(nm, r)" rule: recoverable_failure.cases) auto

lemma run_attempts_success:
  "k0 + int j \<le> max_retries \<Longrightarrow>
   (\<forall>i<j. recoverable_failure nm (outcome agent sp up i w)) \<Longrightarrow>
   outcome agent sp up j w = Inr v \<Longrightarrow>
   run_attempts agent sp up max_retries k0 le w = (Inr v, world_after agent sp up (Suc j) w)"
proof (induction j arbitrary: k0 le w)
  case 0
  obtain r w' where a: "attempt_once agent sp up w = (r, w')" by (cases "attempt_once agent sp up w")
  with 0 have "r = Inr v" by (simp add: outcome_def)
  with a 0 show ?case
    by (subst run_attempts.simps) simp
next
  case (Suc j)
  obtain r w' where a: "attempt_once agent sp up w = (r, w')" by (cases "attempt_once agent sp up w")
  from Suc.prems(2) have "recoverable_failure nm (outcome agent sp up 0 w)" by blast
  with a obtain m where r: "r = Inl (AgentError m nm True)"
    by (auto simp: outcome_def elim: recoverable_failureE)
  have ih: "run_attempts agent sp up max_retries (k0 + 1) (Some (AgentError m nm True)) w'
      = (Inr v, world_after agent sp up (Suc j) w')"
  proof (rule Suc.IH)
    show "k0 + 1 + int j \<le> max_retries" using Suc.prems(1) by simp
    show "\<forall>i<j. recoverable_failure nm (outcome agent sp up i w')"
    proof (intro allI impI)
      fix i assume "i < j"
      then have "recoverable_failure nm (outcome agent sp up (Suc i) w)" using Suc.prems(2) by simp
      then show "recoverable_failure nm (outcome agent sp up i w')" using a by (simp add: outcome_Suc)
    qed
    show "outcome agent sp up j w' = Inr v" using Suc.prems(3) a by (simp add: outcome_Suc)
  qed
  have k: "k0 < max_retries" using Suc.prems(1) by simp
  show ?case
    using a r ih k by (subst run_attempts.simps) simp
qed

lemma run_attempts_exhausted:
  "k0 + int j = max_retries \<Longrightarrow>
   (\<forall>i<j. recoverable_failure nm (outcome agent sp up i w)) \<Longrightarrow>
   outcome agent sp up j w = Inl (AgentError m nm True) \<Longrightarrow>
   run_attempts agent sp up max_retries k0 le w =
     (Inl (retries_exhausted agent max_retries (Some (AgentError m nm True))),
      world_after agent sp up (Suc j) w)"
proof (induction j arbitrary: k0 le w)
  case 0
  obtain r w' where a: "attempt_once agent sp up w = (r, w')" by (cases "attempt_once agent sp up w")
  with 0 have "r = Inl (AgentError m nm True)" by (simp add: outcome_def)
  with a 0 show ?case
    by (subst run_attempts.simps) simp
next
  case (Suc j)
  obtain r w' where a: "attempt_once agent sp up w = (r, w')" by (cases "attempt_once agent sp up w")
  from Suc.prems(2) have "recoverable_failure nm (outcome agent sp up 0 w)" by blast
  with a obtain m0 where r: "r = Inl (AgentError m0 nm True)"
    by (auto simp: outcome_def elim: recoverable_failureE)
  have ih: "run_attempts agent sp up max_retries (k0 + 1) (Some (AgentError m0 nm True)) w'
      = (Inl (retries_exhausted agent max_retries (Some (AgentError m nm True))),
         world_after agent sp up (Suc j) w')"
  proof (rule Suc.IH)
    show "k0 + 1 + int j = max_retries" using Suc.prems(1) by simp
    show "\<forall>i<j. recoverable_failure nm (outcome agent sp up i w')"
    proof (intro allI impI)
      fix i assume "i < j"
      then have "recoverable_failure nm (outcome agent sp up (Suc i) w)" using Suc.prems(2) by simp
      then show "recoverable_failure nm (outcome agent sp up i w')" using a by (simp add: outcome_Suc)
    qed
    show "outcome agent sp up j w' = Inl (AgentError m nm True)"
      using Suc.prems(3) a by (simp add: outcome_Suc)
  qed
  have k: "k0 < max_retries" using Suc.prems(1) by simp
  show ?case
    using a r ih k by (subst run_attempts.simps) simp
qed

lemma attempt_once_transport:
  "create agent (model_name agent) sp up w = (Inl e, w') \<Longrightarrow>
   attempt_once agent sp up w =
     (Inl (AgentError (''LLM call failed: '' @ exn_str e) (name agent) True), w')"
  by (simp add: attempt_once_def call_llm_def)

lemma attempt_once_json:
  "create agent (model_name agent) sp up w = (Inr (Some raw), w') \<Longrightarrow>
   json_loads agent raw = Inl (JSONDecodeError m) \<Longrightarrow>
   attempt_once agent sp up w =
     (Inl (AgentError (''Invalid JSON response: '' @ m) (name agent) True), w')"
  by (simp add: attempt_once_def call_llm_def parse_and_validate_def)

lemma attempt_once_schema:
  "create agent (model_name agent) sp up w = (Inr (Some raw), w') \<Longrightarrow>
   json_loads agent raw = Inr parsed \<Longrightarrow>
   output_schema agent parsed = Inl (ValidationError m) \<Longrightarrow>
   attempt_once agent sp up w =
     (Inl (AgentError (''Schema validation failed: '' @ m) (name agent) True), w')"
  by (simp add: attempt_once_def call_llm_def parse_and_validate_def)

lemma attempt_once_valid:
  "create agent (model_name agent) sp up w = (Inr (Some raw), w') \<Longrightarrow>
   json_loads agent raw = Inr parsed \<Longrightarrow>
   output_schema agent parsed = Inr v \<Longrightarrow>
   attempt_once agent sp up w = (Inr v, w')"
  by (simp add: attempt_once_def call_llm_def parse_and_validate_def)


text \<open>
  The retry loop.  A stage agent run with retry budget \<open>max_retries \<ge> 0\<close>, once its
  prompts are built: (1) when the attempts with loop indices below \<open>j \<le> max_retries\<close>
  all end in a recoverable failure and attempt \<open>j\<close> succeeds, the run returns that
  validated result and has made exactly \<open>j + 1\<close> attempts (the world is the one after
  \<open>j + 1\<close> attempts: nothing is tried after the success, and each failure is followed
  at once by the next attempt); (2) when all \<open>max_retries + 1\<close> attempts end in a
  recoverable failure, the run raises the terminal, non-recoverable \<open>AgentError\<close> whose
  message holds the attempt count \<open>max_retries + 1\<close> and the message of the last
  failure; (3) a transport failure, a JSON parse failure and a schema-validation failure
  are each a recoverable failure of the attempt.
\<close>

lemma BaseAgent_run_retry_contract:
  assumes "0 \<le> max_retries" and "build_user_prompt agent x = Inr up"
  shows
    "(\<forall>j v. int j \<le> max_retries
         \<and> (\<forall>i<j. recoverable_failure (name agent)
                      (outcome agent (build_system_prompt agent) up i w))
         \<and> outcome agent (build_system_prompt agent) up j w = Inr v
       \<longrightarrow> BaseAgent_run agent x max_retries w
             = (Inr v, world_after agent (build_system_prompt agent) up (Suc j) w))
     \<and> (\<forall>m. (\<forall>i<nat max_retries. recoverable_failure (name agent)
                      (outcome agent (build_system_prompt agent) up i w))
         \<and> outcome agent (build_system_prompt agent) up (nat max_retries) w
             = Inl (AgentError m (name agent) True)
       \<longrightarrow> BaseAgent_run agent x max_retries w
             = (Inl (AgentError (''Failed after '' @ str_int (max_retries + 1)
                                   @ '' attempts. Last error: '' @ m) (name agent) False),
                world_after agent (build_system_prompt agent) up (Suc (nat max_retries)) w))
     \<and> (\<forall>w0 w1 e. create agent (model_name agent) (build_system_prompt agent) up w0 = (Inl e, w1)
       \<longrightarrow> attempt_once agent (build_system_prompt agent) up w0
             = (Inl (AgentError (''LLM call failed: '' @ exn_str e) (name agent) True), w1))
     \<and> (\<forall>w0 w1 raw m. create agent (model_name agent) (build_system_prompt agent) up w0
               = (Inr (Some raw), w1)
         \<and> json_loads agent raw = Inl (JSONDecodeError m)
       \<longrightarrow> attempt_once agent (build_system_prompt agent) up w0
             = (Inl (AgentError (''Invalid JSON response: '' @ m) (name agent) True), w1))
     \<and> (\<forall>w0 w1 raw parsed m. create agent (model_name agent) (build_system_prompt agent) up w0
               = (Inr (Some raw), w1)
         \<and> json_loads agent raw = Inr parsed
         \<and> output_schema agent parsed = Inl (ValidationError m)
       \<longrightarrow> attempt_once agent (build_system_prompt agent) up w0
             = (Inl (AgentError (''Schema validation failed: '' @ m) (name agent) True), w1))"
proof (intro conjI allI impI)
  fix j v
  assume h: "int j \<le> max_retries
         \<and> (\<forall>i<j. recoverable_failure (name agent)
                      (outcome agent (build_system_prompt agent) up i w))
         \<and> outcome agent (build_system_prompt agent) up j w = Inr v"
  then have "run_attempts agent (build_system_prompt agent) up max_retries 0 None w
      = (Inr v, world_after agent (build_system_prompt agent) up (Suc j) w)"
    by (intro run_attempts_success [where nm = "name agent"]) auto
  then show "BaseAgent_run agent x max_retries w
             = (Inr v, world_after agent (build_system_prompt agent) up (Suc j) w)"
    using assms(2) by (simp add: BaseAgent_run_def)
next
  fix m
  assume h: "(\<forall>i<nat max_retries. recoverable_failure (name agent)
                      (outcome agent (build_system_prompt agent) up i w))
         \<and> outcome agent (build_system_prompt agent) up (nat max_retries) w
             = Inl (AgentError m (name agent) True)"
  have "run_attempts agent (build_system_prompt agent) up max_retries 0 None w
      = (Inl (retries_exhausted agent max_retries (Some (AgentError m (name agent) True))),
         world_after agent (build_system_prompt agent) up (Suc (nat max_retries)) w)"
    using h assms(1) by (intro run_attempts_exhausted) auto
  then show "BaseAgent_run agent x max_retries w
             = (Inl (AgentError (''Failed after '' @ str_int (max_retries + 1)
                                   @ '' attempts. Last error: '' @ m) (name agent) False),
                world_after agent (build_system_prompt agent) up (Suc (nat max_retries)) w)"
    using assms(2) by (simp add: BaseAgent_run_def retries_exhausted_def)
qed (auto simp: attempt_once_def call_llm_def parse_and_validate_def)

lemma demo_attempts:
  "attempt_once demo_agent ''system'' ''user'' [Inl (OtherError ''timeout''), Inr (Some ''12345'')]
     = (Inl (AgentError ''LLM call failed: timeout'' ''GeneratorAgent'' True), [Inr (Some ''12345'')])"
  "attempt_once demo_agent ''system'' ''user'' [Inr (Some ''12345'')] = (Inr 5, [])"
  "attempt_once demo_agent ''system'' ''user''
      [Inr (Some ''not json''), Inr (Some ''{}''), Inr (Some ''12345'')]
     = (Inl (AgentError ''Invalid JSON response: Expecting value'' ''GeneratorAgent'' True),
        [Inr (Some ''{}''), Inr (Some ''12345'')])"
  "attempt_once demo_agent ''system'' ''user'' [Inr (Some ''{}''), Inr (Some ''12345'')]
     = (Inl (AgentError ''Schema validation failed: Field required'' ''GeneratorAgent'' True),
        [Inr (Some ''12345'')])"
  by (simp_all add: attempt_once_def call_llm_def parse_and_validate_def
        demo_agent_def scripted_create_def)

lemma BaseAgent_run_retry_contract_demo:
  "BaseAgent_run demo_agent () 1 [Inl (OtherError ''timeout''), Inr (Some ''12345'')] = (Inr 5, [])
   \<and> BaseAgent_run demo_agent () 1
        [Inr (Some ''not json''), Inr (Some ''{}''), Inr (Some ''12345'')]
      = (Inl (AgentError
               ''Failed after 2 attempts. Last error: Schema validation failed: Field required''
               ''GeneratorAgent'' False),
         [Inr (Some ''12345'')])"
proof -
  let ?w1 = "[Inl (OtherError ''timeout''), Inr (Some ''12345'')]"
  let ?w2 = "[Inr (Some ''not json''), Inr (Some ''{}''), Inr (Some ''12345'')]"
  have h1: "(0::int) \<le> 1" by simp
  have h2: "build_user_prompt demo_agent () = Inr ''user''" by (simp add: demo_agent_def)
  have sp: "build_system_prompt demo_agent = ''system''" "name demo_agent = ''GeneratorAgent''"
    by (simp_all add: demo_agent_def)
  have s: "str_int 2 = ''2''" by code_simp
  have p1: "int (Suc 0) \<le> 1
         \<and> (\<forall>i<Suc 0. recoverable_failure (name demo_agent)
                      (outcome demo_agent (build_system_prompt demo_agent) ''user'' i ?w1))
         \<and> outcome demo_agent (build_system_prompt demo_agent) ''user'' (Suc 0) ?w1 = Inr 5"
    by (simp add: sp outcome_def demo_attempts)
  have p2: "(\<forall>i<nat 1. recoverable_failure (name demo_agent)
                      (outcome demo_agent (build_system_prompt demo_agent) ''user'' i ?w2))
         \<and> outcome demo_agent (build_system_prompt demo_agent) ''user'' (nat 1) ?w2
             = Inl (AgentError ''Schema validation failed: Field required'' (name demo_agent) True)"
    by (simp add: sp outcome_def demo_attempts)
  have a: "BaseAgent_run demo_agent () 1 ?w1
      = (Inr 5, world_after demo_agent (build_system_prompt demo_agent) ''user'' (Suc (Suc 0)) ?w1)"
    by (rule BaseAgent_run_retry_contract [OF h1 h2, of ?w1, THEN conjunct1, rule_format, OF p1])
  have b: "BaseAgent_run demo_agent () 1 ?w2
      = (Inl (AgentError (''Failed after '' @ str_int (1 + 1) @ '' attempts. Last error: ''
                            @ ''Schema validation failed: Field required'') (name demo_agent) False),
         world_after demo_agent (build_system_prompt demo_agent) ''user'' (Suc (nat 1)) ?w2)"
    by (rule BaseAgent_run_retry_contract
          [OF h1 h2, of ?w2, THEN conjunct2, THEN conjunct1, rule_format, OF p2])
  show ?thesis
    by (simp add: a b s sp demo_attempts)
qed

text \<open>
  Claim C4 does not hold of the code.  \<open>_parse_and_validate\<close> turns a
  \<open>JSONDecodeError\<close> and a \<open>ValidationError\<close> into a recoverable \<open>AgentError\<close>, and
  nothing else.  A response whose content is \<open>None\<close> makes \<open>json.loads\<close> raise
  \<open>TypeError\<close>, and a JSON text that is not an object makes
  \<open>self.output_schema(**parsed)\<close> raise \<open>TypeError\<close>; neither is an
  \<open>AgentError\<close>, so the loop of \<open>run\<close> does not catch it.  For every agent and every
  retry budget \<open>max_retries \<ge> 0\<close>, when the first response is of one of these two kinds,
  \<open>run\<close> raises that exception itself, after this one attempt: the failure is not
  retried, whatever budget is left, and no terminal \<open>AgentError\<close> with the attempt
  count is raised.
\<close>

theorem parse_failure_not_retried:
  assumes "0 \<le> max_retries" and "build_user_prompt agent x = Inr up"
    and "create agent (model_name agent) (build_system_prompt agent) up w = (Inr raw, w')"
  shows
    "(raw = None \<longrightarrow>
        BaseAgent_run agent x max_retries w
          = (Inl (OtherError ''the JSON object must be str, bytes or bytearray, not NoneType''),
             w'))
     \<and> (\<forall>text parsed m. raw = Some text \<and> json_loads agent text = Inr parsed
           \<and> output_schema agent parsed = Inl (OtherError m)
         \<longrightarrow> BaseAgent_run agent x max_retries w = (Inl (OtherError m), w'))"
  using assms
  by (simp add: BaseAgent_run_def run_attempts.simps [of _ _ _ _ 0] attempt_once_def
      call_llm_def parse_and_validate_def)

theorem parse_failure_not_retried_witness:
  "BaseAgent_run demo_agent () 1 [Inr None, Inr (Some ''12345'')]
     = (Inl (OtherError ''the JSON object must be str, bytes or bytearray, not NoneType''),
        [Inr (Some ''12345'')])
   \<and> BaseAgent_run demo_agent () 1 [Inr (Some ''[1, 2]''), Inr (Some ''12345'')]
     = (Inl (OtherError ''argument after ** must be a mapping, not list''),
        [Inr (Some ''12345'')])"
proof -
  let ?w1 = "[Inr None, Inr (Some ''12345'')]"
  let ?w2 = "[Inr (Some ''[1, 2]''), Inr (Some ''12345'')]"
  have h1: "(0::int) \<le> 1" by simp
  have h2: "build_user_prompt demo_agent () = Inr ''user''" by (simp add: demo_agent_def)
  have c1: "create demo_agent (model_name demo_agent) (build_system_prompt demo_agent) ''user'' ?w1
      = (Inr None, [Inr (Some ''12345'')])"
    by (simp add: demo_agent_def scripted_create_def)
  have c2: "create demo_agent (model_name demo_agent) (build_system_prompt demo_agent) ''user'' ?w2
      = (Inr (Some ''[1, 2]''), [Inr (Some ''12345'')])"
    by (simp add: demo_agent_def scripted_create_def)
  have p: "Some ''[1, 2]'' = Some ''[1, 2]'' \<and> json_loads demo_agent ''[1, 2]'' = Inr ''[1, 2]''
      \<and> output_schema demo_agent ''[1, 2]''
          = Inl (OtherError ''argument after ** must be a mapping, not list'')"
    by (simp add: demo_agent_def)
  have a: "BaseAgent_run demo_agent () 1 ?w1
      = (Inl (OtherError ''the JSON object must be str, bytes or bytearray, not NoneType''),
         [Inr (Some ''12345'')])"
    by (rule parse_failure_not_retried [OF h1 h2 c1, THEN conjunct1, rule_format]) simp
  have b: "BaseAgent_run demo_agent () 1 ?w2
      = (Inl (OtherError ''argument after ** must be a mapping, not list''),
         [Inr (Some ''12345'')])"
    by (rule parse_failure_not_retried [OF h1 h2 c2, THEN conjunct2, rule_format, OF p])
  from a b show ?thesis by simp
qed

section \<open>The rejection-reason summary\<close>

text \<open>
  Claim C8.  The summary of the last review in a rejection reason: with no review, or a
  review without feedback, it is the message that no feedback is available; when some
  feedback item is critical, it is the first up to three critical items, each rendered
  \<open>field: issue\<close>, joined with \<open>; \<close>; otherwise it is the first up to three
  items of any severity, rendered and joined the same way.
\<close>

theorem summarize_feedback_policy:
  "summarize_feedback None = ''No specific feedback available''
   \<and> (feedback r = [] \<longrightarrow> summarize_feedback (Some r) = ''No specific feedback available'')
   \<and> ((\<exists>f\<in>set (feedback r). severity f = critical) \<longrightarrow>
        summarize_feedback (Some r)
          = join ''; '' (map (\<lambda>f. field f @ '': '' @ issue f)
                          (take 3 (filter (\<lambda>f. severity f = critical) (feedback r)))))
   \<and> (feedback r \<noteq> [] \<and> (\<forall>f\<in>set (feedback r). severity f \<noteq> critical) \<longrightarrow>
        summarize_feedback (Some r)
          = join ''; '' (map (\<lambda>f. field f @ '': '' @ issue f) (take 3 (feedback r))))"
proof -
  have fmt: "format_feedback = (\<lambda>f. field f @ '': '' @ issue f)"
    by (rule ext) (simp add: format_feedback_def)
  have a: "(\<exists>f\<in>set (feedback r). severity f = critical) \<Longrightarrow>
      filter (\<lambda>f. severity f = critical) (feedback r) \<noteq> [] \<and> feedback r \<noteq> []"
    by (auto simp: filter_empty_conv)
  have b: "(\<forall>f\<in>set (feedback r). severity f \<noteq> critical) \<Longrightarrow>
      filter (\<lambda>f. severity f = critical) (feedback r) = []"
    by (simp add: filter_empty_conv)
  show ?thesis
    unfolding summarize_feedback_def fmt Let_def
    using a b by simp
qed

theorem summarize_feedback_policy_witness:
  "summarize_feedback (Some sample_failing_review)
     = ''explanation.text: Vocabulary too complex for Grade 5''
   \<and> summarize_feedback (Some sample_passing_review)
     = ''explanation.text: Could include more visual examples''"
proof -
  have c: "\<exists>f\<in>set (feedback sample_failing_review). severity f = critical"
    by (simp add: sample_failing_review_def)
  have n: "feedback sample_passing_review \<noteq> []
      \<and> (\<forall>f\<in>set (feedback sample_passing_review). severity f \<noteq> critical)"
    by (simp add: sample_passing_review_def)
  have a: "summarize_feedback (Some sample_failing_review)
      = join ''; '' (map (\<lambda>f. field f @ '': '' @ issue f)
           (take 3 (filter (\<lambda>f. severity f = critical) (feedback sample_failing_review))))"
    by (rule summarize_feedback_policy
          [of sample_failing_review, THEN conjunct2, THEN conjunct2, THEN conjunct1, rule_format, OF c])
  have b: "summarize_feedback (Some sample_passing_review)
      = join ''; '' (map (\<lambda>f. field f @ '': '' @ issue f) (take 3 (feedback sample_passing_review)))"
    by (rule summarize_feedback_policy
          [of sample_passing_review, THEN conjunct2, THEN conjunct2, THEN conjunct2, rule_format, OF n])
  show ?thesis
    unfolding a b by (simp add: sample_failing_review_def sample_passing_review_def)
qed

section \<open>Finalization\<close>

text \<open>
  Claim C6, as amended.  On every exit path of \<open>run\<close>, the returned artifact has
  \<open>finished_at\<close> set to the clock reading taken in the \<open>finally\<close> block and
  \<open>duration_seconds\<close> set to that reading minus \<open>started_at\<close>, the reading
  taken when the run began; the duration is non-negative whenever the clock did not step
  back between the two readings.
\<close>

theorem run_always_finalized:
  "\<exists>t. finished_at (timestamps (artifact (run orch inp uid w))) = Some t
       \<and> started_at (timestamps (artifact (run orch inp uid w))) = fst (utcnow orch w)
       \<and> duration_seconds (timestamps (artifact (run orch inp uid w)))
           = Some (of_int (t - fst (utcnow orch w)) / 1000000)
       \<and> (fst (utcnow orch w) \<le> t \<longrightarrow>
            (0::rat) \<le> of_int (t - fst (utcnow orch w)) / 1000000)"
proof -
  from run_is_finalize [of orch inp uid w] obtain s where
    r: "run orch inp uid w = finalize orch s"
    and s: "started_at (timestamps (artifact s)) = fst (utcnow orch w)" by blast
  show ?thesis
    unfolding r by (rule exI [where x = "fst (utcnow orch (world s))"]) (simp add: s)
qed

theorem run_always_finalized_witness:
  "finished_at (timestamps (artifact
      (run (scripted_orchestrator 2) sample_generator_input None world_pass_first)))
     = Some 12500000
   \<and> duration_seconds (timestamps (artifact
      (run (scripted_orchestrator 2) sample_generator_input None world_pass_first)))
     = Some (5 / 2)"
proof -
  let ?out = "run (scripted_orchestrator 2) sample_generator_input None world_pass_first"
  have c: "fst (utcnow (scripted_orchestrator 2) world_pass_first) = 10000000"
    by (simp add: scripted_orchestrator_def worlds)
  have f: "finished_at (timestamps (artifact ?out)) = Some 12500000"
    by (simp add: run_eval worlds)
  from run_always_finalized [of "scripted_orchestrator 2" sample_generator_input None world_pass_first]
  obtain t where t: "finished_at (timestamps (artifact ?out)) = Some t"
    and d: "duration_seconds (timestamps (artifact ?out))
           = Some (of_int (t - fst (utcnow (scripted_orchestrator 2) world_pass_first)) / 1000000)"
    by blast
  from t f have "t = 12500000" by simp
  with d c have "duration_seconds (timestamps (artifact ?out)) = Some (5 / 2)" by simp
  with f show ?thesis by simp
qed

text \<open>
  The claim as stated, with the duration never negative, fails when the wall clock is set
  back during the run: \<open>datetime.utcnow\<close> is read twice and the readings subtracted.
\<close>

theorem duration_negative_counterexample:
  "final (artifact (run (scripted_orchestrator 2) sample_generator_input None world_clock_back))
     = Some \<lparr>status = approved, content = Some sample_valid_generator_output,
             tags = Some sample_tags, rejection_reason = None\<rparr>
   \<and> started_at (timestamps (artifact
        (run (scripted_orchestrator 2) sample_generator_input None world_clock_back))) = 10000000
   \<and> finished_at (timestamps (artifact
        (run (scripted_orchestrator 2) sample_generator_input None world_clock_back)))
       = Some 5000000
   \<and> duration_seconds (timestamps (artifact
        (run (scripted_orchestrator 2) sample_generator_input None world_clock_back)))
       = Some (- 5)
   \<and> (- 5 :: rat) < 0"
  by (simp add: run_eval worlds)

section \<open>No exception leaves \<open>run\<close>\<close>

lemma review_loop_raised:
  assumes "review_loop orch inp n c s = (res, s')" and "raised (calls s) = []"
  shows "case res of Inl e \<Rightarrow> set (raised (calls s')) \<subseteq> {e} | Inr p \<Rightarrow> raised (calls s') = []"
proof (rule review_loop_rule [OF assms(1),
    where I = "\<lambda>n c s. raised (calls s) = []"
      and Q = "\<lambda>res s. case res of Inl e \<Rightarrow> set (raised (calls s)) \<subseteq> {e}
                          | Inr p \<Rightarrow> raised (calls s) = []"])
  show "raised (calls s) = []" by (rule assms(2))
next
  fix n c s rc s1
  assume "raised (calls s) = []" and "loop_body orch inp n c s = (Continue rc, s1)"
  then show "raised (calls s1) = []" by (auto elim!: loop_body_cases)
next
  fix n c s e s1
  assume "raised (calls s) = []" and "loop_body orch inp n c s = (Raise e, s1)"
  then show "case Inl e of Inl e \<Rightarrow> set (raised (calls s1)) \<subseteq> {e}
               | Inr p \<Rightarrow> raised (calls s1) = []"
    by (auto elim!: loop_body_cases)
next
  fix n c s fc fr s1
  assume "raised (calls s) = []" and "loop_body orch inp n c s = (Break fc fr, s1)"
  then show "case Inr (fc, fr) of Inl e \<Rightarrow> set (raised (calls s1)) \<subseteq> {e}
               | Inr p \<Rightarrow> raised (calls s1) = []"
    by (auto elim!: loop_body_cases)
next
  fix n c s
  assume "raised (calls s) = []"
  then show "case Inr (None, None) of Inl e \<Rightarrow> set (raised (calls s)) \<subseteq> {e}
               | Inr p \<Rightarrow> raised (calls s) = []"
    by simp
qed

lemma run_raised:
  assumes "e \<in> set (raised (calls (run orch inp uid w)))"
  shows "fst (run_body orch inp (initial_state orch inp uid w)) = Inl e"
proof (cases rule: run_cases [of orch w inp uid])
  case (generator_raises t0 w1 rid w2 e' w3)
  with assms show ?thesis by simp
next
  case (loop_raises t0 w1 rid w2 c w3 e' s2)
  from review_loop_raised [OF loop_raises(4)] have "set (raised (calls s2)) \<subseteq> {e'}" by simp
  with assms loop_raises(5,6) show ?thesis by auto
next
  case (review_failed t0 w1 rid w2 c w3 fr s2)
  from review_loop_raised [OF review_failed(4)] have "raised (calls s2) = []" by simp
  with assms review_failed(6) show ?thesis by simp
next
  case (tagger_raises t0 w1 rid w2 c w3 d fr s2 e' w4)
  from review_loop_raised [OF tagger_raises(4)] have "raised (calls s2) = []" by simp
  with assms tagger_raises(6,7) show ?thesis by simp
next
  case (tagged t0 w1 rid w2 c w3 d fr s2 tg w4)
  from review_loop_raised [OF tagged(4)] have "raised (calls s2) = []" by simp
  with assms tagged(7) show ?thesis by simp
qed

text \<open>
  Claim C5.  \<open>run\<close> always returns an artifact whose \<open>final\<close> is set, to approved
  or to rejected.  When an exception leaves the \<open>try\<close> block, \<open>final\<close> is
  rejected, without content or tags, and its reason is \<open>Pipeline error: \<close> (for an
  \<open>AgentError\<close>) or \<open>Unexpected error: \<close> (for any other exception) followed by the
  exception's message.  Every exception raised by a call to the generator, the reviewer,
  the refiner or the tagger during the run is the exception that left the \<open>try\<close>
  block: none is swallowed, and none reaches the caller.
\<close>

theorem run_never_raises:
  "(\<exists>f. final (artifact (run orch inp uid w)) = Some f
         \<and> (status f = approved \<or> status f = rejected))
   \<and> (\<forall>e. fst (run_body orch inp (initial_state orch inp uid w)) = Inl e \<longrightarrow>
          final (artifact (run orch inp uid w))
            = Some \<lparr>status = rejected, content = None, tags = None,
                    rejection_reason =
                      Some ((if is_AgentError e then ''Pipeline error: ''
                             else ''Unexpected error: '') @ exn_str e)\<rparr>)
   \<and> (\<forall>e \<in> set (raised (calls (run orch inp uid w))).
          fst (run_body orch inp (initial_state orch inp uid w)) = Inl e)"
proof (intro conjI allI impI ballI)
  show "\<exists>f. final (artifact (run orch inp uid w)) = Some f
         \<and> (status f = approved \<or> status f = rejected)"
  proof (cases rule: run_cases [of orch w inp uid])
    case (generator_raises t0 w1 rid w2 e w3)
    then show ?thesis by (simp add: handle_exn_def)
  next
    case (loop_raises t0 w1 rid w2 c w3 e s2)
    then show ?thesis by (simp add: handle_exn_def)
  next
    case (review_failed t0 w1 rid w2 c w3 fr s2)
    then show ?thesis by simp
  next
    case (tagger_raises t0 w1 rid w2 c w3 d fr s2 e w4)
    then show ?thesis by (simp add: handle_exn_def)
  next
    case (tagged t0 w1 rid w2 c w3 d fr s2 tg w4)
    then show ?thesis by simp
  qed
next
  fix e
  assume a: "fst (run_body orch inp (initial_state orch inp uid w)) = Inl e"
  obtain r s where b: "run_body orch inp (initial_state orch inp uid w) = (r, s)"
    by (cases "run_body orch inp (initial_state orch inp uid w)")
  with a have "r = Inl e" by simp
  with b show "final (artifact (run orch inp uid w))
            = Some \<lparr>status = rejected, content = None, tags = None,
                    rejection_reason =
                      Some ((if is_AgentError e then ''Pipeline error: ''
                             else ''Unexpected error: '') @ exn_str e)\<rparr>"
    by (simp add: run_def handle_exn_def)
next
  fix e
  assume "e \<in> set (raised (calls (run orch inp uid w)))"
  then show "fst (run_body orch inp (initial_state orch inp uid w)) = Inl e"
    by (rule run_raised)
qed

theorem run_never_raises_witness:
  "raised (calls (run (scripted_orchestrator 2) sample_generator_input None world_generator_fails))
     = [generator_failure]
   \<and> final (artifact
        (run (scripted_orchestrator 2) sample_generator_input None world_generator_fails))
     = Some \<lparr>status = rejected, content = None, tags = None,
             rejection_reason = Some ''Pipeline error: [GeneratorAgent] Failed after 2 attempts. Last error: Invalid JSON response: Expecting value''\<rparr>"
proof -
  let ?orch = "scripted_orchestrator 2"
  have r: "raised (calls (run ?orch sample_generator_input None world_generator_fails))
     = [generator_failure]"
    by (simp add: run_eval worlds)
  then have "generator_failure
      \<in> set (raised (calls (run ?orch sample_generator_input None world_generator_fails)))"
    by simp
  with run_never_raises [of ?orch sample_generator_input None world_generator_fails]
  have t: "fst (run_body ?orch sample_generator_input
               (initial_state ?orch sample_generator_input None world_generator_fails))
         = Inl generator_failure"
    by blast
  with run_never_raises [of ?orch sample_generator_input None world_generator_fails]
  have "final (artifact (run ?orch sample_generator_input None world_generator_fails))
            = Some \<lparr>status = rejected, content = None, tags = None,
                    rejection_reason =
                      Some ((if is_AgentError generator_failure then ''Pipeline error: ''
                             else ''Unexpected error: '') @ exn_str generator_failure)\<rparr>"
    by blast
  with r show ?thesis by (simp add: generator_failure_def)
qed

section \<open>The attempt records\<close>

lemma chained_snoc:
  "chained (A @ [a]) = (chained A \<and> (A \<noteq> [] \<longrightarrow> refined (last A) = Some (draft a)))"
  by (induction A rule: chained.induct) auto

lemma chained_nth:
  "chained A \<Longrightarrow> Suc i < length A \<Longrightarrow> refined (A ! i) = Some (draft (A ! Suc i))"
proof (induction A arbitrary: i rule: chained.induct)
  case (3 a b rest)
  then show ?case by (cases i) auto
qed auto

lemma review_loop_attempts_inv:
  assumes "review_loop orch inp n c s = (res, s')"
    and "attempts_inv orch inp (attempts (artifact s)) (calls s)"
    and "attempts (artifact s) \<noteq> [] \<longrightarrow> refined (last (attempts (artifact s))) = Some c"
  shows "attempts_inv orch inp (attempts (artifact s')) (calls s')"
proof (rule review_loop_rule [OF assms(1),
    where I = "\<lambda>n c s. attempts_inv orch inp (attempts (artifact s)) (calls s)
                 \<and> (attempts (artifact s) \<noteq> []
                      \<longrightarrow> refined (last (attempts (artifact s))) = Some c)"
      and Q = "\<lambda>res s. attempts_inv orch inp (attempts (artifact s)) (calls s)"])
  show "attempts_inv orch inp (attempts (artifact s)) (calls s)
      \<and> (attempts (artifact s) \<noteq> [] \<longrightarrow> refined (last (attempts (artifact s))) = Some c)"
    using assms(2,3) by simp
next
  fix n c s rc s1
  assume "attempts_inv orch inp (attempts (artifact s)) (calls s)
      \<and> (attempts (artifact s) \<noteq> [] \<longrightarrow> refined (last (attempts (artifact s))) = Some c)"
    and "loop_body orch inp n c s = (Continue rc, s1)"
  then show "attempts_inv orch inp (attempts (artifact s1)) (calls s1)
      \<and> (attempts (artifact s1) \<noteq> [] \<longrightarrow> refined (last (attempts (artifact s1))) = Some rc)"
    by (auto elim!: loop_body_cases simp: attempts_inv_def chained_snoc)
next
  fix n c s e s1
  assume "attempts_inv orch inp (attempts (artifact s)) (calls s)
      \<and> (attempts (artifact s) \<noteq> [] \<longrightarrow> refined (last (attempts (artifact s))) = Some c)"
    and "loop_body orch inp n c s = (Raise e, s1)"
  then show "attempts_inv orch inp (attempts (artifact s1)) (calls s1)"
    by (auto elim!: loop_body_cases simp: attempts_inv_def chained_snoc)
next
  fix n c s fc fr s1
  assume "attempts_inv orch inp (attempts (artifact s)) (calls s)
      \<and> (attempts (artifact s) \<noteq> [] \<longrightarrow> refined (last (attempts (artifact s))) = Some c)"
    and "loop_body orch inp n c s = (Break fc fr, s1)"
  then show "attempts_inv orch inp (attempts (artifact s1)) (calls s1)"
    by (auto elim!: loop_body_cases simp: attempts_inv_def chained_snoc)
qed simp


lemma review_loop_first_pass:
  assumes "review_loop orch inp n c s = (res, s')"
    and "review_results (calls s) = []" and "attempts (artifact s) = []"
    and "review_results (calls s') = Inr r # rest" and "pass_decision r"
  shows "\<exists>t. attempts (artifact s')
            = [\<lparr>attempt = n, draft = c, review = r, refined = None, timestamp = t\<rparr>]"
proof (cases "n \<le> max_refinements orch + 1")
  case False
  with assms(1) have "s' = s" by (simp add: review_loop.simps)
  with assms(2,4) show ?thesis by simp
next
  case True
  obtain it s1 where b: "loop_body orch inp n c s = (it, s1)"
    by (cases "loop_body orch inp n c s")
  from b show ?thesis
  proof (cases rule: loop_body_cases)
    case (review_raises e w1)
    with assms(1) True b have "s' = s1" by (simp add: review_loop.simps)
    with review_raises assms(2,4) show ?thesis by simp
  next
    case (passes rv t)
    with assms(1) True b have "s' = s1" by (simp add: review_loop.simps)
    with passes assms(2,3,4) show ?thesis by simp
  next
    case (exhausted rv t)
    with assms(1) True b have "s' = s1" by (simp add: review_loop.simps)
    with exhausted assms(2,4,5) show ?thesis by simp
  next
    case (invalid_input rv)
    with assms(1) True b have "s' = s1" by (simp add: review_loop.simps)
    with invalid_input assms(2,4,5) show ?thesis by simp
  next
    case (refine_raises rv e)
    with assms(1) True b have "s' = s1" by (simp add: review_loop.simps)
    with refine_raises assms(2,4,5) show ?thesis by simp
  next
    case (refined rv t rc)
    with assms(1) True b have "review_loop orch inp (n + 1) rc s1 = (res, s')"
      by (simp add: review_loop.simps)
    from review_loop_frame [OF this] obtain cs where "calls s' = calls s1 @ cs" by blast
    with refined assms(2,4,5) show ?thesis by simp
  qed
qed

lemma run_attempts_inv:
  "attempts_inv orch inp (attempts (artifact (run orch inp uid w))) (calls (run orch inp uid w))"
proof -
  have i: "\<And>cs. attempts_inv orch inp [] cs" by (simp add: attempts_inv_def)
  have m: "\<And>A cs c. attempts_inv orch inp A cs \<Longrightarrow> attempts_inv orch inp A (cs @ [c])"
    by (auto simp: attempts_inv_def)
  show ?thesis
  proof (cases rule: run_cases [of orch w inp uid])
    case (generator_raises t0 w1 rid w2 e w3)
    then show ?thesis by (simp add: i)
  next
    case (loop_raises t0 w1 rid w2 c w3 e s2)
    from review_loop_attempts_inv [OF loop_raises(4)] loop_raises(6) show ?thesis by (simp add: i)
  next
    case (review_failed t0 w1 rid w2 c w3 fr s2)
    from review_loop_attempts_inv [OF review_failed(4)] review_failed(6) show ?thesis
      by (simp add: i)
  next
    case (tagger_raises t0 w1 rid w2 c w3 d fr s2 e w4)
    from review_loop_attempts_inv [OF tagger_raises(4)] tagger_raises(7) show ?thesis
      by (simp add: i m)
  next
    case (tagged t0 w1 rid w2 c w3 d fr s2 tg w4)
    from review_loop_attempts_inv [OF tagged(4)] tagged(7) show ?thesis
      by (simp add: i m)
  qed
qed

lemma run_first_pass:
  assumes "review_results (calls (run orch inp uid w)) = Inr r # rest" and "pass_decision r"
  shows "\<exists>a. attempts (artifact (run orch inp uid w)) = [a] \<and> attempt a = 1 \<and> review a = r
           \<and> refined a = None"
proof (cases rule: run_cases [of orch w inp uid])
  case (generator_raises t0 w1 rid w2 e w3)
  with assms show ?thesis by simp
next
  case (loop_raises t0 w1 rid w2 c w3 e s2)
  from review_loop_first_pass [OF loop_raises(4) _ _ _ assms(2), of rest] assms(1) loop_raises(6)
  show ?thesis by auto
next
  case (review_failed t0 w1 rid w2 c w3 fr s2)
  from review_loop_first_pass [OF review_failed(4) _ _ _ assms(2), of rest] assms(1) review_failed(6)
  show ?thesis by auto
next
  case (tagger_raises t0 w1 rid w2 c w3 d fr s2 e w4)
  from review_loop_first_pass [OF tagger_raises(4) _ _ _ assms(2), of rest] assms(1) tagger_raises(7)
  show ?thesis by auto
next
  case (tagged t0 w1 rid w2 c w3 d fr s2 tg w4)
  from review_loop_first_pass [OF tagged(4) _ _ _ assms(2), of rest] assms(1) tagged(7)
  show ?thesis by auto
qed

text \<open>
  Claim C7.  In the artifact of every run: a record has a refined draft exactly when its
  review failed and its attempt number is within the refinement ceiling (budget remained);
  the refined draft of a record is the draft of the record after it, and is what the
  refiner returned when called on that record's draft and feedback; and when the first
  review passes, there is exactly one record, numbered 1, without a refined draft.
\<close>

theorem refined_present_iff:
  "(\<forall>a \<in> set (attempts (artifact (run orch inp uid w))).
       (refined a \<noteq> None)
         = (\<not> pass_decision (review a) \<and> attempt a \<le> max_refinements orch))
   \<and> (\<forall>i. Suc i < length (attempts (artifact (run orch inp uid w))) \<longrightarrow>
          refined (attempts (artifact (run orch inp uid w)) ! i)
            = Some (draft (attempts (artifact (run orch inp uid w)) ! Suc i)))
   \<and> (\<forall>a \<in> set (attempts (artifact (run orch inp uid w))). \<forall>d. refined a = Some d \<longrightarrow>
          RefinerRun \<lparr>original_input = inp, current_content = draft a,
                      refiner_feedback = feedback (review a), attempt_number = attempt a\<rparr>
            (Inr d) \<in> set (calls (run orch inp uid w)))
   \<and> (\<forall>r rest. review_results (calls (run orch inp uid w)) = Inr r # rest \<and> pass_decision r
          \<longrightarrow> (\<exists>a. attempts (artifact (run orch inp uid w)) = [a] \<and> attempt a = 1
                 \<and> review a = r \<and> refined a = None))"
proof -
  note inv = run_attempts_inv [of orch inp uid w, unfolded attempts_inv_def]
  show ?thesis
  proof (intro conjI allI impI)
    show "\<forall>a \<in> set (attempts (artifact (run orch inp uid w))).
       (refined a \<noteq> None)
         = (\<not> pass_decision (review a) \<and> attempt a \<le> max_refinements orch)"
      using inv by blast
  next
    fix i assume "Suc i < length (attempts (artifact (run orch inp uid w)))"
    with inv show "refined (attempts (artifact (run orch inp uid w)) ! i)
            = Some (draft (attempts (artifact (run orch inp uid w)) ! Suc i))"
      by (intro chained_nth) auto
  next
    show "\<forall>a \<in> set (attempts (artifact (run orch inp uid w))). \<forall>d. refined a = Some d \<longrightarrow>
          RefinerRun \<lparr>original_input = inp, current_content = draft a,
                      refiner_feedback = feedback (review a), attempt_number = attempt a\<rparr>
            (Inr d) \<in> set (calls (run orch inp uid w))"
      using inv by blast
  next
    fix r rest
    assume h: "review_results (calls (run orch inp uid w)) = Inr r # rest \<and> pass_decision r"
    show "\<exists>a. attempts (artifact (run orch inp uid w)) = [a] \<and> attempt a = 1
                 \<and> review a = r \<and> refined a = None"
      by (rule run_first_pass [OF conjunct1 [OF h] conjunct2 [OF h]])
  qed
qed

theorem refined_present_iff_witness:
  "map refined (attempts (artifact
       (run (scripted_orchestrator 2) sample_generator_input None world_fail_then_pass)))
     = [Some sample_valid_generator_output, None]
   \<and> refined (attempts (artifact
       (run (scripted_orchestrator 2) sample_generator_input None world_fail_then_pass)) ! 0)
     = Some (draft (attempts (artifact
       (run (scripted_orchestrator 2) sample_generator_input None world_fail_then_pass)) ! Suc 0))
   \<and> (\<exists>a. attempts (artifact
           (run (scripted_orchestrator 2) sample_generator_input None world_pass_first)) = [a]
         \<and> attempt a = 1 \<and> review a = sample_passing_review \<and> refined a = None)"
proof -
  let ?o2 = "run (scripted_orchestrator 2) sample_generator_input None world_fail_then_pass"
  let ?o1 = "run (scripted_orchestrator 2) sample_generator_input None world_pass_first"
  have m: "map refined (attempts (artifact ?o2)) = [Some sample_valid_generator_output, None]"
    by (simp add: run_eval worlds)
  then have "length (map refined (attempts (artifact ?o2))) = 2" by simp
  then have l: "Suc 0 < length (attempts (artifact ?o2))" by simp
  have c: "refined (attempts (artifact ?o2) ! 0) = Some (draft (attempts (artifact ?o2) ! Suc 0))"
    by (rule refined_present_iff [of "scripted_orchestrator 2" sample_generator_input None
          world_fail_then_pass, THEN conjunct2, THEN conjunct1, rule_format, OF l])
  have r: "review_results (calls ?o1) = Inr sample_passing_review # [] \<and> pass_decision sample_passing_review"
    by (simp add: run_eval worlds)
  have p: "\<exists>a. attempts (artifact ?o1) = [a] \<and> attempt a = 1 \<and> review a = sample_passing_review
      \<and> refined a = None"
    by (rule refined_present_iff [of "scripted_orchestrator 2" sample_generator_input None
          world_pass_first, THEN conjunct2, THEN conjunct2, THEN conjunct2, rule_format, OF r])
  from m c p show ?thesis by simp
qed

section \<open>Tagging\<close>

lemma tagger_run_TaggerAgent:
  assumes "tagger orch = TaggerAgent dumps"
  shows "tagger_run orch i c w = (Inl (not_subscriptable ''GeneratorInput''), w)"
  using assms
  by (simp add: tagger_run_def TaggerAgent_run_def TaggerAgent_build_user_prompt_def)

text \<open>
  Claim C1 does not hold of the code.  With the tagger that \<open>Orchestrator.__init__\<close>
  builds, \<open>_tag\<close> calls \<open>BaseAgent.run\<close> with the request where the \<open>dict\<close> of
  \<open>TaggerAgent.tag\<close> is expected and the draft where the retry budget is expected, and
  the call raises \<open>TypeError\<close> before any request to the language model.  So in every
  run in which a review passes, the tagger is invoked once, on the draft of the last
  attempt record, whose review is the passing one; that call raises; and \<open>final\<close> is
  rejected, with no content, no tags and the reason
  \<open>Unexpected error: 'GeneratorInput' object is not subscriptable\<close>.  No run at all
  ends approved.
\<close>

theorem tag_raises_on_passing_review:
  fixes orch :: "'w Orchestrator"
  assumes "tagger orch = TaggerAgent dumps"
  shows "(list_ex passing_review (review_results (calls (run orch inp uid w))) \<longrightarrow>
        tagger_calls (calls (run orch inp uid w))
          = [(inp, draft (last (attempts (artifact (run orch inp uid w)))),
              Inl (not_subscriptable ''GeneratorInput''))]
        \<and> attempts (artifact (run orch inp uid w)) \<noteq> []
        \<and> pass_decision (review (last (attempts (artifact (run orch inp uid w)))))
        \<and> final (artifact (run orch inp uid w))
            = Some \<lparr>status = rejected, content = None, tags = None,
                    rejection_reason =
                      Some (''Unexpected error: '' @ [CHR 0x27] @ ''GeneratorInput''
                            @ [CHR 0x27] @ '' object is not subscriptable'')\<rparr>)
   \<and> (\<exists>reason. final (artifact (run orch inp uid w))
          = Some \<lparr>status = rejected, content = None, tags = None,
                  rejection_reason = Some reason\<rparr>)"
proof (cases rule: run_cases [of orch w inp uid])
  case (generator_raises t0 w1 rid w2 e w3)
  then show ?thesis by (simp add: handle_exn_def)
next
  case (loop_raises t0 w1 rid w2 c w3 e s2)
  from review_loop_tagging [OF loop_raises(4)] loop_raises(6) show ?thesis
    by (simp add: handle_exn_def)
next
  case (review_failed t0 w1 rid w2 c w3 fr s2)
  from review_loop_tagging [OF review_failed(4)] review_failed(6) show ?thesis
    by simp
next
  case (tagger_raises t0 w1 rid w2 c w3 d fr s2 e w4)
  from tagger_raises(5) tagger_run_TaggerAgent [OF assms, of inp d "world s2"]
  have e: "e = not_subscriptable ''GeneratorInput''" by simp
  from review_loop_tagging [OF tagger_raises(4)] tagger_raises(7) e show ?thesis
    by (simp add: handle_exn_def not_subscriptable_def)
next
  case (tagged t0 w1 rid w2 c w3 d fr s2 tg w4)
  from tagged(5) tagger_run_TaggerAgent [OF assms, of inp d "world s2"]
  show ?thesis by simp
qed

theorem tag_raises_on_passing_review_witness:
  "review_results
       (calls (run (unpatched_orchestrator 2) sample_generator_input None world_pass_first))
     = [Inr sample_passing_review]
   \<and> pass_decision sample_passing_review
   \<and> tagger_calls
       (calls (run (unpatched_orchestrator 2) sample_generator_input None world_pass_first))
     = [(sample_generator_input, sample_valid_generator_output,
         Inl (OtherError ([CHR 0x27] @ ''GeneratorInput'' @ [CHR 0x27]
                          @ '' object is not subscriptable'')))]
   \<and> final (artifact
       (run (unpatched_orchestrator 2) sample_generator_input None world_pass_first))
     = Some \<lparr>status = rejected, content = None, tags = None,
             rejection_reason =
               Some (''Unexpected error: '' @ [CHR 0x27] @ ''GeneratorInput''
                     @ [CHR 0x27] @ '' object is not subscriptable'')\<rparr>"
proof -
  let ?o = "run (unpatched_orchestrator 2) sample_generator_input None world_pass_first"
  have h: "tagger (unpatched_orchestrator 2) = TaggerAgent (\<lambda>c. ''{}'')"
    by (simp add: unpatched_orchestrator_def)
  have r: "review_results (calls ?o) = [Inr sample_passing_review]"
    by (simp add: run_eval worlds)
  have d: "draft (last (attempts (artifact ?o))) = sample_valid_generator_output"
    by (simp add: run_eval worlds)
  have p: "list_ex passing_review (review_results (calls ?o))"
    by (simp add: r)
  note T = tag_raises_on_passing_review
    [OF h, of sample_generator_input None world_pass_first, THEN conjunct1, rule_format, OF p]
  from T r d show ?thesis by (simp add: not_subscriptable_def)
qed

section \<open>Rejection after the refinement ceiling\<close>

lemma failed_reason_nonempty [simp]:
  "failed_review_reason art fr \<noteq> []"
  "rejection_reason (handle_exn e) = Some r \<Longrightarrow> r \<noteq> []"
  by (auto simp: failed_review_reason_def handle_exn_def split: if_splits)

text \<open>
  When the reviews of a run number ceiling + 1 and all fail, the records and the final
  result are these.
\<close>

lemma run_all_fail_counted:
  fixes orch :: "'w Orchestrator"
  assumes "list_all failing_review (review_results (calls (run orch inp uid w)))"
    and "int (length (review_results (calls (run orch inp uid w)))) = max_refinements orch + 1"
  shows "int (length (attempts (artifact (run orch inp uid w)))) = max_refinements orch + 1
     \<and> map attempt (attempts (artifact (run orch inp uid w))) = [1..max_refinements orch + 1]
     \<and> tagger_calls (calls (run orch inp uid w)) = []
     \<and> (\<exists>reason. final (artifact (run orch inp uid w))
            = Some \<lparr>status = rejected, content = None, tags = None,
                    rejection_reason = Some reason\<rparr>
          \<and> reason \<noteq> []
          \<and> (0 \<le> max_refinements orch \<longrightarrow>
               reason = ''Failed review after '' @ str_int (max_refinements orch + 1)
                   @ '' attempts. Final issues: ''
                   @ summarize_feedback
                       (Some (review (last (attempts (artifact (run orch inp uid w))))))))"
proof (cases rule: run_cases [of orch w inp uid])
  case (generator_raises t0 w1 rid w2 e w3)
  with assms(2) have "max_refinements orch = - 1" by simp
  with generator_raises show ?thesis by (simp add: handle_exn_def)
next
  case (loop_raises t0 w1 rid w2 c w3 e s2)
  from loop_raises(6) assms have "list_all failing_review (review_results (calls s2))"
    "int (length (review_results (calls s2))) = max_refinements orch + 1" by simp_all
  from review_loop_all_fail [OF loop_raises(4) _ _ _ _ this] show ?thesis by simp
next
  case (review_failed t0 w1 rid w2 c w3 fr s2)
  from review_failed(6) assms have h: "list_all failing_review (review_results (calls s2))"
    "int (length (review_results (calls s2))) = max_refinements orch + 1" by simp_all
  from review_loop_all_fail [OF review_failed(4) _ _ _ _ h]
  have m: "map attempt (attempts (artifact s2)) = [1..max_refinements orch + 1]"
    and fr: "fr = (if attempts (artifact s2) = [] then None
                   else Some (review (last (attempts (artifact s2)))))"
    by simp_all
  from h(2) have nn: "0 \<le> max_refinements orch + 1" by linarith
  from m have "length (attempts (artifact s2)) = length [1..max_refinements orch + 1]"
    by (metis length_map)
  with nn have l: "int (length (attempts (artifact s2))) = max_refinements orch + 1" by simp
  from review_loop_tagging [OF review_failed(4)] have tg: "tagger_calls (calls s2) = []" by simp
  have ne: "0 \<le> max_refinements orch \<Longrightarrow> attempts (artifact s2) \<noteq> []" using l by auto
  show ?thesis
    using review_failed(6) m l tg fr ne by (auto simp: failed_review_reason_def)
next
  case (tagger_raises t0 w1 rid w2 c w3 d fr s2 e w4)
  from tagger_raises(7) assms have "list_all failing_review (review_results (calls s2))"
    "int (length (review_results (calls s2))) = max_refinements orch + 1" by simp_all
  from review_loop_all_fail [OF tagger_raises(4) _ _ _ _ this] show ?thesis by simp
next
  case (tagged t0 w1 rid w2 c w3 d fr s2 tg w4)
  from tagged(7) assms have "list_all failing_review (review_results (calls s2))"
    "int (length (review_results (calls s2))) = max_refinements orch + 1" by simp_all
  from review_loop_all_fail [OF tagged(4) _ _ _ _ this] show ?thesis by simp
qed

text \<open>
  With a ceiling of at most 2, a loop in which no call raises and every review fails makes
  ceiling + 1 reviews: the count follows from what the collaborators return.
\<close>

lemma review_loop_count:
  assumes "review_loop orch inp n c s = (res, s')"
    and "1 \<le> n" and "n \<le> max_refinements orch + 1" and "max_refinements orch \<le> 2"
    and "int (length (review_results (calls s))) = n - 1"
    and "list_all failing_review (review_results (calls s'))"
    and "raised (calls s') = []"
  shows "int (length (review_results (calls s'))) = max_refinements orch + 1"
proof -
  have "list_all failing_review (review_results (calls s')) \<and> raised (calls s') = []
      \<longrightarrow> int (length (review_results (calls s'))) = max_refinements orch + 1"
  proof (rule review_loop_rule [OF assms(1),
    where I = "\<lambda>n c s. 1 \<le> n \<and> n \<le> max_refinements orch + 1
                 \<and> int (length (review_results (calls s))) = n - 1"
      and Q = "\<lambda>res s'. list_all failing_review (review_results (calls s'))
                 \<and> raised (calls s') = []
      \<longrightarrow> int (length (review_results (calls s'))) = max_refinements orch + 1"])
    show "1 \<le> n \<and> n \<le> max_refinements orch + 1
        \<and> int (length (review_results (calls s))) = n - 1"
      using assms(2,3,5) by simp
  next
    fix n c s rc s1
    assume "1 \<le> n \<and> n \<le> max_refinements orch + 1
        \<and> int (length (review_results (calls s))) = n - 1"
      and "loop_body orch inp n c s = (Continue rc, s1)"
    then show "1 \<le> n + 1 \<and> n + 1 \<le> max_refinements orch + 1
        \<and> int (length (review_results (calls s1))) = n + 1 - 1"
      by (auto elim!: loop_body_cases)
  next
    fix n c s e s1
    assume i: "1 \<le> n \<and> n \<le> max_refinements orch + 1
        \<and> int (length (review_results (calls s))) = n - 1"
      and b: "loop_body orch inp n c s = (Raise e, s1)"
    from b show "list_all failing_review (review_results (calls s1)) \<and> raised (calls s1) = []
      \<longrightarrow> int (length (review_results (calls s1))) = max_refinements orch + 1"
    proof (cases rule: loop_body_cases)
      case (review_raises e' w1)
      then show ?thesis by simp
    next
      case (invalid_input rv)
      with i assms(4) show ?thesis by simp
    next
      case (refine_raises rv e')
      then show ?thesis by simp
    qed simp_all
  next
    fix n c s fc fr s1
    assume i: "1 \<le> n \<and> n \<le> max_refinements orch + 1
        \<and> int (length (review_results (calls s))) = n - 1"
      and b: "loop_body orch inp n c s = (Break fc fr, s1)"
    from b show "list_all failing_review (review_results (calls s1)) \<and> raised (calls s1) = []
      \<longrightarrow> int (length (review_results (calls s1))) = max_refinements orch + 1"
    proof (cases rule: loop_body_cases)
      case (passes rv t)
      then show ?thesis by simp
    next
      case (exhausted rv t)
      with i show ?thesis by simp
    qed simp_all
  next
    fix n c s
    assume "1 \<le> n \<and> n \<le> max_refinements orch + 1
        \<and> int (length (review_results (calls s))) = n - 1"
      and "\<not> n \<le> max_refinements orch + 1"
    then show "list_all failing_review (review_results (calls s)) \<and> raised (calls s) = []
      \<longrightarrow> int (length (review_results (calls s))) = max_refinements orch + 1"
      by simp
  qed
  with assms(6,7) show ?thesis by blast
qed

lemma run_review_count:
  fixes orch :: "'w Orchestrator"
  assumes "0 \<le> max_refinements orch" and "max_refinements orch \<le> 2"
    and "list_all failing_review (review_results (calls (run orch inp uid w)))"
    and "raised (calls (run orch inp uid w)) = []"
  shows "int (length (review_results (calls (run orch inp uid w)))) = max_refinements orch + 1"
proof (cases rule: run_cases [of orch w inp uid])
  case (generator_raises t0 w1 rid w2 e w3)
  with assms(4) show ?thesis by simp
next
  case (loop_raises t0 w1 rid w2 c w3 e s2)
  from loop_raises(6) assms(3,4) have "list_all failing_review (review_results (calls s2))"
    "raised (calls s2) = []" by simp_all
  from review_loop_count [OF loop_raises(4) _ _ assms(2) _ this] assms(1) loop_raises(6)
  show ?thesis by simp
next
  case (review_failed t0 w1 rid w2 c w3 fr s2)
  from review_failed(6) assms(3,4) have "list_all failing_review (review_results (calls s2))"
    "raised (calls s2) = []" by simp_all
  from review_loop_count [OF review_failed(4) _ _ assms(2) _ this] assms(1) review_failed(6)
  show ?thesis by simp
next
  case (tagger_raises t0 w1 rid w2 c w3 d fr s2 e w4)
  with assms(4) show ?thesis by simp
next
  case (tagged t0 w1 rid w2 c w3 d fr s2 tg w4)
  from tagged(7) assms(3,4) have "list_all failing_review (review_results (calls s2))"
    "raised (calls s2) = []" by simp_all
  from review_loop_count [OF tagged(4) _ _ assms(2) _ this] assms(1) tagged(7)
  show ?thesis by simp
qed

text \<open>
  Claim C3, as amended.  In every run with a refinement ceiling from 0 to 2 in which no
  collaborator call raises and every review fails, the reviews number ceiling + 1 and the
  artifact has exactly ceiling + 1 attempt records, numbered 1, 2, ... without a gap;
  \<open>final\<close> is rejected, with no content and no tags, and with a non-empty rejection
  reason, which is the count of attempts followed by the summary of the last review; and
  the tagger is not invoked.
\<close>

theorem all_reviews_fail_rejected:
  fixes orch :: "'w Orchestrator"
  assumes "0 \<le> max_refinements orch" and "max_refinements orch \<le> 2"
    and "list_all failing_review (review_results (calls (run orch inp uid w)))"
    and "raised (calls (run orch inp uid w)) = []"
  shows "int (length (review_results (calls (run orch inp uid w)))) = max_refinements orch + 1
     \<and> int (length (attempts (artifact (run orch inp uid w)))) = max_refinements orch + 1
     \<and> map attempt (attempts (artifact (run orch inp uid w))) = [1..max_refinements orch + 1]
     \<and> tagger_calls (calls (run orch inp uid w)) = []
     \<and> (\<exists>reason. final (artifact (run orch inp uid w))
            = Some \<lparr>status = rejected, content = None, tags = None,
                    rejection_reason = Some reason\<rparr>
          \<and> reason \<noteq> []
          \<and> reason = ''Failed review after '' @ str_int (max_refinements orch + 1)
                   @ '' attempts. Final issues: ''
                   @ summarize_feedback
                       (Some (review (last (attempts (artifact (run orch inp uid w)))))))"
proof -
  note n = run_review_count [OF assms]
  from run_all_fail_counted [OF assms(3) n] assms(1) n show ?thesis by simp
qed

theorem all_reviews_fail_rejected_witness:
  "map attempt (attempts (artifact
       (run (scripted_orchestrator 2) sample_generator_input None world_always_failing)))
     = [1, 2, 3]
   \<and> length (review_results (calls
       (run (scripted_orchestrator 2) sample_generator_input None world_always_failing))) = 3
   \<and> final (artifact
       (run (scripted_orchestrator 2) sample_generator_input None world_always_failing))
     = Some \<lparr>status = rejected, content = None, tags = None,
             rejection_reason = Some ''Failed review after 3 attempts. Final issues: explanation.text: Vocabulary too complex for Grade 5''\<rparr>
   \<and> tagger_calls
       (calls (run (scripted_orchestrator 2) sample_generator_input None world_always_failing))
     = []"
proof -
  let ?orch = "scripted_orchestrator 2"
  let ?o = "run ?orch sample_generator_input None world_always_failing"
  have mr: "max_refinements ?orch = 2" by (simp add: scripted_orchestrator_def)
  have rs: "review_results (calls ?o)
      = [Inr sample_failing_review, Inr sample_failing_review, Inr sample_failing_review]"
    by (simp add: run_eval worlds)
  have h0: "0 \<le> max_refinements ?orch" "max_refinements ?orch \<le> 2" by (simp_all add: mr)
  have h1: "list_all failing_review (review_results (calls ?o))" by (simp add: rs)
  have h2: "raised (calls ?o) = []" by (simp add: run_eval worlds)
  have lr: "review (last (attempts (artifact ?o))) = sample_failing_review"
    by (simp add: run_eval worlds)
  have sf: "summarize_feedback (Some sample_failing_review)
      = ''explanation.text: Vocabulary too complex for Grade 5''"
    by (simp add: summarize_feedback_def format_feedback_def sample_failing_review_def)
  have s3: "str_int 3 = ''3''" by code_simp
  have u: "[1..(3::int)] = [1, 2, 3]" by code_simp
  from all_reviews_fail_rejected [OF h0 h1 h2] obtain reason where
    m: "map attempt (attempts (artifact ?o)) = [1..max_refinements ?orch + 1]"
    and n: "int (length (review_results (calls ?o))) = max_refinements ?orch + 1"
    and t: "tagger_calls (calls ?o) = []"
    and f: "final (artifact ?o) = Some \<lparr>status = rejected, content = None, tags = None,
                    rejection_reason = Some reason\<rparr>"
    and r: "reason = ''Failed review after '' @ str_int (max_refinements ?orch + 1)
                   @ '' attempts. Final issues: ''
                   @ summarize_feedback (Some (review (last (attempts (artifact ?o)))))"
    by blast
  from r have "reason = ''Failed review after 3 attempts. Final issues: explanation.text: Vocabulary too complex for Grade 5''"
    by (simp add: mr lr sf s3)
  with m n t f show ?thesis by (simp add: mr u)
qed

text \<open>
  The claim as stated, for every ceiling, fails above 2.  With a ceiling of 3 and a
  reviewer that fails every draft, no collaborator call raises and all three reviews that
  are made fail, yet the artifact has two attempt records where ceiling + 1 is four: the
  third refinement cannot be requested, because \<open>RefinerInput\<close> admits no attempt
  number above 2.
\<close>

theorem ceiling_three_counterexample:
  "max_refinements (scripted_orchestrator 3) = 3
   \<and> review_results
       (calls (run (scripted_orchestrator 3) sample_generator_input None world_always_failing))
     = [Inr sample_failing_review, Inr sample_failing_review, Inr sample_failing_review]
   \<and> \<not> pass_decision sample_failing_review
   \<and> raised
       (calls (run (scripted_orchestrator 3) sample_generator_input None world_always_failing))
     = []
   \<and> map attempt (attempts (artifact
       (run (scripted_orchestrator 3) sample_generator_input None world_always_failing)))
     = [1, 2]"
  by (simp add: run_eval worlds sample_failing_review_def)

section \<open>The attempt cap of the refiner input\<close>

lemma review_loop_refiner_cap:
  assumes "review_loop orch inp n c s = (res, s')"
    and "1 \<le> n" and "n \<le> 3"
    and "map attempt_number (refiner_inputs (calls s)) = [1..n - 1]"
  shows "\<exists>k. 0 \<le> k \<and> k \<le> 2 \<and> map attempt_number (refiner_inputs (calls s')) = [1..k]"
proof (rule review_loop_rule [OF assms(1),
    where I = "\<lambda>n c s. 1 \<le> n \<and> n \<le> 3
                 \<and> map attempt_number (refiner_inputs (calls s)) = [1..n - 1]"
      and Q = "\<lambda>res s'. \<exists>k. 0 \<le> k \<and> k \<le> 2
                 \<and> map attempt_number (refiner_inputs (calls s')) = [1..k]"])
  show "1 \<le> n \<and> n \<le> 3 \<and> map attempt_number (refiner_inputs (calls s)) = [1..n - 1]"
    using assms(2-4) by simp
next
  fix n c s rc s1
  assume "1 \<le> n \<and> n \<le> 3 \<and> map attempt_number (refiner_inputs (calls s)) = [1..n - 1]"
    and "loop_body orch inp n c s = (Continue rc, s1)"
  then show "1 \<le> n + 1 \<and> n + 1 \<le> 3
      \<and> map attempt_number (refiner_inputs (calls s1)) = [1..n + 1 - 1]"
    by (auto elim!: loop_body_cases simp: upto_snoc)
next
  fix n c s e s1
  assume i: "1 \<le> n \<and> n \<le> 3 \<and> map attempt_number (refiner_inputs (calls s)) = [1..n - 1]"
    and b: "loop_body orch inp n c s = (Raise e, s1)"
  from b show "\<exists>k. 0 \<le> k \<and> k \<le> 2 \<and> map attempt_number (refiner_inputs (calls s1)) = [1..k]"
  proof (cases rule: loop_body_cases)
    case (review_raises e w1)
    with i show ?thesis by (intro exI [of _ "n - 1"]) simp
  next
    case (invalid_input rv)
    with i show ?thesis by (intro exI [of _ "n - 1"]) simp
  next
    case (refine_raises rv e)
    with i show ?thesis by (intro exI [of _ n]) (simp add: upto_snoc)
  qed simp_all
next
  fix n c s fc fr s1
  assume i: "1 \<le> n \<and> n \<le> 3 \<and> map attempt_number (refiner_inputs (calls s)) = [1..n - 1]"
    and b: "loop_body orch inp n c s = (Break fc fr, s1)"
  from b show "\<exists>k. 0 \<le> k \<and> k \<le> 2 \<and> map attempt_number (refiner_inputs (calls s1)) = [1..k]"
  proof (cases rule: loop_body_cases)
    case (passes rv t)
    with i show ?thesis by (intro exI [of _ "n - 1"]) simp
  next
    case (exhausted rv t)
    with i show ?thesis by (intro exI [of _ "n - 1"]) simp
  qed simp_all
next
  fix n c s
  assume "1 \<le> n \<and> n \<le> 3 \<and> map attempt_number (refiner_inputs (calls s)) = [1..n - 1]"
  then show "\<exists>k. 0 \<le> k \<and> k \<le> 2 \<and> map attempt_number (refiner_inputs (calls s)) = [1..k]"
    by (intro exI [of _ "n - 1"]) simp
qed

lemma snoc_third:
  assumes "int (length xs) = n - 1" and "1 \<le> n" and "n \<le> 3"
    and "3 \<le> length (xs @ [x])"
  shows "n = 3" and "(xs @ [x]) ! 2 = x" and "length (xs @ [x]) = 3"
proof -
  from assms show n: "n = 3" by simp
  with assms(1) have "length xs = 2" by simp
  then show "(xs @ [x]) ! 2 = x" "length (xs @ [x]) = 3" by (simp_all add: nth_append)
qed

lemma review_loop_third_review:
  assumes "review_loop orch inp n c s = (res, s')"
    and "1 \<le> n" and "n \<le> 3"
    and "int (length (review_results (calls s))) = n - 1"
    and "int (length (attempts (artifact s))) = n - 1"
    and "int (length (refiner_inputs (calls s))) = n - 1"
    and "2 < max_refinements orch"
    and "3 \<le> length (review_results (calls s'))"
    and "failing_review (review_results (calls s') ! 2)"
  shows "res = Inl (RefinerInput_error (pydantic_version orch) 3) \<and> length (attempts (artifact s')) = 2
     \<and> length (review_results (calls s')) = 3
         \<and> length (refiner_inputs (calls s')) = 2"
proof -
  have "3 \<le> length (review_results (calls s')) \<and> failing_review (review_results (calls s') ! 2)
      \<longrightarrow> res = Inl (RefinerInput_error (pydantic_version orch) 3) \<and> length (attempts (artifact s')) = 2
         \<and> length (review_results (calls s')) = 3
         \<and> length (refiner_inputs (calls s')) = 2"
  proof (rule review_loop_rule [OF assms(1),
    where I = "\<lambda>n c s. 1 \<le> n \<and> n \<le> 3
                 \<and> int (length (review_results (calls s))) = n - 1
                 \<and> int (length (attempts (artifact s))) = n - 1
        \<and> int (length (refiner_inputs (calls s))) = n - 1"
      and Q = "\<lambda>res s'. 3 \<le> length (review_results (calls s'))
                   \<and> failing_review (review_results (calls s') ! 2)
      \<longrightarrow> res = Inl (RefinerInput_error (pydantic_version orch) 3) \<and> length (attempts (artifact s')) = 2
         \<and> length (review_results (calls s')) = 3
         \<and> length (refiner_inputs (calls s')) = 2"])
    show "1 \<le> n \<and> n \<le> 3 \<and> int (length (review_results (calls s))) = n - 1
        \<and> int (length (attempts (artifact s))) = n - 1
        \<and> int (length (refiner_inputs (calls s))) = n - 1"
      using assms(2-6) by simp
  next
    fix n c s rc s1
    assume "1 \<le> n \<and> n \<le> 3 \<and> int (length (review_results (calls s))) = n - 1
        \<and> int (length (attempts (artifact s))) = n - 1
        \<and> int (length (refiner_inputs (calls s))) = n - 1"
      and "loop_body orch inp n c s = (Continue rc, s1)"
    then show "1 \<le> n + 1 \<and> n + 1 \<le> 3 \<and> int (length (review_results (calls s1))) = n + 1 - 1
        \<and> int (length (attempts (artifact s1))) = n + 1 - 1
        \<and> int (length (refiner_inputs (calls s1))) = n + 1 - 1"
      by (auto elim!: loop_body_cases)
  next
    fix n c s e s1
    assume i: "1 \<le> n \<and> n \<le> 3 \<and> int (length (review_results (calls s))) = n - 1
        \<and> int (length (attempts (artifact s))) = n - 1
        \<and> int (length (refiner_inputs (calls s))) = n - 1"
      and b: "loop_body orch inp n c s = (Raise e, s1)"
    show "3 \<le> length (review_results (calls s1))
                   \<and> failing_review (review_results (calls s1) ! 2)
      \<longrightarrow> Inl e = Inl (RefinerInput_error (pydantic_version orch) 3) \<and> length (attempts (artifact s1)) = 2
         \<and> length (review_results (calls s1)) = 3
         \<and> length (refiner_inputs (calls s1)) = 2"
    proof (intro impI, elim conjE)
      assume l: "3 \<le> length (review_results (calls s1))"
        and f: "failing_review (review_results (calls s1) ! 2)"
      from b show "Inl e = Inl (RefinerInput_error (pydantic_version orch) 3) \<and> length (attempts (artifact s1)) = 2
         \<and> length (review_results (calls s1)) = 3
         \<and> length (refiner_inputs (calls s1)) = 2"
      proof (cases rule: loop_body_cases)
        case (review_raises e' w1)
        then have r: "review_results (calls s1) = review_results (calls s) @ [Inl e']" by simp
        from snoc_third(2) [of "review_results (calls s)" n "Inl e'"] i l f r
        show ?thesis by simp
      next
        case (invalid_input rv)
        then have r: "review_results (calls s1) = review_results (calls s) @ [Inr rv]" by simp
        from snoc_third(1,3) [of "review_results (calls s)" n "Inr rv"] i l r
        have "n = 3" "length (review_results (calls s1)) = 3" by simp_all
        with i invalid_input show ?thesis by simp
      next
        case (refine_raises rv e')
        then have r: "review_results (calls s1) = review_results (calls s) @ [Inr rv]" by simp
        from snoc_third(1) [of "review_results (calls s)" n "Inr rv"] i l r
        have "n = 3" by simp
        with refine_raises show ?thesis by simp
      qed simp_all
    qed
  next
    fix n c s fc fr s1
    assume i: "1 \<le> n \<and> n \<le> 3 \<and> int (length (review_results (calls s))) = n - 1
        \<and> int (length (attempts (artifact s))) = n - 1
        \<and> int (length (refiner_inputs (calls s))) = n - 1"
      and b: "loop_body orch inp n c s = (Break fc fr, s1)"
    show "3 \<le> length (review_results (calls s1))
                   \<and> failing_review (review_results (calls s1) ! 2)
      \<longrightarrow> Inr (fc, fr) = Inl (RefinerInput_error (pydantic_version orch) 3) \<and> length (attempts (artifact s1)) = 2
         \<and> length (review_results (calls s1)) = 3
         \<and> length (refiner_inputs (calls s1)) = 2"
    proof (intro impI, elim conjE)
      assume l: "3 \<le> length (review_results (calls s1))"
        and f: "failing_review (review_results (calls s1) ! 2)"
      from b show "Inr (fc, fr) = Inl (RefinerInput_error (pydantic_version orch) 3) \<and> length (attempts (artifact s1)) = 2
         \<and> length (review_results (calls s1)) = 3
         \<and> length (refiner_inputs (calls s1)) = 2"
      proof (cases rule: loop_body_cases)
        case (passes rv t)
        then have r: "review_results (calls s1) = review_results (calls s) @ [Inr rv]" by simp
        from snoc_third(2) [of "review_results (calls s)" n "Inr rv"] i l f r passes(1)
        show ?thesis by simp
      next
        case (exhausted rv t)
        then have r: "review_results (calls s1) = review_results (calls s) @ [Inr rv]" by simp
        from snoc_third(1) [of "review_results (calls s)" n "Inr rv"] i l r
        have "n = 3" by simp
        with exhausted(2) assms(7) show ?thesis by simp
      qed simp_all
    qed
  next
    fix n c s
    assume "1 \<le> n \<and> n \<le> 3 \<and> int (length (review_results (calls s))) = n - 1
        \<and> int (length (attempts (artifact s))) = n - 1
        \<and> int (length (refiner_inputs (calls s))) = n - 1"
    then show "3 \<le> length (review_results (calls s))
                   \<and> failing_review (review_results (calls s) ! 2)
      \<longrightarrow> Inr (None, None) = Inl (RefinerInput_error (pydantic_version orch) 3) \<and> length (attempts (artifact s)) = 2
         \<and> length (review_results (calls s)) = 3
         \<and> length (refiner_inputs (calls s)) = 2"
      by auto
  qed
  with assms(8,9) show ?thesis by blast
qed


lemma run_refiner_cap:
  fixes orch :: "'w Orchestrator"
  shows "\<exists>k. 0 \<le> k \<and> k \<le> 2
     \<and> map attempt_number (refiner_inputs (calls (run orch inp uid w))) = [1..k]"
proof (cases rule: run_cases [of orch w inp uid])
  case (generator_raises t0 w1 rid w2 e w3)
  then show ?thesis by (intro exI [of _ 0]) simp
next
  case (loop_raises t0 w1 rid w2 c w3 e s2)
  from review_loop_refiner_cap [OF loop_raises(4)] loop_raises(6) show ?thesis by simp
next
  case (review_failed t0 w1 rid w2 c w3 fr s2)
  from review_loop_refiner_cap [OF review_failed(4)] review_failed(6) show ?thesis by simp
next
  case (tagger_raises t0 w1 rid w2 c w3 d fr s2 e w4)
  from review_loop_refiner_cap [OF tagger_raises(4)] tagger_raises(7) show ?thesis by simp
next
  case (tagged t0 w1 rid w2 c w3 d fr s2 tg w4)
  from review_loop_refiner_cap [OF tagged(4)] tagged(7) show ?thesis by simp
qed

lemma run_third_review:
  fixes orch :: "'w Orchestrator"
  assumes "2 < max_refinements orch"
    and "3 \<le> length (review_results (calls (run orch inp uid w)))"
    and "failing_review (review_results (calls (run orch inp uid w)) ! 2)"
  shows "final (artifact (run orch inp uid w)) = Some (handle_exn (RefinerInput_error (pydantic_version orch) 3))
     \<and> length (attempts (artifact (run orch inp uid w))) = 2
     \<and> length (review_results (calls (run orch inp uid w))) = 3
     \<and> length (refiner_inputs (calls (run orch inp uid w))) = 2
     \<and> tagger_calls (calls (run orch inp uid w)) = []"
proof (cases rule: run_cases [of orch w inp uid])
  case (generator_raises t0 w1 rid w2 e w3)
  with assms(2) show ?thesis by simp
next
  case (loop_raises t0 w1 rid w2 c w3 e s2)
  from loop_raises(6) assms have "3 \<le> length (review_results (calls s2))"
    "failing_review (review_results (calls s2) ! 2)" by simp_all
  from review_loop_third_review [OF loop_raises(4) _ _ _ _ _ assms(1) this]
    review_loop_tagging [OF loop_raises(4)] loop_raises(6)
  show ?thesis by simp
next
  case (review_failed t0 w1 rid w2 c w3 fr s2)
  from review_failed(6) assms have "3 \<le> length (review_results (calls s2))"
    "failing_review (review_results (calls s2) ! 2)" by simp_all
  from review_loop_third_review [OF review_failed(4) _ _ _ _ _ assms(1) this]
  show ?thesis by simp
next
  case (tagger_raises t0 w1 rid w2 c w3 d fr s2 e w4)
  from tagger_raises(7) assms have "3 \<le> length (review_results (calls s2))"
    "failing_review (review_results (calls s2) ! 2)" by simp_all
  from review_loop_third_review [OF tagger_raises(4) _ _ _ _ _ assms(1) this]
  show ?thesis by simp
next
  case (tagged t0 w1 rid w2 c w3 d fr s2 tg w4)
  from tagged(7) assms have "3 \<le> length (review_results (calls s2))"
    "failing_review (review_results (calls s2) ! 2)" by simp_all
  from review_loop_third_review [OF tagged(4) _ _ _ _ _ assms(1) this]
  show ?thesis by simp
qed

text \<open>
  Claim C10. \<^verbatim>\<open>RefinerInput.attempt_number\<close> is declared with \<^verbatim>\<open>ge=1, le=2\<close>, whatever the
  configured ceiling. So, for every orchestrator and every ceiling: a run makes at most two
  refiner calls, and every refiner input that is built carries attempt number 1 or 2;
  constructing a \<^verbatim>\<open>RefinerInput\<close> with an attempt number above 2 raises the validation
  error; and when the ceiling is greater than 2 and the third review of the run fails, the
  orchestrator's \<^verbatim>\<open>except Exception\<close> clause catches that validation error: the run ends
  rejected, with the reason \<^verbatim>\<open>Unexpected error: ...\<close>, null content and tags, two attempt
  records (the third is never appended), two refiner calls and no tagger call.
\<close>

theorem refiner_attempt_cap:
  fixes orch :: "'w Orchestrator"
  shows "length (refiner_inputs (calls (run orch inp uid w))) \<le> 2
     \<and> (\<forall>ri \<in> set (refiner_inputs (calls (run orch inp uid w))).
           1 \<le> attempt_number ri \<and> attempt_number ri \<le> 2)
     \<and> (\<forall>v c fb n. 2 < n \<longrightarrow> new_RefinerInput v inp c fb n = Inl (RefinerInput_error v n))
     \<and> (2 < max_refinements orch
          \<and> 3 \<le> length (review_results (calls (run orch inp uid w)))
          \<and> failing_review (review_results (calls (run orch inp uid w)) ! 2)
        \<longrightarrow> final (artifact (run orch inp uid w))
              = Some \<lparr>status = rejected, content = None, tags = None,
                      rejection_reason =
                        Some (''Unexpected error: '' @ exn_str (RefinerInput_error (pydantic_version orch) 3))\<rparr>
            \<and> length (attempts (artifact (run orch inp uid w))) = 2
            \<and> length (review_results (calls (run orch inp uid w))) = 3
            \<and> length (refiner_inputs (calls (run orch inp uid w))) = 2
            \<and> tagger_calls (calls (run orch inp uid w)) = [])"
proof (intro conjI allI impI ballI)
  from run_refiner_cap [of orch inp uid w] obtain k where
    k: "0 \<le> k" "k \<le> 2"
    and m: "map attempt_number (refiner_inputs (calls (run orch inp uid w))) = [1..k]"
    by blast
  from m have "length (refiner_inputs (calls (run orch inp uid w))) = length [1..k]"
    by (metis length_map)
  with k show "length (refiner_inputs (calls (run orch inp uid w))) \<le> 2" by simp
  fix ri assume "ri \<in> set (refiner_inputs (calls (run orch inp uid w)))"
  then have "attempt_number ri \<in> set (map attempt_number (refiner_inputs (calls (run orch inp uid w))))"
    by simp
  with m k show "1 \<le> attempt_number ri" "attempt_number ri \<le> 2" by simp_all
next
  fix v c fb and n :: int assume "2 < n"
  then show "new_RefinerInput v inp c fb n = Inl (RefinerInput_error v n)"
    by (simp add: new_RefinerInput_def)
next
  assume h: "2 < max_refinements orch
          \<and> 3 \<le> length (review_results (calls (run orch inp uid w)))
          \<and> failing_review (review_results (calls (run orch inp uid w)) ! 2)"
  note r = run_third_review [of orch inp uid w, OF h [THEN conjunct1]
      h [THEN conjunct2, THEN conjunct1] h [THEN conjunct2, THEN conjunct2]]
  from r show "final (artifact (run orch inp uid w))
              = Some \<lparr>status = rejected, content = None, tags = None,
                      rejection_reason =
                        Some (''Unexpected error: '' @ exn_str (RefinerInput_error (pydantic_version orch) 3))\<rparr>"
    by (simp add: handle_exn_def RefinerInput_error_def)
  from r show "length (attempts (artifact (run orch inp uid w))) = 2"
    "length (review_results (calls (run orch inp uid w))) = 3"
    "length (refiner_inputs (calls (run orch inp uid w))) = 2"
    "tagger_calls (calls (run orch inp uid w)) = []" by simp_all
qed

theorem refiner_attempt_cap_witness:
  "final (artifact
       (run (scripted_orchestrator 3) sample_generator_input None world_always_failing))
     = Some \<lparr>status = rejected, content = None, tags = None,
             rejection_reason =
               Some (''Unexpected error: 1 validation error for RefinerInput'' @ [CHR 0x0A]
                     @ ''attempt_number'' @ [CHR 0x0A]
                     @ ''  Input should be less than or equal to 2 [type=less_than_equal, input_value=3, input_type=int]''
                     @ [CHR 0x0A]
                     @ ''    For further information visit https://errors.pydantic.dev/2.5/v/less_than_equal'')\<rparr>
   \<and> length (attempts (artifact
       (run (scripted_orchestrator 3) sample_generator_input None world_always_failing))) = 2
   \<and> length (refiner_inputs (calls
       (run (scripted_orchestrator 3) sample_generator_input None world_always_failing))) = 2"
proof -
  let ?orch = "scripted_orchestrator 3"
  let ?o = "run ?orch sample_generator_input None world_always_failing"
  have mr: "max_refinements ?orch = 3" by (simp add: scripted_orchestrator_def)
  have rs: "review_results (calls ?o)
      = [Inr sample_failing_review, Inr sample_failing_review, Inr sample_failing_review]"
    by (simp add: run_eval worlds)
  have h: "2 < max_refinements ?orch \<and> 3 \<le> length (review_results (calls ?o))
      \<and> failing_review (review_results (calls ?o) ! 2)"
    by (simp add: rs mr)
  have s3: "str_int 3 = ''3''" by code_simp
  note T = refiner_attempt_cap [of ?orch sample_generator_input None world_always_failing,
      THEN conjunct2, THEN conjunct2, THEN conjunct2, rule_format, OF h]
  from T show ?thesis by (simp add: RefinerInput_error_def s3 scripted_orchestrator_def)
qed

section \<open>The repository round trip\<close>

lemma and_then_Inr [simp]: "and_then (Inr x) f = f x"
  by (simp add: and_then_def)

lemma and_then_Inl [simp]: "and_then (Inl e) f = Inl e"
  by (simp add: and_then_def)

lemma each_map:
  assumes "\<And>x. x \<in> set xs \<Longrightarrow> f (g x) = Inr x"
  shows "each f (map g xs) = Inr xs"
  using assms by (induction xs) simp_all

lemma as_list_map:
  assumes "\<And>x. x \<in> set xs \<Longrightarrow> f (g x) = Inr x"
  shows "as_list f (JArr (map g xs)) = Inr xs"
  using each_map [of xs f g] assms by (simp add: as_list_def)

lemma as_list_str [simp]: "as_list as_str (JArr (map JStr xs)) = Inr xs"
  by (rule as_list_map) (simp add: as_str_def)

lemma nullable_optional:
  assumes "\<And>v. x = Some v \<Longrightarrow> f (g v) = Inr v \<and> g v \<noteq> JNull"
  shows "nullable f (dump_optional g x) = Inr x"
proof (cases x)
  case None
  then show ?thesis by (simp add: nullable_def dump_optional_def)
next
  case (Some v)
  with assms [of v] have "f (g v) = Inr v" "g v \<noteq> JNull" by simp_all
  with Some show ?thesis by (cases "g v") (simp_all add: nullable_def dump_optional_def)
qed

lemma nullable_str [simp]: "nullable as_str (dump_optional JStr x) = Inr x"
  by (rule nullable_optional) (simp add: as_str_def)

lemma nullable_float [simp]: "nullable as_float (dump_optional JFloat x) = Inr x"
  by (rule nullable_optional) (simp add: as_float_def)

lemmas load_simps = required_def defaulted_def dict_get_def as_dict_def as_str_def as_int_def
  as_bool_def constrained_def

lemma load_GeneratorInput_dump:
  "GeneratorInput_constraints x \<Longrightarrow> load_GeneratorInput (dump_GeneratorInput x) = Inr x"
  by (cases x) (simp add: load_GeneratorInput_def dump_GeneratorInput_def load_simps)

lemma load_Explanation_dump:
  "Explanation_constraints x \<Longrightarrow> load_Explanation (dump_Explanation x) = Inr x"
  by (cases x) (simp add: load_Explanation_def dump_Explanation_def load_simps)

lemma load_MCQ_dump:
  "MCQ_constraints x \<Longrightarrow> load_MCQ (dump_MCQ x) = Inr x"
  by (cases x) (simp add: load_MCQ_def dump_MCQ_def load_simps)

lemma load_TeacherNotes_dump:
  "TeacherNotes_constraints x \<Longrightarrow> load_TeacherNotes (dump_TeacherNotes x) = Inr x"
  by (cases x) (simp add: load_TeacherNotes_def dump_TeacherNotes_def load_simps)

lemma load_GeneratorOutput_dump:
  assumes "valid_GeneratorOutput x"
  shows "load_GeneratorOutput (dump_GeneratorOutput x) = Inr x"
proof -
  from assms have e: "load_Explanation (dump_Explanation (explanation x)) = Inr (explanation x)"
    and n: "load_TeacherNotes (dump_TeacherNotes (teacher_notes x)) = Inr (teacher_notes x)"
    and c: "GeneratorOutput_constraints x"
    and q: "list_all MCQ_constraints (mcqs x)"
    by (simp_all add: valid_GeneratorOutput_def load_Explanation_dump load_TeacherNotes_dump)
  from q have m: "as_list load_MCQ (JArr (map dump_MCQ (mcqs x))) = Inr (mcqs x)"
    by (intro as_list_map load_MCQ_dump) (simp add: list_all_iff)
  from e n c m show ?thesis
    by (cases x) (simp add: load_GeneratorOutput_def dump_GeneratorOutput_def load_simps
        GeneratorOutput_constraints_def)
qed

lemma dump_GeneratorOutput_not_null [simp]: "dump_GeneratorOutput x \<noteq> JNull"
  by (simp add: dump_GeneratorOutput_def)

lemma nullable_GeneratorOutput:
  "valid_optional valid_GeneratorOutput x
   \<Longrightarrow> nullable load_GeneratorOutput (dump_optional dump_GeneratorOutput x) = Inr x"
  by (rule nullable_optional) (simp add: valid_optional_def load_GeneratorOutput_dump)

lemma load_ReviewScore_dump:
  "ReviewScore_constraints x \<Longrightarrow> load_ReviewScore (dump_ReviewScore x) = Inr x"
  by (cases x) (simp add: load_ReviewScore_def dump_ReviewScore_def load_simps)

lemma load_ReviewFeedback_dump: "load_ReviewFeedback (dump_ReviewFeedback x) = Inr x"
  by (cases x; cases "severity x")
     (simp_all add: load_ReviewFeedback_def dump_ReviewFeedback_def load_simps as_enum_def)

lemma load_ReviewerOutput_dump:
  assumes "valid_ReviewerOutput x"
  shows "load_ReviewerOutput (dump_ReviewerOutput x) = Inr x"
proof -
  from assms have s: "load_ReviewScore (dump_ReviewScore (scores x)) = Inr (scores x)"
    by (simp add: valid_ReviewerOutput_def load_ReviewScore_dump)
  have f: "as_list load_ReviewFeedback (JArr (map dump_ReviewFeedback (feedback x)))
      = Inr (feedback x)"
    by (rule as_list_map) (rule load_ReviewFeedback_dump)
  from s f show ?thesis
    by (cases x) (simp add: load_ReviewerOutput_def dump_ReviewerOutput_def load_simps)
qed

lemma load_TaggerOutput_dump:
  assumes "TaggerOutput_constraints x"
  shows "load_TaggerOutput (dump_TaggerOutput x) = Inr x"
proof -
  have c: "as_list (as_enum [(''Explanation'', EXPLANATION), (''Quiz'', QUIZ),
                           (''Exercise'', EXERCISE), (''Example'', EXAMPLE)])
             (JArr (map (\<lambda>c. JStr (ContentType_value c)) (content_type x)))
      = Inr (content_type x)"
  proof (rule as_list_map)
    fix c show "as_enum [(''Explanation'', EXPLANATION), (''Quiz'', QUIZ),
                           (''Exercise'', EXERCISE), (''Example'', EXAMPLE)]
        (JStr (ContentType_value c)) = Inr c"
      by (cases c) (simp_all add: as_enum_def)
  qed
  have d: "as_enum [(''Easy'', EASY), (''Medium'', MEDIUM), (''Hard'', HARD)]
      (JStr (DifficultyLevel_value (difficulty x))) = Inr (difficulty x)"
    by (cases "difficulty x") (simp_all add: as_enum_def)
  have b: "as_enum [(''Remembering'', REMEMBERING), (''Understanding'', UNDERSTANDING),
                  (''Applying'', APPLYING), (''Analyzing'', ANALYZING),
                  (''Evaluating'', EVALUATING), (''Creating'', CREATING)]
      (JStr (BloomsLevel_value (blooms_level x))) = Inr (blooms_level x)"
    by (cases "blooms_level x") (simp_all add: as_enum_def)
  from assms c d b show ?thesis
    by (cases x) (simp add: load_TaggerOutput_def dump_TaggerOutput_def load_simps)
qed


lemma as_datetime_dump:
  "fromisoformat env (isoformat env t) = Some t \<Longrightarrow> as_datetime env (dump_datetime env t) = Inr t"
  by (simp add: as_datetime_def dump_datetime_def)

lemma load_AttemptRecord_dump:
  assumes "valid_AttemptRecord x"
    and "fromisoformat env (isoformat env (timestamp x)) = Some (timestamp x)"
  shows "load_AttemptRecord env (dump_AttemptRecord env x) = Inr x"
proof -
  from assms(1) have d: "load_GeneratorOutput (dump_GeneratorOutput (draft x)) = Inr (draft x)"
    and r: "load_ReviewerOutput (dump_ReviewerOutput (review x)) = Inr (review x)"
    and f: "nullable load_GeneratorOutput (dump_optional dump_GeneratorOutput (refined x))
              = Inr (refined x)"
    and c: "AttemptRecord_constraints x"
    by (simp_all add: valid_AttemptRecord_def load_GeneratorOutput_dump
        load_ReviewerOutput_dump nullable_GeneratorOutput)
  note t = as_datetime_dump [OF assms(2)]
  from d r f c t show ?thesis
    by (cases x) (simp add: load_AttemptRecord_def dump_AttemptRecord_def load_simps)
qed

lemma dump_TaggerOutput_not_null [simp]: "dump_TaggerOutput x \<noteq> JNull"
  by (simp add: dump_TaggerOutput_def)

lemma load_FinalResult_dump:
  assumes "valid_FinalResult x"
  shows "load_FinalResult (dump_FinalResult x) = Inr x"
proof -
  from assms have c: "nullable load_GeneratorOutput (dump_optional dump_GeneratorOutput (content x))
              = Inr (content x)"
    by (simp add: valid_FinalResult_def nullable_GeneratorOutput)
  from assms have "valid_optional TaggerOutput_constraints (tags x)"
    by (simp add: valid_FinalResult_def)
  then have t: "nullable load_TaggerOutput (dump_optional dump_TaggerOutput (tags x)) = Inr (tags x)"
    by (intro nullable_optional) (simp add: valid_optional_def load_TaggerOutput_dump)
  have s: "as_enum [(''approved'', approved), (''rejected'', rejected)]
      (JStr (status_value (status x))) = Inr (status x)"
    by (cases "status x") (simp_all add: as_enum_def)
  from c t s show ?thesis
    by (cases x) (simp add: load_FinalResult_def dump_FinalResult_def load_simps)
qed

lemma dump_FinalResult_not_null [simp]: "dump_FinalResult x \<noteq> JNull"
  by (simp add: dump_FinalResult_def)

lemma load_Timestamps_dump:
  assumes "fromisoformat env (isoformat env (started_at x)) = Some (started_at x)"
    and "\<And>t. finished_at x = Some t \<Longrightarrow> fromisoformat env (isoformat env t) = Some t"
  shows "load_Timestamps env (dump_Timestamps env x) = Inr x"
proof -
  note s = as_datetime_dump [OF assms(1)]
  have f: "nullable (as_datetime env) (dump_optional (dump_datetime env) (finished_at x))
      = Inr (finished_at x)"
    using assms(2) by (intro nullable_optional) (simp add: as_datetime_def dump_datetime_def)
  from s f show ?thesis
    by (cases x) (simp add: load_Timestamps_def dump_Timestamps_def load_simps)
qed

lemma load_metadata_dump: "load_metadata (dump_metadata m) = Inr m"
proof -
  have "each (\<lambda>e. and_then (as_str (snd e)) (\<lambda>v. Inr (fst e, v)))
          (map (\<lambda>e. (fst e, JStr (snd e))) m) = Inr m"
    by (rule each_map) (simp add: as_str_def)
  then show ?thesis by (simp add: load_metadata_def dump_metadata_def as_dict_def)
qed

lemma RunArtifact_validate_dump:
  assumes "valid_RunArtifact x"
    and "list_all (\<lambda>t. fromisoformat env (isoformat env t) = Some t) (datetimes x)"
  shows "RunArtifact_validate env (model_dump env x) = Inr x"
proof -
  from assms(2) have ts: "fromisoformat env (isoformat env (started_at (timestamps x)))
        = Some (started_at (timestamps x))"
    and tf: "\<And>t. finished_at (timestamps x) = Some t
               \<Longrightarrow> fromisoformat env (isoformat env t) = Some t"
    and ta: "\<And>r. r \<in> set (attempts x)
               \<Longrightarrow> fromisoformat env (isoformat env (timestamp r)) = Some (timestamp r)"
    by (auto simp: datetimes_def list_all_iff split: option.splits)
  from assms(1) have i: "load_GeneratorInput (dump_GeneratorInput (input x)) = Inr (input x)"
    by (simp add: valid_RunArtifact_def load_GeneratorInput_dump)
  from assms(1) have "\<And>r. r \<in> set (attempts x) \<Longrightarrow> valid_AttemptRecord r"
    by (simp add: valid_RunArtifact_def list_all_iff)
  then have a: "as_list (load_AttemptRecord env) (JArr (map (dump_AttemptRecord env) (attempts x)))
      = Inr (attempts x)"
    by (intro as_list_map load_AttemptRecord_dump ta)
  from assms(1) have "valid_optional valid_FinalResult (final x)"
    by (simp add: valid_RunArtifact_def)
  then have f: "nullable load_FinalResult (dump_optional dump_FinalResult (final x))
      = Inr (final x)"
    by (intro nullable_optional) (simp add: valid_optional_def load_FinalResult_dump)
  note t = load_Timestamps_dump [of env "timestamps x", OF ts tf]
  from i a f t show ?thesis
    by (cases x) (simp add: RunArtifact_validate_def model_dump_def load_simps
        load_metadata_dump)
qed

lemma RunArtifact_validate_cong:
  assumes "\<And>k. k \<in> set [''run_id'', ''user_id'', ''input'', ''attempts'', ''final'',
                            ''timestamps'', ''metadata'']
               \<Longrightarrow> dict_get d k = dict_get d' k"
  shows "RunArtifact_validate env d = RunArtifact_validate env d'"
  using assms by (simp add: RunArtifact_validate_def required_def defaulted_def)

lemma map_of_dict_set: "map_of (dict_set k v d) = (map_of d)(k \<mapsto> v)"
  by (induction d) (auto simp: fun_eq_iff)

lemma map_of_dict_update:
  "distinct (map fst other) \<Longrightarrow> map_of (dict_update d other) = map_of d ++ map_of other"
proof (induction other arbitrary: d)
  case Nil
  then show ?case by (simp add: dict_update_def)
next
  case (Cons e other)
  from Cons.prems have n: "fst e \<notin> dom (map_of other)" and ds: "distinct (map fst other)"
    by (simp_all add: dom_map_of_conv_image_fst)
  have "dict_update d (e # other) = dict_update (dict_set (fst e) (snd e) d) other"
    by (simp add: dict_update_def)
  with Cons.IH [OF ds, of "dict_set (fst e) (snd e) d"]
  have "map_of (dict_update d (e # other))
      = map_of (dict_set (fst e) (snd e) d) ++ map_of other"
    by (simp only:)
  also have "\<dots> = (map_of d)(fst e \<mapsto> snd e) ++ map_of other"
    by (simp only: map_of_dict_set)
  also from n have "\<dots> = (map_of d ++ map_of other)(fst e \<mapsto> snd e)"
    by (rule map_add_upd_left)
  also have "\<dots> = map_of d ++ map_of (e # other)"
    by (cases e) simp
  finally show ?case .
qed

lemma model_dump_keys:
  "map fst (model_dump env x)
     = [''run_id'', ''user_id'', ''input'', ''attempts'', ''final'', ''timestamps'', ''metadata'']"
  by (simp add: model_dump_def)

lemma dict_get_update_model_dump:
  assumes "k \<in> set [''run_id'', ''user_id'', ''input'', ''attempts'', ''final'',
                     ''timestamps'', ''metadata'']"
  shows "dict_get (dict_update d (model_dump env x)) k = dict_get (model_dump env x) k"
proof -
  have ds: "distinct (map fst (model_dump env x))" by (simp add: model_dump_keys)
  from assms have "k \<in> dom (map_of (model_dump env x))"
    by (simp only: dom_map_of_conv_image_fst set_map [symmetric] model_dump_keys)
  then show ?thesis
    by (auto simp: dict_get_def map_of_dict_update [OF ds] map_add_dom_app_simps)
qed

lemma run_id_is_model_dump [simp]: "run_id_is v (model_dump env x) = (v = run_id x)"
  by (auto simp: run_id_is_def dict_get_def model_dump_def)

lemma run_id_is_update [simp]:
  "run_id_is v (dict_update d (model_dump env x)) = (v = run_id x)"
  by (simp add: run_id_is_def dict_get_update_model_dump)
     (auto simp: dict_get_def model_dump_def)

lemma search_after_update:
  assumes "filter (run_id_is (run_id x)) table \<noteq> []"
  shows "\<exists>d rest. table_search (run_id_is (run_id x))
            (table_update (model_dump env x) (run_id_is (run_id x)) table)
          = dict_update d (model_dump env x) # rest"
  using assms
proof (induction table)
  case Nil
  then show ?case by simp
next
  case (Cons d table)
  show ?case
  proof (cases "run_id_is (run_id x) d")
    case True
    show ?thesis
      by (intro exI [of _ d] exI [of _ "table_search (run_id_is (run_id x))
            (table_update (model_dump env x) (run_id_is (run_id x)) table)"])
         (simp add: True table_search_def table_update_def)
  next
    case False
    with Cons.prems have "filter (run_id_is (run_id x)) table \<noteq> []" by simp
    from Cons.IH [OF this] False show ?thesis by (simp add: table_search_def table_update_def)
  qed
qed

lemma search_after_insert:
  assumes "filter (run_id_is (run_id x)) table = []"
  shows "table_search (run_id_is (run_id x)) (table_insert (model_dump env x) table)
          = [model_dump env x]"
  using assms by (simp add: table_search_def table_insert_def)

lemma get_after_save:
  assumes "valid_RunArtifact x"
    and "list_all (\<lambda>t. fromisoformat env (isoformat env t) = Some t) (datetimes x)"
  shows "get env (snd (save env repo x)) (fst (save env repo x)) = Inr (Some x)"
proof (cases "filter (run_id_is (run_id x)) (artifacts repo) = []")
  case True
  from search_after_insert [OF True, of env] RunArtifact_validate_dump [OF assms] True
  show ?thesis by (simp add: get_def save_def table_search_def)
next
  case False
  from search_after_update [OF False, of env] obtain d rest where
    s: "table_search (run_id_is (run_id x))
            (table_update (model_dump env x) (run_id_is (run_id x)) (artifacts repo))
          = dict_update d (model_dump env x) # rest" by blast
  have "RunArtifact_validate env (dict_update d (model_dump env x))
      = RunArtifact_validate env (model_dump env x)"
    by (rule RunArtifact_validate_cong) (rule dict_get_update_model_dump)
  with RunArtifact_validate_dump [OF assms] s False
  show ?thesis by (simp add: get_def save_def table_search_def)
qed

text \<open>
  Claim C9. For every Run Artifact that is an instance of its schema (every part meets the
  constraints its model declares) and whose \<open>datetime\<close> values survive the ISO 8601
  text, finalized or not, and for every content of the table: \<open>save\<close> returns the
  artifact's \<open>run_id\<close>, and \<open>get\<close> with that \<open>run_id\<close> afterwards returns an
  artifact equal to the saved one; in particular it has the same \<open>run_id\<close>, the same
  \<open>final.status\<close> and the same number of Attempt Records.  This holds on both paths of
  \<open>save\<close>: the insert of a new document, and the update of the documents that already
  carry the \<open>run_id\<close>.
\<close>

theorem save_then_get_roundtrip:
  assumes "valid_RunArtifact x"
    and "list_all (\<lambda>t. fromisoformat env (isoformat env t) = Some t) (datetimes x)"
  shows "fst (save env repo x) = run_id x
     \<and> (\<exists>y. get env (snd (save env repo x)) (run_id x) = Inr (Some y)
            \<and> y = x
            \<and> run_id y = run_id x
            \<and> map_option status (final y) = map_option status (final x)
            \<and> length (attempts y) = length (attempts x))"
proof -
  have r: "fst (save env repo x) = run_id x" by (simp add: save_def Let_def)
  with get_after_save [OF assms, of repo]
  have "get env (snd (save env repo x)) (run_id x) = Inr (Some x)" by simp
  with r show ?thesis by simp
qed

lemma demo_artifact:
  "artifact (run (scripted_orchestrator 2) sample_generator_input None world_fail_then_pass)
     = \<lparr>run_id = ''run-1'', user_id = None, input = sample_generator_input,
        attempts = [\<lparr>attempt = 1, draft = sample_valid_generator_output,
                     review = sample_failing_review,
                     refined = Some sample_valid_generator_output, timestamp = 11000000\<rparr>,
                    \<lparr>attempt = 2, draft = sample_valid_generator_output,
                     review = sample_passing_review, refined = None, timestamp = 12000000\<rparr>],
        final = Some \<lparr>status = approved, content = Some sample_valid_generator_output,
                      tags = Some sample_tags, rejection_reason = None\<rparr>,
        timestamps = \<lparr>started_at = 10000000, finished_at = Some 13000000,
                      duration_seconds = Some 3\<rparr>,
        metadata = []\<rparr>"
  by (simp add: run_eval worlds)


lemma sample_output_valid: "valid_GeneratorOutput sample_valid_generator_output"
  by code_simp

lemma sample_reviews_valid:
  "valid_ReviewerOutput sample_passing_review" "valid_ReviewerOutput sample_failing_review"
  by code_simp+

lemma sample_tags_valid: "TaggerOutput_constraints sample_tags"
  by code_simp

lemma sample_input_valid: "GeneratorInput_constraints sample_generator_input"
  by code_simp

theorem save_then_get_roundtrip_witness:
  "fst (save demo_env demo_repository
      (artifact (run (scripted_orchestrator 2) sample_generator_input None world_fail_then_pass)))
     = ''run-1''
   \<and> get demo_env
       (snd (save demo_env demo_repository
          (artifact (run (scripted_orchestrator 2) sample_generator_input None
             world_fail_then_pass))))
       ''run-1''
     = Inr (Some (artifact (run (scripted_orchestrator 2) sample_generator_input None
                    world_fail_then_pass)))
   \<and> length (attempts (artifact (run (scripted_orchestrator 2) sample_generator_input None
                    world_fail_then_pass))) = 2"
proof -
  let ?x = "artifact (run (scripted_orchestrator 2) sample_generator_input None
              world_fail_then_pass)"
  have v: "valid_RunArtifact ?x"
    by (simp add: demo_artifact valid_RunArtifact_def valid_AttemptRecord_def
        valid_FinalResult_def valid_optional_def AttemptRecord_constraints_def
        sample_output_valid sample_reviews_valid sample_tags_valid sample_input_valid)
  have d: "list_all (\<lambda>t. fromisoformat demo_env (isoformat demo_env t) = Some t) (datetimes ?x)"
    by (simp add: demo_artifact datetimes_def demo_env_def scripted_instants_def)
  have r: "run_id ?x = ''run-1''" by (simp add: demo_artifact)
  have l: "length (attempts ?x) = 2" by (simp add: demo_artifact)
  from save_then_get_roundtrip [OF v d, of demo_repository] r l show ?thesis by simp
qed


end
